theory Spec2Isabelle
  imports Main "HOL-Library.Word" "HOL-Library.Signed_Division"
begin

unbundle bit_operations_syntax

section \<open>The ELF emission core of e9patch (e9elf.cpp)\<close>

text \<open>
  A shallow embedding of \<^verbatim>\<open>parseElf\<close>, \<^verbatim>\<open>emitRefactoredPatch\<close>,
  \<^verbatim>\<open>emitLoaderMap\<close> and \<^verbatim>\<open>emitElf\<close>.

  Conventions.
  \<^item> \<^verbatim>\<open>intptr_t\<close> and \<^verbatim>\<open>off_t\<close> values are \<open>int\<close>, \<^verbatim>\<open>size_t\<close>
    values are \<open>nat\<close>; where the source converts between integer types the
    conversion is written out (\<open>s64\<close>, \<open>u64\<close>, \<open>word_of_int\<close>). Fields
    stored in the file have their declared width (\<open>32 word\<close>, \<open>20 word\<close>, ...).
    A variable the source calls \<^verbatim>\<open>size\<close> is \<open>sz\<close> here (\<open>size\<close> is a constant
    of HOL).
  \<^item> The buffer \<^verbatim>\<open>B->patched.bytes\<close> is a function from byte offsets to bytes:
    the source writes past the logical size into capacity reserved by its caller.
    Offsets into the buffer are \<open>nat\<close>.
  \<^item> \<^verbatim>\<open>error(...)\<close> does not return: every call is a branch \<open>Inl e\<close>, with one
    constructor of \<open>error\<close> per call site; a failed \<^verbatim>\<open>assert\<close> is a branch too.
  \<^item> Macros, types and collaborators declared in headers that are not part of the
    sources (\<^verbatim>\<open>e9patch.h\<close>, \<^verbatim>\<open>e9mapping.h\<close>, \<^verbatim>\<open>e9alloc.h\<close>) are fields of the
    record \<open>env\<close>, together with the global options.
  \<^item> \<^verbatim>\<open>debug\<close>, \<^verbatim>\<open>warning\<close> and the write-only \<^verbatim>\<open>stat_*\<close> counters have no
    effect on any value modelled here and are left out.
\<close>

subsection \<open>Integers and bytes\<close>

type_synonym byte = "8 word"
type_synonym mem = "nat \<Rightarrow> byte"

text \<open>
  \<^verbatim>\<open>PAGE_SIZE\<close> is a macro of \<^verbatim>\<open>e9patch.h\<close>; it has type \<^verbatim>\<open>size_t\<close> (the source
  casts it, \<^verbatim>\<open>(intptr_t)PAGE_SIZE\<close>, where it wants signed arithmetic) and the value
  of the x86-64 page size.
\<close>

definition PAGE_SIZE :: nat where
  "PAGE_SIZE = 4096"

definition INT32_MIN :: int where
  "INT32_MIN = - 2147483648"

definition INT32_MAX :: int where
  "INT32_MAX = 2147483647"

definition UINT32_MAX :: int where
  "UINT32_MAX = 4294967295"

definition INTPTR_MIN :: int where
  "INTPTR_MIN = - 9223372036854775808"

text \<open>Conversion to a signed 64-bit type (\<^verbatim>\<open>intptr_t\<close>, \<^verbatim>\<open>off_t\<close>) and to \<^verbatim>\<open>size_t\<close>.\<close>

definition s64 :: "int \<Rightarrow> int" where
  "s64 x = (x + 9223372036854775808) mod 18446744073709551616 - 9223372036854775808"

definition u64 :: "int \<Rightarrow> nat" where
  "u64 x = nat (x mod 18446744073709551616)"

text \<open>\<^verbatim>\<open>memcpy(dst + d, src + s, n)\<close> and \<^verbatim>\<open>memcmp(a + off, b + off, n) == 0\<close>.\<close>

definition memcpy :: "mem \<Rightarrow> nat \<Rightarrow> mem \<Rightarrow> nat \<Rightarrow> nat \<Rightarrow> mem" where
  "memcpy dst d src s n = (\<lambda>a. if d \<le> a \<and> a < d + n then src (s + (a - d)) else dst a)"

definition memcmp_eq :: "mem \<Rightarrow> mem \<Rightarrow> nat \<Rightarrow> nat \<Rightarrow> bool" where
  "memcmp_eq a b off n = (map a [off..<off + n] = map b [off..<off + n])"

text \<open>Storing a byte sequence at an offset, and reading one back.\<close>

definition write_bytes :: "mem \<Rightarrow> nat \<Rightarrow> byte list \<Rightarrow> mem" where
  "write_bytes m a bs = (\<lambda>x. if a \<le> x \<and> x < a + length bs then bs ! (x - a) else m x)"

definition read_bytes :: "mem \<Rightarrow> nat \<Rightarrow> nat \<Rightarrow> byte list" where
  "read_bytes m a n = map m [a..<a + n]"

text \<open>The bytes of a 32-bit and of a 64-bit value in memory (little endian, x86-64).\<close>

definition le32 :: "32 word \<Rightarrow> byte list" where
  "le32 w = map (\<lambda>k. ucast (drop_bit (8 * k) w)) [0..<4]"

definition le64 :: "64 word \<Rightarrow> byte list" where
  "le64 w = map (\<lambda>k. ucast (drop_bit (8 * k) w)) [0..<8]"

subsection \<open>Errors\<close>

text \<open>One constructor per \<^verbatim>\<open>error(...)\<close> call of the source, in source order.\<close>

datatype error =
    FileTooSmall
  | InvalidMagic
  | Not64Bit
  | NotLittleEndian
  | InvalidVersion
  | NotX86_64
  | InvalidPhdrOffset
  | TooManyPhdrs
  | InvalidPhdrs
  | ExecutableNotSharedObject
  | ReserveLowFailed
  | NotExecutable
  | ReserveNegativeFailed
  | ReserveRangeFailed
  | InvalidDynamic
  | AssertionFailed
  | MappingAddressUnderflow
  | MappingAddressOverflow
  | MappingSizeOverflow
  | MappingOffsetOverflow
  | LoaderBaseTooLow
  | InvalidMode
  | MissingDynamic
  | MissingInit
  | NoInjectionSlot

text \<open>
  The error kinds of the specification: \<open>MalformedInput\<close> are the
  "failed to parse ELF" errors of \<^verbatim>\<open>parseElf\<close>, \<open>OverflowError\<close> the overflow errors
  of \<^verbatim>\<open>emitLoaderMap\<close>.
\<close>

definition is_MalformedInput :: "error \<Rightarrow> bool" where
  "is_MalformedInput e = (e \<in> {FileTooSmall, InvalidMagic, Not64Bit, NotLittleEndian,
     InvalidVersion, NotX86_64, InvalidPhdrOffset, TooManyPhdrs, InvalidPhdrs,
     ExecutableNotSharedObject, NotExecutable, InvalidDynamic})"

definition is_OverflowError :: "error \<Rightarrow> bool" where
  "is_OverflowError e = (e \<in> {MappingAddressUnderflow, MappingAddressOverflow,
     MappingSizeOverflow, MappingOffsetOverflow})"

subsection \<open>The loader's records (e9loader.h)\<close>

text \<open>
  \<^verbatim>\<open>struct e9_map_s\<close>: two 32-bit words and one word of bit fields
  (\<^verbatim>\<open>size:20\<close>, \<^verbatim>\<open>__reserved:8\<close>, four one-bit flags).
\<close>

record e9_map_s =
  map_addr :: "32 word"
  map_offset :: "32 word"
  map_size :: "20 word"
  map_reserved :: "8 word"
  map_r :: bool
  map_w :: bool
  map_x :: bool
  map_abs :: bool

definition sizeof_e9_map_s :: nat where
  "sizeof_e9_map_s = 12"

definition zero_map :: e9_map_s where
  "zero_map = \<lparr>map_addr = 0, map_offset = 0, map_size = 0, map_reserved = 0,
     map_r = False, map_w = False, map_x = False, map_abs = False\<rparr>"

text \<open>\<^verbatim>\<open>struct e9_config_s\<close>; the arrays \<^verbatim>\<open>num_maps[2]\<close> and \<^verbatim>\<open>maps[2]\<close> by index.\<close>

record e9_config_s =
  cfg_magic :: "byte list"
  cfg_flags :: "32 word"
  cfg_size :: "32 word"
  cfg_base :: "64 word"
  cfg_entry :: "64 word"
  cfg_dynamic :: "64 word"
  cfg_mmap :: "64 word"
  cfg_num_maps :: "nat \<Rightarrow> 32 word"
  cfg_maps :: "nat \<Rightarrow> 32 word"
  cfg_num_inits :: "32 word"
  cfg_inits :: "32 word"

definition sizeof_e9_config_s :: nat where
  "sizeof_e9_config_s = 72"

definition E9_FLAG_EXE :: "32 word" where
  "E9_FLAG_EXE = 1"

text \<open>
  Modelled from the spec: \<^verbatim>\<open>struct e9_config_elf_s\<close> is not declared in the sources;
  it is the "mode-specific extension record (config_elf, at minimum containing
  dynamic)" that follows the config record: one \<^verbatim>\<open>intptr_t\<close>.
\<close>

record e9_config_elf_s =
  cfg_elf_dynamic :: "64 word"

definition sizeof_e9_config_elf_s :: nat where
  "sizeof_e9_config_elf_s = 8"

text \<open>
  The buffer past the end of the input file is zero filled (Step (1) of \<^verbatim>\<open>emitElf\<close>:
  "zero-fill"), so the records the loader is built in start out as zeros.
\<close>

definition zero_config :: e9_config_s where
  "zero_config = \<lparr>cfg_magic = replicate 8 0, cfg_flags = 0, cfg_size = 0, cfg_base = 0,
     cfg_entry = 0, cfg_dynamic = 0, cfg_mmap = 0, cfg_num_maps = (\<lambda>i. 0),
     cfg_maps = (\<lambda>i. 0), cfg_num_inits = 0, cfg_inits = 0\<rparr>"

definition zero_config_elf :: e9_config_elf_s where
  "zero_config_elf = \<lparr>cfg_elf_dynamic = 0\<rparr>"

subsection \<open>ELF structures (elf.h)\<close>

record Elf64_Ehdr =
  e_ident :: "nat \<Rightarrow> byte"
  e_type :: "16 word"
  e_machine :: "16 word"
  e_version :: "32 word"
  e_entry :: "64 word"
  e_phoff :: "64 word"
  e_shoff :: "64 word"
  e_flags :: "32 word"
  e_ehsize :: "16 word"
  e_phentsize :: "16 word"
  e_phnum :: "16 word"
  e_shentsize :: "16 word"
  e_shnum :: "16 word"
  e_shstrndx :: "16 word"

record Elf64_Phdr =
  p_type :: "32 word"
  p_flags :: "32 word"
  p_offset :: "64 word"
  p_vaddr :: "64 word"
  p_paddr :: "64 word"
  p_filesz :: "64 word"
  p_memsz :: "64 word"
  p_align :: "64 word"

record Elf64_Dyn =
  d_tag :: "64 word"
  d_ptr :: "64 word"

definition sizeof_Elf64_Ehdr :: nat where "sizeof_Elf64_Ehdr = 64"
definition sizeof_Elf64_Phdr :: nat where "sizeof_Elf64_Phdr = 56"
definition sizeof_Elf64_Dyn :: nat where "sizeof_Elf64_Dyn = 16"

definition EI_MAG0 :: nat where "EI_MAG0 = 0"
definition EI_MAG1 :: nat where "EI_MAG1 = 1"
definition EI_MAG2 :: nat where "EI_MAG2 = 2"
definition EI_MAG3 :: nat where "EI_MAG3 = 3"
definition EI_CLASS :: nat where "EI_CLASS = 4"
definition EI_DATA :: nat where "EI_DATA = 5"
definition EI_VERSION :: nat where "EI_VERSION = 6"
definition ELFMAG0 :: byte where "ELFMAG0 = 0x7f"
definition ELFMAG1 :: byte where "ELFMAG1 = 0x45"
definition ELFMAG2 :: byte where "ELFMAG2 = 0x4c"
definition ELFMAG3 :: byte where "ELFMAG3 = 0x46"
definition ELFCLASS64 :: byte where "ELFCLASS64 = 2"
definition ELFDATA2LSB :: byte where "ELFDATA2LSB = 1"
definition EV_CURRENT :: byte where "EV_CURRENT = 1"
definition EM_X86_64 :: "16 word" where "EM_X86_64 = 62"
definition PN_XNUM :: nat where "PN_XNUM = 0xffff"
definition ET_EXEC :: "16 word" where "ET_EXEC = 2"
definition ET_DYN :: "16 word" where "ET_DYN = 3"
definition PT_LOAD :: "32 word" where "PT_LOAD = 1"
definition PT_DYNAMIC :: "32 word" where "PT_DYNAMIC = 2"
definition PT_NOTE :: "32 word" where "PT_NOTE = 4"
definition PT_GNU_STACK :: "32 word" where "PT_GNU_STACK = 0x6474e551"
definition PT_GNU_RELRO :: "32 word" where "PT_GNU_RELRO = 0x6474e552"
definition PF_X :: "32 word" where "PF_X = 1"
definition PF_R :: "32 word" where "PF_R = 4"
definition DT_NULL :: "64 word" where "DT_NULL = 0"
definition DT_INIT :: "64 word" where "DT_INIT = 12"
definition PROT_READ :: "32 word" where "PROT_READ = 1"
definition PROT_WRITE :: "32 word" where "PROT_WRITE = 2"
definition PROT_EXEC :: "32 word" where "PROT_EXEC = 4"

subsection \<open>The patcher's own data (e9patch.h, e9mapping.h)\<close>

text \<open>
  Of \<^verbatim>\<open>enum Mode\<close> the source names \<^verbatim>\<open>MODE_ELF_EXE\<close> and \<^verbatim>\<open>MODE_ELF_DSO\<close>;
  \<open>MODE_OTHER\<close> stands for every other value (the \<^verbatim>\<open>default:\<close> branches).
\<close>

datatype Mode = MODE_ELF_EXE | MODE_ELF_DSO | MODE_OTHER

record Instr =
  I_addr :: int
  I_offset :: int

text \<open>
  \<^verbatim>\<open>InstrSet\<close> is an ordered map from file offsets to instructions: an association
  list in ascending key order. \<open>lower_bound\<close> is the first entry whose key is not less
  than the offset (\<^verbatim>\<open>Is.end()\<close> is \<open>None\<close>).
\<close>

type_synonym InstrSet = "(int \<times> Instr) list"

definition lower_bound :: "InstrSet \<Rightarrow> int \<Rightarrow> Instr option" where
  "lower_bound Is offset = map_option snd (find (\<lambda>kv. offset \<le> fst kv) Is)"

record Refactor =
  r_addr :: int
  r_size :: nat
  r_original_offset :: int
  r_patched_offset :: int

text \<open>The constructor \<^verbatim>\<open>Refactor(addr, offset, size)\<close>.\<close>

definition Refactor_new :: "int \<Rightarrow> int \<Rightarrow> nat \<Rightarrow> Refactor" where
  "Refactor_new addr offset sz =
     \<lparr>r_addr = addr, r_size = sz, r_original_offset = offset, r_patched_offset = 0\<rparr>"

record Bounds =
  b_lb :: int
  b_ub :: int

text \<open>
  A \<^verbatim>\<open>Mapping\<close> with the fields the source reads; \<open>m_merged\<close> is the \<^verbatim>\<open>merged\<close>
  pointer (\<open>None\<close> is \<^verbatim>\<open>nullptr\<close>).
\<close>

datatype Mapping =
  Mapping (m_base: int) (m_size: nat) (m_offset: int) (m_prot: "32 word") (m_preload: bool)
    (m_merged: "Mapping option")

definition set_offset :: "Mapping \<Rightarrow> int \<Rightarrow> Mapping" where
  "set_offset m off = Mapping (m_base m) (m_size m) off (m_prot m) (m_preload m) (m_merged m)"

text \<open>
  What the sources use and do not define: the macros \<^verbatim>\<open>IS_ABSOLUTE\<close>,
  \<^verbatim>\<open>BASE_ADDRESS\<close> and \<^verbatim>\<open>RELATIVE_ADDRESS_MIN\<close>, the collaborators
  \<^verbatim>\<open>getVirtualBounds\<close> (the dense sub-ranges of a mapping) and \<^verbatim>\<open>flattenMapping\<close>
  (the byte image of a mapping, holes filled with the given byte), the loader blob
  \<^verbatim>\<open>e9loader_elf_bin\<close>, and the global options.
\<close>

record env =
  IS_ABSOLUTE :: "int \<Rightarrow> bool"
  BASE_ADDRESS :: "int \<Rightarrow> int"
  RELATIVE_ADDRESS_MIN :: int
  getVirtualBounds :: "Mapping \<Rightarrow> nat \<Rightarrow> Bounds list"
  flattenMapping :: "Mapping \<Rightarrow> byte \<Rightarrow> byte list"
  e9loader_elf_bin :: "byte list"
  option_loader_static :: bool
  option_loader_base :: int
  option_trap_entry :: bool
  option_loader_phdr :: "32 word"
  option_mem_rebase_set :: bool

text \<open>
  \<^verbatim>\<open>ElfInfo\<close>: pointers into the program header table, as indices (\<open>None\<close> is
  \<^verbatim>\<open>nullptr\<close>). \<^verbatim>\<open>info.ehdr\<close> always points to the start of the buffer.
\<close>

record ElfInfo =
  phdr_note :: "nat option"
  phdr_gnu_relro :: "nat option"
  phdr_gnu_stack :: "nat option"
  phdr_dynamic :: "nat option"

text \<open>
  A \<^verbatim>\<open>Binary\<close>. The source casts parts of \<^verbatim>\<open>B->patched.bytes\<close> to ELF structures;
  these typed views are fields of their own: \<open>B_ehdr\<close> is the \<^verbatim>\<open>Elf64_Ehdr\<close> at offset
  0, \<open>B_phdrs i\<close> the \<open>i\<close>-th \<^verbatim>\<open>Elf64_Phdr\<close> of the table at \<^verbatim>\<open>e_phoff\<close>, and
  \<open>B_dyn a\<close> the \<^verbatim>\<open>Elf64_Dyn\<close> at byte offset \<open>a\<close>. \<open>B_reserved\<close> is the state of
  the address space allocator.
\<close>

record Binary =
  B_mode :: Mode
  B_size :: nat
  B_original_bytes :: mem
  B_patched_bytes :: mem
  B_patched_size :: nat
  B_ehdr :: Elf64_Ehdr
  B_phdrs :: "nat \<Rightarrow> Elf64_Phdr"
  B_dyn :: "nat \<Rightarrow> Elf64_Dyn"
  B_elf :: ElfInfo
  B_Is :: InstrSet
  B_inits :: "int list"
  B_mmap :: int
  B_config :: int
  B_reserved :: "(int \<times> int) list"

section \<open>parseElf\<close>

text \<open>
  Modelled from the spec: \<^verbatim>\<open>reserve\<close> (e9alloc) is not part of the sources:
  "records address-range ownership; returns false iff overlapping a prior
  reservation".
\<close>

definition reserve :: "(int \<times> int) list \<Rightarrow> int \<Rightarrow> int \<Rightarrow> bool \<times> (int \<times> int) list" where
  "reserve rs lo hi =
     (if list_ex (\<lambda>lh. lo < snd lh \<and> fst lh < hi) rs then (False, rs)
      else (True, rs @ [(lo, hi)]))"

text \<open>
  The loop over the program headers: the reservations made so far and the four
  pointers \<^verbatim>\<open>phdr_note\<close>, \<^verbatim>\<open>phdr_gnu_relro\<close>, \<^verbatim>\<open>phdr_gnu_stack\<close>,
  \<^verbatim>\<open>phdr_dynamic\<close>.
\<close>

function parse_phdrs ::
  "(nat \<Rightarrow> Elf64_Phdr) \<Rightarrow> nat \<Rightarrow> nat \<Rightarrow> (int \<times> int) list \<times> ElfInfo
     \<Rightarrow> error + ((int \<times> int) list \<times> ElfInfo)" where
  "parse_phdrs phdrs phnum i (rs, info) =
     (if i < phnum then
        (let phdr = phdrs i in
         if p_type phdr = PT_LOAD then
           (let vstart = sint (p_vaddr phdr);
                vend = s64 (vstart + uint (p_memsz phdr))
            in case reserve rs vstart vend of
                 (False, rs') \<Rightarrow> Inl ReserveRangeFailed
               | (True, rs') \<Rightarrow> parse_phdrs phdrs phnum (i + 1) (rs', info))
         else if p_type phdr = PT_DYNAMIC then
           parse_phdrs phdrs phnum (i + 1) (rs, info\<lparr>phdr_dynamic := Some i\<rparr>)
         else if p_type phdr = PT_NOTE then
           parse_phdrs phdrs phnum (i + 1) (rs, info\<lparr>phdr_note := Some i\<rparr>)
         else if p_type phdr = PT_GNU_RELRO then
           parse_phdrs phdrs phnum (i + 1) (rs, info\<lparr>phdr_gnu_relro := Some i\<rparr>)
         else if p_type phdr = PT_GNU_STACK then
           parse_phdrs phdrs phnum (i + 1) (rs, info\<lparr>phdr_gnu_stack := Some i\<rparr>)
         else parse_phdrs phdrs phnum (i + 1) (rs, info))
      else Inr (rs, info))"
  by pat_completeness auto
termination
  by (relation "measure (\<lambda>(phdrs, phnum, i, st). phnum - i)") auto

declare parse_phdrs.simps [simp del]

text \<open>
  \<^verbatim>\<open>parseElf\<close> returns \<^verbatim>\<open>pic\<close>; the model returns it with the binary, whose
  \<open>B_elf\<close> and \<open>B_reserved\<close> it has filled in.
\<close>

definition parseElf :: "env \<Rightarrow> Binary \<Rightarrow> error + (bool \<times> Binary)" where
  "parseElf env B =
     (let sz = B_size B; mode = B_mode B; ehdr = B_ehdr B in
      if sz < sizeof_Elf64_Ehdr then Inl FileTooSmall
      else if e_ident ehdr EI_MAG0 \<noteq> ELFMAG0 \<or> e_ident ehdr EI_MAG1 \<noteq> ELFMAG1 \<or>
              e_ident ehdr EI_MAG2 \<noteq> ELFMAG2 \<or> e_ident ehdr EI_MAG3 \<noteq> ELFMAG3
        then Inl InvalidMagic
      else if e_ident ehdr EI_CLASS \<noteq> ELFCLASS64 then Inl Not64Bit
      else if e_ident ehdr EI_DATA \<noteq> ELFDATA2LSB then Inl NotLittleEndian
      else if e_ident ehdr EI_VERSION \<noteq> EV_CURRENT then Inl InvalidVersion
      else if e_machine ehdr \<noteq> EM_X86_64 then Inl NotX86_64
      else if unat (e_phoff ehdr) < sizeof_Elf64_Ehdr \<or> unat (e_phoff ehdr) \<ge> sz
        then Inl InvalidPhdrOffset
      else if unat (e_phnum ehdr) > PN_XNUM then Inl TooManyPhdrs
      else if (unat (e_phoff ehdr) + unat (e_phnum ehdr) * sizeof_Elf64_Phdr)
                mod 18446744073709551616 > sz
        then Inl InvalidPhdrs
      else
        (case (if e_type ehdr = ET_EXEC then
                 (if mode = MODE_ELF_DSO then Inl ExecutableNotSharedObject
                  else (case reserve (B_reserved B) 0 65536 of
                          (False, rs) \<Rightarrow> Inl ReserveLowFailed
                        | (True, rs) \<Rightarrow> Inr (False, False, rs)))
               else if e_type ehdr = ET_DYN then
                 Inr (True, mode = MODE_ELF_EXE, B_reserved B)
               else Inl NotExecutable) of
           Inl e \<Rightarrow> Inl e
         | Inr (pic, pie, rs) \<Rightarrow>
            (case (if \<not> pie then
                     (case reserve rs (RELATIVE_ADDRESS_MIN env) 0 of
                        (False, rs') \<Rightarrow> Inl ReserveNegativeFailed
                      | (True, rs') \<Rightarrow> Inr rs')
                   else Inr rs) of
               Inl e \<Rightarrow> Inl e
             | Inr rs \<Rightarrow>
                (case parse_phdrs (B_phdrs B) (unat (e_phnum ehdr)) 0
                        (rs, \<lparr>phdr_note = None, phdr_gnu_relro = None,
                               phdr_gnu_stack = None, phdr_dynamic = None\<rparr>) of
                   Inl e \<Rightarrow> Inl e
                 | Inr (rs, info) \<Rightarrow>
                    (case phdr_dynamic info of
                       None \<Rightarrow> Inr (pic, B\<lparr>B_elf := info, B_reserved := rs\<rparr>)
                     | Some d \<Rightarrow>
                        if (unat (p_offset (B_phdrs B d)) + unat (p_memsz (B_phdrs B d)))
                             mod 18446744073709551616 > sz
                        then Inl InvalidDynamic
                        else Inr (pic, B\<lparr>B_elf := info, B_reserved := rs\<rparr>))))))"

section \<open>emitRefactoredPatch\<close>

text \<open>The locals \<^verbatim>\<open>curr_addr\<close>, \<^verbatim>\<open>curr_offset\<close>, \<^verbatim>\<open>curr_size\<close> of Step #1.\<close>

record cluster =
  curr_addr :: int
  curr_offset :: int
  curr_size :: nat

text \<open>
  The condition under which a dirty page starts a new cluster (the \<^verbatim>\<open>if\<close> of lines
  216-217); the sum is computed in \<^verbatim>\<open>size_t\<close> and cast to \<^verbatim>\<open>intptr_t\<close>.
\<close>

definition starts_new_cluster :: "cluster \<Rightarrow> nat \<Rightarrow> int \<Rightarrow> bool" where
  "starts_new_cluster c mapping_size page_addr =
     (curr_addr c < 0 \<or> page_addr < curr_addr c \<or>
      s64 (curr_addr c + int (curr_size c) + int mapping_size) < page_addr)"

text \<open>The body of the loop for a page that differs (lines 216-229).\<close>

definition visit_page ::
  "nat \<Rightarrow> int \<Rightarrow> int \<Rightarrow> cluster \<times> Refactor list \<Rightarrow> cluster \<times> Refactor list" where
  "visit_page mapping_size page_addr page_offset cr =
     (let c = fst cr; refactors = snd cr in
      if starts_new_cluster c mapping_size page_addr then
        (\<lparr>curr_addr = page_addr, curr_offset = page_offset, curr_size = PAGE_SIZE\<rparr>,
         if curr_addr c \<ge> 0
         then refactors @ [Refactor_new (curr_addr c) (curr_offset c) (curr_size c)]
         else refactors)
      else
        (c\<lparr>curr_size := u64 (int (curr_size c) +
              ((page_addr + int PAGE_SIZE) - (curr_addr c + int (curr_size c))))\<rparr>,
         refactors))"

text \<open>
  Step #1, the loop over the pages. The remainders \<^verbatim>\<open>I->addr % PAGE_SIZE\<close> and
  \<^verbatim>\<open>I->offset % PAGE_SIZE\<close> are taken in \<^verbatim>\<open>size_t\<close>, which on two's complement is
  the remainder \<open>mod\<close> of HOL.
\<close>

function find_refactorings ::
  "mem \<Rightarrow> mem \<Rightarrow> nat \<Rightarrow> nat \<Rightarrow> InstrSet \<Rightarrow> nat \<Rightarrow> cluster \<times> Refactor list
     \<Rightarrow> error + (cluster \<times> Refactor list)" where
  "find_refactorings original data sz mapping_size Is offset cr =
     (if offset < sz then
        (if memcmp_eq original data offset PAGE_SIZE then
           find_refactorings original data sz mapping_size Is (offset + PAGE_SIZE) cr
         else
           (case lower_bound Is (int offset) of
              None \<Rightarrow> Inl AssertionFailed
            | Some I \<Rightarrow>
               (let page_addr = I_addr I - I_addr I mod int PAGE_SIZE;
                    page_offset = I_offset I - I_offset I mod int PAGE_SIZE
                in if page_offset \<noteq> int offset then Inl AssertionFailed
                   else find_refactorings original data sz mapping_size Is
                          (offset + PAGE_SIZE)
                          (visit_page mapping_size page_addr page_offset cr))))
      else Inr cr)"
  by pat_completeness auto
termination
  by (relation "measure (\<lambda>(original, data, sz, mapping_size, Is, offset, cr). sz - offset)")
    (auto simp: PAGE_SIZE_def)

declare find_refactorings.simps [simp del]

text \<open>Step #2, the loop over the refactorings.\<close>

fun write_refactors ::
  "mem \<Rightarrow> mem \<Rightarrow> nat \<Rightarrow> Refactor list \<Rightarrow> mem \<times> nat \<times> Refactor list" where
  "write_refactors original data sz [] = (data, sz, [])"
| "write_refactors original data sz (r # rs) =
     (let r' = r\<lparr>r_patched_offset := int sz\<rparr>;
          data = memcpy data sz data (nat (r_original_offset r)) (r_size r);
          data = memcpy data (nat (r_original_offset r)) original
                   (nat (r_original_offset r)) (r_size r);
          (data, sz, rs') = write_refactors original data (sz + r_size r) rs
      in (data, sz, r' # rs'))"

text \<open>
  \<^verbatim>\<open>emitRefactoredPatch\<close> returns the number of bytes appended; the model returns
  with it the buffer and the refactorings, which the source updates in place.
\<close>

definition emitRefactoredPatch ::
  "env \<Rightarrow> mem \<Rightarrow> mem \<Rightarrow> nat \<Rightarrow> nat \<Rightarrow> InstrSet \<Rightarrow> Refactor list
     \<Rightarrow> error + (nat \<times> mem \<times> Refactor list)" where
  "emitRefactoredPatch env original data sz mapping_size Is refactors =
     (if option_loader_static env then Inr (0, data, refactors)
      else if sz mod PAGE_SIZE \<noteq> 0 then Inl AssertionFailed
      else
        (case find_refactorings original data sz mapping_size Is 0
                (\<lparr>curr_addr = INTPTR_MIN, curr_offset = - 1, curr_size = 0\<rparr>, refactors) of
           Inl e \<Rightarrow> Inl e
         | Inr (c, refactors) \<Rightarrow>
            (let refactors =
                   (if curr_addr c \<ge> 0
                    then refactors @ [Refactor_new (curr_addr c) (curr_offset c) (curr_size c)]
                    else refactors);
                 size_0 = sz;
                 (data, sz, refactors) = write_refactors original data sz refactors
             in Inr (sz - size_0, data, refactors))))"

section \<open>emitLoaderMap\<close>

text \<open>
  \<open>rec\<close> is the \<^verbatim>\<open>e9_map_s\<close> at \<^verbatim>\<open>data\<close> before the call, \<open>ub\<close> the pointer
  \<^verbatim>\<open>intptr_t *ub\<close> (\<open>None\<close> is \<^verbatim>\<open>nullptr\<close>). The result is the returned size, the
  record as written and the value \<^verbatim>\<open>*ub\<close> afterwards. \<^verbatim>\<open>addr\<close> is divided as a
  signed value (truncation), \<^verbatim>\<open>len\<close> and \<^verbatim>\<open>offset\<close> in \<^verbatim>\<open>size_t\<close>.
\<close>

definition emitLoaderMap ::
  "env \<Rightarrow> e9_map_s \<Rightarrow> int \<Rightarrow> nat \<Rightarrow> int \<Rightarrow> bool \<Rightarrow> bool \<Rightarrow> bool \<Rightarrow> int option
     \<Rightarrow> error + (nat \<times> e9_map_s \<times> int option)" where
  "emitLoaderMap env rec addr len offset r w x ub =
     (let abs = IS_ABSOLUTE env addr;
          ub = (case ub of None \<Rightarrow> None
                | Some u \<Rightarrow> if \<not> abs then Some (max u addr) else Some u);
          addr = BASE_ADDRESS env addr;
          sz = sizeof_e9_map_s;
          addr = addr sdiv int PAGE_SIZE;
          len = len div PAGE_SIZE;
          offset = s64 (int (u64 offset div PAGE_SIZE))
      in if addr < INT32_MIN \<or> addr > INT32_MAX
         then Inl (if addr < 0 then MappingAddressUnderflow else MappingAddressOverflow)
         else if len \<ge> 2 ^ 21 then Inl MappingSizeOverflow
         else if offset > UINT32_MAX then Inl MappingOffsetOverflow
         else Inr (sz,
                   rec\<lparr>map_addr := word_of_int addr,
                       map_offset := word_of_int offset,
                       map_size := ucast (word_of_nat len :: 16 word),
                       map_r := r, map_w := w, map_x := x, map_abs := abs\<rparr>,
                   ub))"

section \<open>emitElf\<close>

text \<open>
  The state \<^verbatim>\<open>emitElf\<close> works on. \<open>st_data\<close> and \<open>st_size\<close> are \<^verbatim>\<open>data\<close> and the
  cursor \<^verbatim>\<open>size\<close>. The structures the source reaches through typed pointers into
  the buffer are typed fields: \<open>st_config\<close> and \<open>st_config_elf\<close> are \<^verbatim>\<open>*config\<close> and
  \<^verbatim>\<open>*config_elf\<close> (at \<open>st_config_offset\<close>), \<open>st_maps\<close> lists the \<^verbatim>\<open>e9_map_s\<close>
  records written by \<^verbatim>\<open>emitLoaderMap\<close> with the offset of each, in the order
  written, and \<open>st_ehdr\<close>, \<open>st_phdrs\<close>, \<open>st_dyn\<close> are the ELF header, the program
  headers and the \<^verbatim>\<open>Elf64_Dyn\<close> entries. The other fields are locals of \<^verbatim>\<open>emitElf\<close>
  (\<^verbatim>\<open>ub\<close>, \<^verbatim>\<open>config_offset\<close>, \<^verbatim>\<open>entry\<close>, \<^verbatim>\<open>config_size\<close>, \<^verbatim>\<open>refactors\<close>), the
  mappings with their \<^verbatim>\<open>offset\<close> fields as set in Step (3), and \<^verbatim>\<open>B->config\<close>.
  The value \<^verbatim>\<open>emitElf\<close> returns is \<open>st_size\<close> of the final state.
\<close>

record emit_state =
  st_data :: mem
  st_size :: nat
  st_config :: e9_config_s
  st_config_elf :: e9_config_elf_s
  st_maps :: "(nat \<times> e9_map_s) list"
  st_ub :: int
  st_config_offset :: nat
  st_entry :: int
  st_config_size :: nat
  st_mappings :: "Mapping list"
  st_refactors :: "Refactor list"
  st_ehdr :: Elf64_Ehdr
  st_phdrs :: "nat \<Rightarrow> Elf64_Phdr"
  st_dyn :: "nat \<Rightarrow> Elf64_Dyn"
  st_B_config :: int

text \<open>
  Rounding up to the next page boundary: the expression
  \<^verbatim>\<open>(size % PAGE_SIZE == 0? size: size + PAGE_SIZE - (size % PAGE_SIZE))\<close> of Steps (1)
  and (4) and of \<^verbatim>\<open>config->size\<close>.
\<close>

definition page_round_up :: "nat \<Rightarrow> nat" where
  "page_round_up sz =
     (if sz mod PAGE_SIZE = 0 then sz else sz + PAGE_SIZE - (sz mod PAGE_SIZE))"

text \<open>Step (3): the loop that emits the trampoline images.\<close>

fun emit_trampolines ::
  "env \<Rightarrow> Mapping list \<Rightarrow> mem \<Rightarrow> nat \<Rightarrow> Mapping list \<times> mem \<times> nat" where
  "emit_trampolines env [] data sz = ([], data, sz)"
| "emit_trampolines env (mapping # mappings) data sz =
     (let mapping' = set_offset mapping (int sz);
          data = write_bytes data sz (flattenMapping env mapping' 0xcc);
          sz = sz + m_size mapping;
          (mappings', data, sz) = emit_trampolines env mappings data sz
      in (mapping' # mappings', data, sz))"

text \<open>Steps (1) to (3).\<close>

definition emitElf_steps_1_3 ::
  "env \<Rightarrow> Binary \<Rightarrow> Mapping list \<Rightarrow> nat \<Rightarrow> error + emit_state" where
  "emitElf_steps_1_3 env B mappings mapping_size =
     (let data = B_patched_bytes B;
          sz = B_patched_size B;
          sz = page_round_up sz
      in case emitRefactoredPatch env (B_original_bytes B) data sz mapping_size (B_Is B) [] of
           Inl e \<Rightarrow> Inl e
         | Inr (n, data, refactors) \<Rightarrow>
            (let sz = sz + n;
                 (mappings, data, sz) = emit_trampolines env mappings data sz
             in Inr \<lparr>st_data = data, st_size = sz, st_config = zero_config,
                      st_config_elf = zero_config_elf, st_maps = [], st_ub = INTPTR_MIN,
                      st_config_offset = 0, st_entry = 0, st_config_size = 0,
                      st_mappings = mappings, st_refactors = refactors,
                      st_ehdr = B_ehdr B, st_phdrs = B_phdrs B, st_dyn = B_dyn B,
                      st_B_config = option_loader_base env\<rparr>))"

text \<open>Step (4), the config record and the table of init functions.\<close>

definition E9PATCH_magic :: "byte list" where
  "E9PATCH_magic = [0x45, 0x39, 0x50, 0x41, 0x54, 0x43, 0x48, 0x00]"

fun emit_inits :: "int list \<Rightarrow> emit_state \<Rightarrow> emit_state" where
  "emit_inits [] s = s"
| "emit_inits (init # inits) s =
     emit_inits inits
       (s\<lparr>st_data := write_bytes (st_data s) (st_size s) (le64 (word_of_int init)),
          st_size := st_size s + 8,
          st_config := (st_config s)\<lparr>cfg_num_inits := cfg_num_inits (st_config s) + 1\<rparr>\<rparr>)"

definition emit_config :: "env \<Rightarrow> Binary \<Rightarrow> emit_state \<Rightarrow> emit_state" where
  "emit_config env B s =
     (let sz = page_round_up (st_size s);
          config_offset = sz;
          sz = sz + sizeof_e9_config_s;
          sz = sz + sizeof_e9_config_elf_s;
          config = (st_config s)\<lparr>cfg_magic := E9PATCH_magic,
                                 cfg_base := word_of_int (option_loader_base env)\<rparr>;
          config = (if B_mmap B \<noteq> INTPTR_MIN
                    then config\<lparr>cfg_mmap := word_of_int (B_mmap B)\<rparr> else config);
          config = config\<lparr>cfg_inits := word_of_nat (sz - config_offset)\<rparr>
      in emit_inits (B_inits B)
           (s\<lparr>st_size := sz, st_config_offset := config_offset, st_config := config\<rparr>))"

text \<open>
  Step (4), the two arrays of mappings. One call of \<^verbatim>\<open>emitLoaderMap\<close> with
  \<^verbatim>\<open>&ub\<close>, followed by \<^verbatim>\<open>config->num_maps[i]++\<close>:
\<close>

definition emit_one_map ::
  "env \<Rightarrow> nat \<Rightarrow> int \<Rightarrow> nat \<Rightarrow> int \<Rightarrow> bool \<Rightarrow> bool \<Rightarrow> bool \<Rightarrow> bool \<Rightarrow> emit_state
     \<Rightarrow> error + emit_state" where
  "emit_one_map env i base len offset r w x track s =
     (case emitLoaderMap env zero_map base len offset r w x
             (if track then Some (st_ub s) else None) of
        Inl e \<Rightarrow> Inl e
      | Inr (n, rec, ub) \<Rightarrow>
          Inr (s\<lparr>st_maps := st_maps s @ [(st_size s, rec)],
                 st_size := st_size s + n,
                 st_ub := (case ub of None \<Rightarrow> st_ub s | Some u \<Rightarrow> u),
                 st_config := (st_config s)\<lparr>cfg_num_maps :=
                     (cfg_num_maps (st_config s))(i := cfg_num_maps (st_config s) i + 1)\<rparr>\<rparr>))"

text \<open>The loop over the bounds of one node of a chain (lines 358-373).\<close>

fun emit_bounds ::
  "env \<Rightarrow> nat \<Rightarrow> Mapping \<Rightarrow> int \<Rightarrow> Bounds list \<Rightarrow> emit_state \<Rightarrow> error + emit_state" where
  "emit_bounds env i mapping offset_0 [] s = Inr s"
| "emit_bounds env i mapping offset_0 (b # bounds) s =
     (let r = (m_prot mapping AND PROT_READ \<noteq> 0);
          w = (m_prot mapping AND PROT_WRITE \<noteq> 0);
          x = (m_prot mapping AND PROT_EXEC \<noteq> 0);
          base = s64 (m_base mapping + b_lb b);
          len = u64 (b_ub b - b_lb b);
          offset = s64 (offset_0 + b_lb b)
      in case emit_one_map env i base len offset r w x True s of
           Inl e \<Rightarrow> Inl e
         | Inr s' \<Rightarrow> emit_bounds env i mapping offset_0 bounds s')"

text \<open>The loop over the chain \<^verbatim>\<open>mapping\<close>, \<^verbatim>\<open>mapping->merged\<close>, ... (lines 349-374).\<close>

fun emit_chain ::
  "env \<Rightarrow> bool \<Rightarrow> nat \<Rightarrow> int \<Rightarrow> Mapping option \<Rightarrow> emit_state \<Rightarrow> error + emit_state" where
  "emit_chain env preload i offset_0 None s = Inr s"
| "emit_chain env preload i offset_0 (Some (Mapping base sz offset prot pre merged)) s =
     (let mapping = Mapping base sz offset prot pre merged in
      if m_preload mapping \<noteq> preload then emit_chain env preload i offset_0 merged s
      else
        (case emit_bounds env i mapping offset_0 (getVirtualBounds env mapping PAGE_SIZE) s of
           Inl e \<Rightarrow> Inl e
         | Inr s' \<Rightarrow> emit_chain env preload i offset_0 merged s'))"

text \<open>The loop over the mappings (lines 344-375); \<^verbatim>\<open>offset_0\<close> is the head's offset.\<close>

fun emit_mappings ::
  "env \<Rightarrow> bool \<Rightarrow> nat \<Rightarrow> Mapping list \<Rightarrow> emit_state \<Rightarrow> error + emit_state" where
  "emit_mappings env preload i [] s = Inr s"
| "emit_mappings env preload i (mapping # mappings) s =
     (let offset_0 = m_offset mapping in
      case emit_chain env preload i offset_0 (Some mapping) s of
        Inl e \<Rightarrow> Inl e
      | Inr s' \<Rightarrow> emit_mappings env preload i mappings s')"

text \<open>One round of the loop \<^verbatim>\<open>for (unsigned i = 0; i < 2; i++)\<close>, and the loop.\<close>

definition emit_map_array :: "env \<Rightarrow> nat \<Rightarrow> emit_state \<Rightarrow> error + emit_state" where
  "emit_map_array env i s =
     (let s = s\<lparr>st_config := (st_config s)\<lparr>cfg_maps :=
                  (cfg_maps (st_config s))(i := word_of_nat (st_size s - st_config_offset s))\<rparr>\<rparr>;
          preload = (i = 0)
      in emit_mappings env preload i (st_mappings s) s)"

definition emit_map_arrays :: "env \<Rightarrow> emit_state \<Rightarrow> error + emit_state" where
  "emit_map_arrays env s =
     (case emit_map_array env 0 (s\<lparr>st_ub := INTPTR_MIN\<rparr>) of
        Inl e \<Rightarrow> Inl e
      | Inr s' \<Rightarrow> emit_map_array env 1 s')"

text \<open>The loop over the refactorings (lines 386-395).\<close>

fun emit_refactor_maps :: "env \<Rightarrow> Refactor list \<Rightarrow> emit_state \<Rightarrow> error + emit_state" where
  "emit_refactor_maps env [] s = Inr s"
| "emit_refactor_maps env (refactor # refactors) s =
     (case emit_one_map env 1 (r_addr refactor) (r_size refactor) (r_patched_offset refactor)
             True False True False s of
        Inl e \<Rightarrow> Inl e
      | Inr s' \<Rightarrow> emit_refactor_maps env refactors s')"

text \<open>
  The entry shim and the loader (lines 396-428). The bytes the source stores one by
  one with \<^verbatim>\<open>data[size++]\<close> are stored here a group at a time.
\<close>

definition prologue :: "Mode \<Rightarrow> error + byte list" where
  "prologue mode =
     (case mode of
        MODE_ELF_EXE \<Rightarrow> Inr [0x48, 0x8B, 0x3C, 0x24, 0x48, 0x8D, 0x74, 0x24, 0x08]
      | MODE_ELF_DSO \<Rightarrow> Inr [0x31, 0xFF, 0x31, 0xF6]
      | MODE_OTHER \<Rightarrow> Inl InvalidMode)"

definition emit_entry_shim :: "env \<Rightarrow> Binary \<Rightarrow> emit_state \<Rightarrow> error + emit_state" where
  "emit_entry_shim env B s =
     (let data = st_data s; sz = st_size s; config_offset = st_config_offset s;
          entry = s64 (option_loader_base env + int (sz - config_offset));
          (data, sz) = (if option_trap_entry env
                        then (write_bytes data sz [0xCC], sz + 1) else (data, sz))
      in case prologue (B_mode B) of
           Inl e \<Rightarrow> Inl e
         | Inr bytes \<Rightarrow>
            (let data = write_bytes data sz bytes;
                 sz = sz + length bytes;
                 data = write_bytes data sz [0x48, 0x8D, 0x15];
                 sz = sz + 3;
                 config_rel32 = - (word_of_nat ((sz + 4) - config_offset) :: 32 word);
                 data = write_bytes data sz (le32 config_rel32);
                 sz = sz + 4;
                 data = write_bytes data sz (e9loader_elf_bin env);
                 sz = sz + length (e9loader_elf_bin env);
                 config_size = sz - config_offset;
                 config = (st_config s)\<lparr>cfg_size := word_of_nat (page_round_up config_size)\<rparr>
             in Inr (s\<lparr>st_data := data, st_size := sz, st_entry := entry,
                       st_config_size := config_size, st_config := config\<rparr>)))"

text \<open>Step (4).\<close>

definition emitElf_step_4 :: "env \<Rightarrow> Binary \<Rightarrow> emit_state \<Rightarrow> error + emit_state" where
  "emitElf_step_4 env B s =
     (case emit_map_arrays env (emit_config env B s) of
        Inl e \<Rightarrow> Inl e
      | Inr s \<Rightarrow>
         if st_ub s > option_loader_base env then Inl LoaderBaseTooLow
         else (case emit_refactor_maps env (st_refactors s) s of
                 Inl e \<Rightarrow> Inl e
               | Inr s \<Rightarrow> emit_entry_shim env B s))"

text \<open>
  Step (5). The loop that looks for \<^verbatim>\<open>DT_INIT\<close>: \<open>base\<close> is the byte offset of
  \<^verbatim>\<open>dynamic\<close>, the state is \<^verbatim>\<open>found\<close>, \<^verbatim>\<open>*config\<close> and the \<^verbatim>\<open>Elf64_Dyn\<close> entries.
\<close>

function replace_init ::
  "64 word \<Rightarrow> nat \<Rightarrow> nat \<Rightarrow> nat \<Rightarrow> bool \<times> e9_config_s \<times> (nat \<Rightarrow> Elf64_Dyn)
     \<Rightarrow> bool \<times> e9_config_s \<times> (nat \<Rightarrow> Elf64_Dyn)" where
  "replace_init entry base num_dynamic i (found, config, dyn) =
     (if \<not> found \<and> i < num_dynamic then
        (let a = base + i * sizeof_Elf64_Dyn in
         if d_tag (dyn a) = DT_NULL then (found, config, dyn)
         else if d_tag (dyn a) = DT_INIT then
           replace_init entry base num_dynamic (i + 1)
             (True, config\<lparr>cfg_entry := d_ptr (dyn a)\<rparr>, dyn(a := (dyn a)\<lparr>d_ptr := entry\<rparr>))
         else replace_init entry base num_dynamic (i + 1) (found, config, dyn))
      else (found, config, dyn))"
  by pat_completeness auto
termination
  by (relation "measure (\<lambda>(entry, base, num_dynamic, i, st). num_dynamic - i)") auto

declare replace_init.simps [simp del]

definition emitElf_step_5 :: "env \<Rightarrow> Binary \<Rightarrow> emit_state \<Rightarrow> error + emit_state" where
  "emitElf_step_5 env B s =
     (let phdr = phdr_dynamic (B_elf B);
          s = (case phdr of
                 None \<Rightarrow> s
               | Some p \<Rightarrow> s\<lparr>st_config_elf :=
                    (st_config_elf s)\<lparr>cfg_elf_dynamic := p_vaddr (st_phdrs s p)\<rparr>\<rparr>)
      in case B_mode B of
           MODE_ELF_EXE \<Rightarrow>
             Inr (s\<lparr>st_config := (st_config s)\<lparr>cfg_entry := e_entry (st_ehdr s),
                        cfg_flags := cfg_flags (st_config s) OR E9_FLAG_EXE\<rparr>,
                    st_ehdr := (st_ehdr s)\<lparr>e_entry := word_of_int (st_entry s)\<rparr>\<rparr>)
         | MODE_ELF_DSO \<Rightarrow>
             (case phdr of
                None \<Rightarrow> Inl MissingDynamic
              | Some p \<Rightarrow>
                 (let base = unat (p_offset (st_phdrs s p));
                      num_dynamic = unat (p_memsz (st_phdrs s p)) div sizeof_Elf64_Dyn;
                      (found, config, dyn) =
                         replace_init (word_of_int (st_entry s)) base num_dynamic 0
                           (False, st_config s, st_dyn s)
                  in if \<not> found then Inl MissingInit
                     else Inr (s\<lparr>st_config := config, st_dyn := dyn\<rparr>)))
         | MODE_OTHER \<Rightarrow> Inl InvalidMode)"

text \<open>Step (6).\<close>

definition select_phdr :: "env \<Rightarrow> Binary \<Rightarrow> nat option" where
  "select_phdr env B =
     (if option_loader_phdr env = PT_NOTE then phdr_note (B_elf B)
      else if option_loader_phdr env = PT_GNU_RELRO then phdr_gnu_relro (B_elf B)
      else if option_loader_phdr env = PT_GNU_STACK then phdr_gnu_stack (B_elf B)
      else
        (let phdr = phdr_note (B_elf B);
             phdr = (if phdr = None then phdr_gnu_relro (B_elf B) else phdr);
             phdr = (if phdr = None then phdr_gnu_stack (B_elf B) else phdr)
         in phdr))"

definition emitElf_step_6 :: "env \<Rightarrow> Binary \<Rightarrow> emit_state \<Rightarrow> error + emit_state" where
  "emitElf_step_6 env B s =
     (case select_phdr env B of
        None \<Rightarrow> Inl NoInjectionSlot
      | Some p \<Rightarrow>
          Inr (s\<lparr>st_phdrs := (st_phdrs s)(p := (st_phdrs s p)
                 \<lparr>p_type := PT_LOAD,
                  p_flags := PF_X OR PF_R,
                  p_offset := word_of_nat (st_config_offset s),
                  p_vaddr := word_of_int (option_loader_base env),
                  p_paddr := 0,
                  p_filesz := word_of_nat (st_config_size s),
                  p_memsz := word_of_nat (st_config_size s),
                  p_align := word_of_nat PAGE_SIZE\<rparr>)\<rparr>))"

definition emitElf :: "env \<Rightarrow> Binary \<Rightarrow> Mapping list \<Rightarrow> nat \<Rightarrow> error + emit_state" where
  "emitElf env B mappings mapping_size =
     (case emitElf_steps_1_3 env B mappings mapping_size of
        Inl e \<Rightarrow> Inl e
      | Inr s \<Rightarrow>
         (case emitElf_step_4 env B s of
            Inl e \<Rightarrow> Inl e
          | Inr s \<Rightarrow>
             (case emitElf_step_5 env B s of
                Inl e \<Rightarrow> Inl e
              | Inr s \<Rightarrow> emitElf_step_6 env B s)))"

section \<open>Concrete inputs\<close>

text \<open>
  An instance of \<open>env\<close> for the closed examples below. Addresses from \<open>2 ^ 62\<close> on
  are absolute; a mapping is one dense range; the loader blob is the three bytes of
  \<^verbatim>\<open>jmp *0x18(%rdx)\<close>, a jump to \<^verbatim>\<open>config->entry\<close>; the options have the values of a
  run without command line options (\<^verbatim>\<open>--loader-base\<close> is \<^verbatim>\<open>0x20e9e9000\<close>).
\<close>

definition example_env :: env where
  "example_env =
     \<lparr>IS_ABSOLUTE = (\<lambda>addr. addr \<ge> 4611686018427387904),
      BASE_ADDRESS = (\<lambda>addr. if addr \<ge> 4611686018427387904
                              then addr - 4611686018427387904 else addr),
      RELATIVE_ADDRESS_MIN = - 140737488355328,
      getVirtualBounds = (\<lambda>m ps. [\<lparr>b_lb = 0, b_ub = int (m_size m)\<rparr>]),
      flattenMapping = (\<lambda>m fill. replicate (m_size m) fill),
      e9loader_elf_bin = [0xFF, 0x62, 0x18],
      option_loader_static = False,
      option_loader_base = 0x20e9e9000,
      option_trap_entry = False,
      option_loader_phdr = 0,
      option_mem_rebase_set = False\<rparr>"

text \<open>
  A file of two pages: a header with three program headers (\<^verbatim>\<open>PT_LOAD\<close>,
  \<^verbatim>\<open>PT_DYNAMIC\<close>, \<^verbatim>\<open>PT_NOTE\<close>) and a dynamic section of three entries
  (\<^verbatim>\<open>DT_NEEDED\<close>, \<^verbatim>\<open>DT_INIT\<close> with pointer \<^verbatim>\<open>0x1200\<close>, \<^verbatim>\<open>DT_NULL\<close>) at offset
  \<^verbatim>\<open>0x800\<close>. The binary is given its mode and its ELF type; it has no patches.
\<close>

definition example_ehdr :: "16 word \<Rightarrow> Elf64_Ehdr" where
  "example_ehdr etype =
     \<lparr>e_ident = (\<lambda>i. if i < 16
          then [0x7f, 0x45, 0x4c, 0x46, 2, 1, 1, 0, 0, 0, 0, 0, 0, 0, 0, 0] ! i else 0),
      e_type = etype, e_machine = 62, e_version = 1, e_entry = 0x1040, e_phoff = 64,
      e_shoff = 0, e_flags = 0, e_ehsize = 64, e_phentsize = 56, e_phnum = 3,
      e_shentsize = 64, e_shnum = 0, e_shstrndx = 0\<rparr>"

definition example_phdrs :: "nat \<Rightarrow> Elf64_Phdr" where
  "example_phdrs i =
     (if i = 0 then
        \<lparr>p_type = PT_LOAD, p_flags = 5, p_offset = 0, p_vaddr = 0, p_paddr = 0,
         p_filesz = 0x2000, p_memsz = 0x2000, p_align = 0x1000\<rparr>
      else if i = 1 then
        \<lparr>p_type = PT_DYNAMIC, p_flags = 6, p_offset = 0x800, p_vaddr = 0x800, p_paddr = 0x800,
         p_filesz = 0x30, p_memsz = 0x30, p_align = 8\<rparr>
      else if i = 2 then
        \<lparr>p_type = PT_NOTE, p_flags = 4, p_offset = 0x200, p_vaddr = 0x200, p_paddr = 0x200,
         p_filesz = 0x20, p_memsz = 0x20, p_align = 4\<rparr>
      else
        \<lparr>p_type = 0, p_flags = 0, p_offset = 0, p_vaddr = 0, p_paddr = 0,
         p_filesz = 0, p_memsz = 0, p_align = 0\<rparr>)"

definition example_dyn :: "nat \<Rightarrow> Elf64_Dyn" where
  "example_dyn a =
     (if a = 0x800 then \<lparr>d_tag = 1, d_ptr = 1\<rparr>
      else if a = 0x810 then \<lparr>d_tag = DT_INIT, d_ptr = 0x1200\<rparr>
      else \<lparr>d_tag = DT_NULL, d_ptr = 0\<rparr>)"

definition no_elf_info :: ElfInfo where
  "no_elf_info = \<lparr>phdr_note = None, phdr_gnu_relro = None, phdr_gnu_stack = None,
     phdr_dynamic = None\<rparr>"

definition example_elf_info :: ElfInfo where
  "example_elf_info = \<lparr>phdr_note = Some 2, phdr_gnu_relro = None, phdr_gnu_stack = None,
     phdr_dynamic = Some 1\<rparr>"

definition example_binary :: "Mode \<Rightarrow> 16 word \<Rightarrow> Binary" where
  "example_binary mode etype =
     \<lparr>B_mode = mode, B_size = 0x2000, B_original_bytes = (\<lambda>a. 0),
      B_patched_bytes = (\<lambda>a. 0), B_patched_size = 0x2000,
      B_ehdr = example_ehdr etype, B_phdrs = example_phdrs, B_dyn = example_dyn,
      B_elf = no_elf_info, B_Is = [], B_inits = [], B_mmap = INTPTR_MIN, B_config = 0,
      B_reserved = []\<rparr>"

text \<open>
  The binary once \<^verbatim>\<open>parseElf\<close> has recorded the headers it found: \<^verbatim>\<open>PT_NOTE\<close> is
  header 2 and \<^verbatim>\<open>PT_DYNAMIC\<close> is header 1.
\<close>

definition parsed :: "Binary \<Rightarrow> Binary" where
  "parsed B = B\<lparr>B_elf := example_elf_info\<rparr>"

text \<open>
  A trampoline mapping of two pages at \<^verbatim>\<open>0x10000000\<close>, loaded before the program
  starts, with one merged mapping of one page at \<^verbatim>\<open>0x10004000\<close>, loaded after, whose
  own offset field is \<^verbatim>\<open>0x7000\<close>. Both are readable and executable.
\<close>

definition example_chain :: Mapping where
  "example_chain =
     Mapping 0x10000000 0x2000 0 5 True (Some (Mapping 0x10004000 0x1000 0x7000 5 False None))"

text \<open>
  An original image of zero bytes, and a patched image that differs from it in
  the bytes at the listed offsets.
\<close>

definition zero_bytes :: mem where
  "zero_bytes = (\<lambda>a. 0)"

definition patch_at :: "nat list \<Rightarrow> mem" where
  "patch_at xs = (\<lambda>a. if a \<in> set xs then 0xE9 else 0)"

text \<open>
  The example binary with one patched instruction, at file offset \<^verbatim>\<open>0x40\<close> and at
  the address \<^verbatim>\<open>0x300000040\<close>, which lies above the loader base of the example.
\<close>

definition patched_binary :: Binary where
  "patched_binary =
     (parsed (example_binary MODE_ELF_EXE ET_DYN))
       \<lparr>B_original_bytes := zero_bytes, B_patched_bytes := patch_at [0x40],
        B_Is := [(0x40, \<lparr>I_addr = 0x300000040, I_offset = 0x40\<rparr>)]\<rparr>"

section \<open>Vocabulary of the statements\<close>

text \<open>The address and the file offset of the page an instruction lies in.\<close>

definition page_addr_of :: "Instr \<Rightarrow> int" where
  "page_addr_of I = I_addr I - I_addr I mod int PAGE_SIZE"

definition page_offset_of :: "Instr \<Rightarrow> int" where
  "page_offset_of I = I_offset I - I_offset I mod int PAGE_SIZE"

text \<open>
  Of the \<open>n\<close> pages of a file, the pages \<open>k1\<close> and \<open>k2\<close> are the ones that differ
  from the original, and two instructions \<open>I1\<close>, \<open>I2\<close>, one in each, are the
  instruction set.
\<close>

definition two_dirty_pages ::
  "mem \<Rightarrow> mem \<Rightarrow> nat \<Rightarrow> nat \<Rightarrow> nat \<Rightarrow> Instr \<Rightarrow> Instr \<Rightarrow> bool" where
  "two_dirty_pages original data n k1 k2 I1 I2 =
     (k1 < k2 \<and> k2 < n
      \<and> list_all (\<lambda>k. memcmp_eq original data (k * PAGE_SIZE) PAGE_SIZE = (k \<noteq> k1 \<and> k \<noteq> k2))
           [0..<n]
      \<and> page_offset_of I1 = int (k1 * PAGE_SIZE)
      \<and> page_offset_of I2 = int (k2 * PAGE_SIZE))"

text \<open>What a run of \<^verbatim>\<open>emitRefactoredPatch\<close> returns and plans, without the buffer.\<close>

definition planned ::
  "error + (nat \<times> mem \<times> Refactor list) \<Rightarrow> error + (nat \<times> Refactor list)" where
  "planned res = (case res of Inl e \<Rightarrow> Inl e | Inr (n, data, refactors) \<Rightarrow> Inr (n, refactors))"

text \<open>
  The range of file offsets a refactoring restores, \<open>nat (r_original_offset r)\<close> up
  to \<open>r_size r\<close> bytes further; all ranges of a list inside the first \<open>sz\<close> bytes;
  no two ranges of a list overlapping.
\<close>

definition in_range :: "Refactor \<Rightarrow> nat \<Rightarrow> bool" where
  "in_range r a = (nat (r_original_offset r) \<le> a \<and> a < nat (r_original_offset r) + r_size r)"

definition ranges_in_file :: "nat \<Rightarrow> Refactor list \<Rightarrow> bool" where
  "ranges_in_file sz rs = list_all (\<lambda>r. nat (r_original_offset r) + r_size r \<le> sz) rs"

fun ranges_disjoint :: "Refactor list \<Rightarrow> bool" where
  "ranges_disjoint [] = True"
| "ranges_disjoint (r # rs) =
     (list_all (\<lambda>r'. nat (r_original_offset r) + r_size r \<le> nat (r_original_offset r')
                     \<or> nat (r_original_offset r') + r_size r' \<le> nat (r_original_offset r)) rs
      \<and> ranges_disjoint rs)"

text \<open>The buffer after a run of \<^verbatim>\<open>emitRefactoredPatch\<close>.\<close>

definition result_bytes :: "error + (nat \<times> mem \<times> Refactor list) \<Rightarrow> mem" where
  "result_bytes res = (case res of Inl e \<Rightarrow> zero_bytes | Inr (n, data, refactors) \<Rightarrow> data)"

text \<open>
  The arguments of one call of \<^verbatim>\<open>emitLoaderMap\<close>, and the record the call writes
  over zeroed memory when it succeeds.
\<close>

record map_call =
  c_base :: int
  c_len :: nat
  c_offset :: int
  c_r :: bool
  c_w :: bool
  c_x :: bool

definition written_map :: "env \<Rightarrow> map_call \<Rightarrow> e9_map_s" where
  "written_map env c =
     (case emitLoaderMap env zero_map (c_base c) (c_len c) (c_offset c) (c_r c) (c_w c) (c_x c)
             None of
        Inl e \<Rightarrow> zero_map
      | Inr (n, rec, ub) \<Rightarrow> rec)"

text \<open>The call passes the range checks of \<^verbatim>\<open>emitLoaderMap\<close>.\<close>

definition call_ok :: "env \<Rightarrow> map_call \<Rightarrow> bool" where
  "call_ok env c =
     (\<not> isl (emitLoaderMap env zero_map (c_base c) (c_len c) (c_offset c) (c_r c) (c_w c) (c_x c)
               None))"

text \<open>The nodes of a chain of merged mappings, the head first.\<close>

fun chain_nodes :: "Mapping option \<Rightarrow> Mapping list" where
  "chain_nodes None = []"
| "chain_nodes (Some (Mapping base sz offset prot pre merged)) =
     Mapping base sz offset prot pre merged # chain_nodes merged"

text \<open>
  The call for the sub-range \<open>b\<close> of the node \<open>node\<close> of the chain with head \<open>head\<close>,
  and the calls of one pass over the mappings (\<open>preload\<close> true for the first array,
  false for the second), in the order of the loops.
\<close>

definition bound_call :: "Mapping \<Rightarrow> Mapping \<Rightarrow> Bounds \<Rightarrow> map_call" where
  "bound_call head node b =
     \<lparr>c_base = s64 (m_base node + b_lb b),
      c_len = u64 (b_ub b - b_lb b),
      c_offset = s64 (m_offset head + b_lb b),
      c_r = (m_prot node AND PROT_READ \<noteq> 0),
      c_w = (m_prot node AND PROT_WRITE \<noteq> 0),
      c_x = (m_prot node AND PROT_EXEC \<noteq> 0)\<rparr>"

definition chain_calls :: "env \<Rightarrow> bool \<Rightarrow> Mapping \<Rightarrow> Mapping list \<Rightarrow> map_call list" where
  "chain_calls env preload head nodes =
     concat (map (\<lambda>node. map (bound_call head node) (getVirtualBounds env node PAGE_SIZE))
                 (filter (\<lambda>node. m_preload node = preload) nodes))"

definition map_calls :: "env \<Rightarrow> bool \<Rightarrow> Mapping list \<Rightarrow> map_call list" where
  "map_calls env preload mappings =
     concat (map (\<lambda>head. chain_calls env preload head (chain_nodes (Some head))) mappings)"

definition refactor_call :: "Refactor \<Rightarrow> map_call" where
  "refactor_call r =
     \<lparr>c_base = r_addr r, c_len = r_size r, c_offset = r_patched_offset r,
      c_r = True, c_w = False, c_x = True\<rparr>"

text \<open>
  The largest base of the calls that is not absolute, starting from \<open>u\<close>: what the
  calls make of \<^verbatim>\<open>ub\<close>.
\<close>

definition ub_of :: "env \<Rightarrow> map_call list \<Rightarrow> int \<Rightarrow> int" where
  "ub_of env cs u =
     foldl (\<lambda>u c. if IS_ABSOLUTE env (c_base c) then u else max u (c_base c)) u cs"

text \<open>The fields of the state that emitting map records leaves alone.\<close>

definition same_frame :: "emit_state \<Rightarrow> emit_state \<Rightarrow> bool" where
  "same_frame s s' =
     (st_data s' = st_data s \<and> st_config_offset s' = st_config_offset s
      \<and> st_mappings s' = st_mappings s \<and> st_refactors s' = st_refactors s
      \<and> st_ehdr s' = st_ehdr s \<and> st_phdrs s' = st_phdrs s \<and> st_dyn s' = st_dyn s
      \<and> st_entry s' = st_entry s \<and> st_config_size s' = st_config_size s
      \<and> st_config_elf s' = st_config_elf s \<and> st_B_config s' = st_B_config s)"

text \<open>
  The bytes of the entry shim and the loader, for the prologue \<open>pro\<close>, emitted at
  offset \<open>off\<close> of a file whose config record is at \<open>config_offset\<close>.
\<close>

definition entry_shim :: "env \<Rightarrow> byte list \<Rightarrow> nat \<Rightarrow> nat \<Rightarrow> byte list" where
  "entry_shim env pro off config_offset =
     (let trap = (if option_trap_entry env then [0xCC] else []);
          cursor = off + length trap + length pro + 3;
          rel32 = - (word_of_nat (cursor + 4 - config_offset) :: 32 word)
      in trap @ pro @ [0x48, 0x8D, 0x15] @ le32 rel32 @ e9loader_elf_bin env)"

text \<open>
  Entry \<open>k\<close> of the \<open>num\<close> entries of the dynamic section at byte offset \<open>base\<close> is
  the first \<^verbatim>\<open>DT_INIT\<close>: no entry before it is \<^verbatim>\<open>DT_NULL\<close> or \<^verbatim>\<open>DT_INIT\<close>.
\<close>

definition dyn_at :: "nat \<Rightarrow> nat \<Rightarrow> nat" where
  "dyn_at base k = base + k * sizeof_Elf64_Dyn"

definition first_init :: "(nat \<Rightarrow> Elf64_Dyn) \<Rightarrow> nat \<Rightarrow> nat \<Rightarrow> nat \<Rightarrow> bool" where
  "first_init dyn base num k =
     (k < num \<and> d_tag (dyn (dyn_at base k)) = DT_INIT
      \<and> list_all (\<lambda>j. d_tag (dyn (dyn_at base j)) \<noteq> DT_NULL
                       \<and> d_tag (dyn (dyn_at base j)) \<noteq> DT_INIT) [0..<k])"

text \<open>
  The mappings as Step (3) leaves them: the \<^verbatim>\<open>offset\<close> of each is the position in the
  file of its image, the first image at \<open>sz\<close>. The mappings merged into a mapping
  keep their fields.
\<close>

fun placed :: "Mapping list \<Rightarrow> nat \<Rightarrow> Mapping list" where
  "placed [] sz = []"
| "placed (m # ms) sz = set_offset m (int sz) # placed ms (sz + m_size m)"

text \<open>What a successful run of one of the loops does to the state, for the calls \<open>cs\<close>.\<close>

definition emitted :: "env \<Rightarrow> bool \<Rightarrow> map_call list \<Rightarrow> emit_state \<Rightarrow> emit_state \<Rightarrow> bool" where
  "emitted env track cs s s' =
     (same_frame s s' \<and> list_all (call_ok env) cs
      \<and> st_size s' = st_size s + sizeof_e9_map_s * length cs
      \<and> map snd (st_maps s') = map snd (st_maps s) @ map (written_map env) cs
      \<and> st_ub s' = (if track then ub_of env cs (st_ub s) else st_ub s))"

text \<open>
  The invariant of the planner: cluster address, cluster size and the sizes of the
  refactorings are multiples of the page size.
\<close>

definition aligned_plan :: "cluster \<times> Refactor list \<Rightarrow> bool" where
  "aligned_plan cr = (int PAGE_SIZE dvd curr_addr (fst cr) \<and> PAGE_SIZE dvd curr_size (fst cr)
     \<and> (\<forall>r\<in>set (snd cr). PAGE_SIZE dvd r_size r))"

section \<open>Basic facts\<close>

lemma s64_id: "- 9223372036854775808 \<le> x \<Longrightarrow> x < 9223372036854775808 \<Longrightarrow> s64 x = x"
  by (simp add: s64_def)

lemma memcmp_eq_iff: "memcmp_eq a b off n \<longleftrightarrow> (\<forall>i<n. a (off + i) = b (off + i))"
proof
  assume "memcmp_eq a b off n"
  then have eq: "\<forall>x\<in>set [off..<off + n]. a x = b x"
    by (simp add: memcmp_eq_def)
  show "\<forall>i<n. a (off + i) = b (off + i)"
  proof (intro allI impI)
    fix i assume "i < n"
    then have "off + i \<in> set [off..<off + n]" by simp
    with eq show "a (off + i) = b (off + i)" by blast
  qed
next
  assume r: "\<forall>i<n. a (off + i) = b (off + i)"
  have "\<forall>x\<in>set [off..<off + n]. a x = b x"
  proof
    fix x assume "x \<in> set [off..<off + n]"
    then have "x - off < n" and "off + (x - off) = x" by auto
    with r show "a x = b x" by metis
  qed
  then show "memcmp_eq a b off n"
    by (simp add: memcmp_eq_def)
qed

lemmas elf_consts = sizeof_Elf64_Ehdr_def sizeof_Elf64_Phdr_def sizeof_Elf64_Dyn_def
  EI_MAG0_def EI_MAG1_def EI_MAG2_def EI_MAG3_def EI_CLASS_def EI_DATA_def EI_VERSION_def
  ELFMAG0_def ELFMAG1_def ELFMAG2_def ELFMAG3_def ELFCLASS64_def ELFDATA2LSB_def
  EV_CURRENT_def EM_X86_64_def PN_XNUM_def ET_EXEC_def ET_DYN_def PT_LOAD_def PT_DYNAMIC_def
  PT_NOTE_def PT_GNU_STACK_def PT_GNU_RELRO_def PF_X_def PF_R_def DT_NULL_def DT_INIT_def

section \<open>C1: the range checks of emitLoaderMap\<close>

text \<open>
  C1 says that \<^verbatim>\<open>emitLoaderMap\<close> fails when the length in pages is \<open>2 ^ 20\<close> or more
  and that the \<^verbatim>\<open>size\<close> field of the record written is the length in pages, never
  clipped. The source compares the length with \<^verbatim>\<open>1 << 21\<close> and stores
  \<^verbatim>\<open>(uint16_t)len\<close> in the 20-bit field: a mapping of \<open>2 ^ 20\<close> pages is written
  with \<^verbatim>\<open>size\<close> 0 and no error, and one of \<^verbatim>\<open>0x12345\<close> pages with \<^verbatim>\<open>size\<close>
  \<^verbatim>\<open>0x2345\<close>.
\<close>

theorem emitLoaderMap_size_clipped:
  "emitLoaderMap example_env zero_map 0 (2 ^ 20 * PAGE_SIZE) 0 True False True None
     = Inr (sizeof_e9_map_s, zero_map\<lparr>map_size := 0, map_r := True, map_x := True\<rparr>, None)
   \<and> emitLoaderMap example_env zero_map 0 (0x12345 * PAGE_SIZE) 0 True False True None
     = Inr (sizeof_e9_map_s, zero_map\<lparr>map_size := 0x2345, map_r := True, map_x := True\<rparr>, None)"
  by (simp add: emitLoaderMap_def example_env_def PAGE_SIZE_def sizeof_e9_map_s_def
       INT32_MIN_def INT32_MAX_def UINT32_MAX_def s64_def u64_def zero_map_def)

section \<open>C3: ELF type and requested mode in parseElf\<close>

text \<open>The only error of the loop over the program headers is a failed reservation.\<close>

lemma parse_phdrs_error:
  "parse_phdrs phdrs phnum i st = Inl e \<Longrightarrow> e = ReserveRangeFailed"
proof (induction "phnum - i" arbitrary: i st)
  case 0
  then show ?case
    by (cases st) (simp add: parse_phdrs.simps)
next
  case (Suc n)
  obtain rs info where st: "st = (rs, info)" by (cases st)
  have IH: "\<And>st'. parse_phdrs phdrs phnum (Suc i) st' = Inl e \<Longrightarrow> e = ReserveRangeFailed"
    using Suc.hyps(1) [of "Suc i"] Suc.hyps(2) by simp
  from Suc.prems show ?case
    unfolding st
    by (subst (asm) parse_phdrs.simps)
       (auto simp: Let_def split: if_splits prod.splits bool.splits dest: IH)
qed

text \<open>
  C3 as stated fails: an \<^verbatim>\<open>ET_DYN\<close> file in executable mode is not rejected. On the
  example file with type \<^verbatim>\<open>ET_DYN\<close> and mode \<^verbatim>\<open>MODE_ELF_EXE\<close>, \<^verbatim>\<open>parseElf\<close> returns
  \<^verbatim>\<open>pic = true\<close>, with the pointers to \<^verbatim>\<open>PT_NOTE\<close> and \<^verbatim>\<open>PT_DYNAMIC\<close> set and the
  range of the \<^verbatim>\<open>PT_LOAD\<close> segment reserved.
\<close>

theorem parseElf_accepts_ET_DYN_in_exe_mode:
  "B_mode (example_binary MODE_ELF_EXE ET_DYN) = MODE_ELF_EXE
   \<and> e_type (B_ehdr (example_binary MODE_ELF_EXE ET_DYN)) = ET_DYN
   \<and> parseElf example_env (example_binary MODE_ELF_EXE ET_DYN)
       = Inr (True, (example_binary MODE_ELF_EXE ET_DYN)
                \<lparr>B_elf := example_elf_info, B_reserved := [(0, 8192)]\<rparr>)"
  by (simp add: parseElf_def Let_def example_binary_def example_ehdr_def example_phdrs_def
        example_elf_info_def no_elf_info_def reserve_def s64_def elf_consts parse_phdrs.simps)

text \<open>
  C3, amended: \<^verbatim>\<open>parseElf\<close> rejects with a \<open>MalformedInput\<close> error every \<^verbatim>\<open>ET_EXEC\<close>
  file when the requested mode is DSO. An \<^verbatim>\<open>ET_DYN\<close> file in executable mode is
  not rejected for its type: it is taken as a position independent executable
  (\<^verbatim>\<open>pic\<close> and \<^verbatim>\<open>pie\<close> true), so \<^verbatim>\<open>parseElf\<close> reports neither a wrong type nor a
  failed reservation of the low or the negative range, and when it returns, it
  returns \<^verbatim>\<open>pic = true\<close>.
\<close>

theorem parseElf_type_mode:
  "(B_mode B = MODE_ELF_DSO \<and> e_type (B_ehdr B) = ET_EXEC \<longrightarrow>
      (\<exists>e. parseElf env B = Inl e \<and> is_MalformedInput e))
   \<and> (B_mode B = MODE_ELF_EXE \<and> e_type (B_ehdr B) = ET_DYN \<longrightarrow>
        parseElf env B \<notin> {Inl ExecutableNotSharedObject, Inl NotExecutable,
          Inl ReserveLowFailed, Inl ReserveNegativeFailed}
        \<and> (\<forall>pic B'. parseElf env B = Inr (pic, B') \<longrightarrow> pic))"
proof (intro conjI impI)
  assume "B_mode B = MODE_ELF_DSO \<and> e_type (B_ehdr B) = ET_EXEC"
  then show "\<exists>e. parseElf env B = Inl e \<and> is_MalformedInput e"
    by (simp add: parseElf_def Let_def is_MalformedInput_def)
next
  assume "B_mode B = MODE_ELF_EXE \<and> e_type (B_ehdr B) = ET_DYN"
  then show "parseElf env B \<notin> {Inl ExecutableNotSharedObject, Inl NotExecutable,
          Inl ReserveLowFailed, Inl ReserveNegativeFailed}"
    by (auto simp: parseElf_def Let_def ET_EXEC_def ET_DYN_def
          split: sum.splits option.splits if_splits dest: parse_phdrs_error)
next
  assume "B_mode B = MODE_ELF_EXE \<and> e_type (B_ehdr B) = ET_DYN"
  then show "\<forall>pic B'. parseElf env B = Inr (pic, B') \<longrightarrow> pic"
    by (auto simp: parseElf_def Let_def ET_EXEC_def ET_DYN_def
          split: sum.splits option.splits if_splits)
qed

theorem parseElf_type_mode_witness:
  "(\<exists>e. parseElf example_env (example_binary MODE_ELF_DSO ET_EXEC) = Inl e
         \<and> is_MalformedInput e)
   \<and> parseElf example_env (example_binary MODE_ELF_EXE ET_DYN) \<noteq> Inl NotExecutable"
  using parseElf_type_mode [of "example_binary MODE_ELF_DSO ET_EXEC" example_env]
    parseElf_type_mode [of "example_binary MODE_ELF_EXE ET_DYN" example_env]
  by (simp add: example_binary_def example_ehdr_def)

section \<open>The refactoring planner\<close>

subsection \<open>The loop over the pages\<close>

lemma find_refactorings_end:
  "\<not> offset < sz \<Longrightarrow> find_refactorings original data sz M Is offset cr = Inr cr"
  by (subst find_refactorings.simps) simp

lemma find_refactorings_clean:
  "offset < sz \<Longrightarrow> memcmp_eq original data offset PAGE_SIZE \<Longrightarrow>
   find_refactorings original data sz M Is offset cr
     = find_refactorings original data sz M Is (offset + PAGE_SIZE) cr"
  by (subst find_refactorings.simps) simp

lemma find_refactorings_dirty:
  "offset < sz \<Longrightarrow> \<not> memcmp_eq original data offset PAGE_SIZE \<Longrightarrow>
   lower_bound Is (int offset) = Some I \<Longrightarrow>
   page_offset_of I = int offset \<Longrightarrow>
   find_refactorings original data sz M Is offset cr
     = find_refactorings original data sz M Is (offset + PAGE_SIZE)
         (visit_page M (page_addr_of I) (int offset) cr)"
  by (subst find_refactorings.simps) (simp add: Let_def page_addr_of_def page_offset_of_def)

lemma find_refactorings_skip:
  assumes "\<forall>k. offset \<le> k * PAGE_SIZE \<and> k * PAGE_SIZE < offset + n * PAGE_SIZE
             \<longrightarrow> memcmp_eq original data (k * PAGE_SIZE) PAGE_SIZE"
    and "PAGE_SIZE dvd offset" and "offset + n * PAGE_SIZE \<le> sz"
  shows "find_refactorings original data sz M Is offset cr
     = find_refactorings original data sz M Is (offset + n * PAGE_SIZE) cr"
  using assms
proof (induction n arbitrary: offset)
  case 0
  then show ?case by simp
next
  case (Suc n)
  from Suc.prems(2) obtain k where k: "offset = k * PAGE_SIZE"
    by (auto simp: dvd_def mult.commute)
  have clean: "memcmp_eq original data offset PAGE_SIZE"
    using Suc.prems(1) k by (auto simp: PAGE_SIZE_def)
  have lt: "offset < sz" using Suc.prems(3) by (simp add: PAGE_SIZE_def)
  have "find_refactorings original data sz M Is (offset + PAGE_SIZE) cr
     = find_refactorings original data sz M Is (offset + PAGE_SIZE + n * PAGE_SIZE) cr"
  proof (rule Suc.IH)
    show "\<forall>k. offset + PAGE_SIZE \<le> k * PAGE_SIZE \<and> k * PAGE_SIZE < offset + PAGE_SIZE + n * PAGE_SIZE
             \<longrightarrow> memcmp_eq original data (k * PAGE_SIZE) PAGE_SIZE"
      using Suc.prems(1) by (auto simp: PAGE_SIZE_def)
    show "PAGE_SIZE dvd offset + PAGE_SIZE" using Suc.prems(2) by simp
    show "offset + PAGE_SIZE + n * PAGE_SIZE \<le> sz" using Suc.prems(3) by simp
  qed
  moreover have "offset + PAGE_SIZE + n * PAGE_SIZE = offset + Suc n * PAGE_SIZE" by simp
  ultimately show ?case
    using find_refactorings_clean [OF lt clean, of M Is cr] by simp
qed

lemma starts_new_cluster_iff:
  "curr_addr c + int (curr_size c) + int M < 9223372036854775808 \<Longrightarrow>
   (\<not> starts_new_cluster c M page_addr \<longleftrightarrow>
      0 \<le> curr_addr c \<and> curr_addr c \<le> page_addr
      \<and> page_addr \<le> curr_addr c + int (curr_size c) + int M)"
  by (cases "curr_addr c < 0") (auto simp: starts_new_cluster_def s64_id)

lemma page_offset_of_bounds:
  "page_offset_of I \<le> I_offset I \<and> I_offset I < page_offset_of I + int PAGE_SIZE"
  by (simp add: page_offset_of_def PAGE_SIZE_def)

lemma pages_split:
  fixes p :: nat
  assumes "a < b"
  shows "a * p + p + (b - Suc a) * p = b * p"
proof -
  from assms obtain d where "b = Suc (a + d)"
    using less_iff_Suc_add by auto
  then show ?thesis by (simp add: add_mult_distrib)
qed

lemma two_dirty_pages_find:
  assumes t: "two_dirty_pages original data n k1 k2 I1 I2"
  shows "find_refactorings original data (n * PAGE_SIZE) M
           [(I_offset I1, I1), (I_offset I2, I2)] 0 cr
         = Inr (visit_page M (page_addr_of I2) (int (k2 * PAGE_SIZE))
                  (visit_page M (page_addr_of I1) (int (k1 * PAGE_SIZE)) cr))"
proof -
  let ?Is = "[(I_offset I1, I1), (I_offset I2, I2)]"
  let ?f = "find_refactorings original data (n * PAGE_SIZE) M ?Is"
  from t have k: "k1 < k2" "k2 < n"
    and pages: "\<forall>k<n. memcmp_eq original data (k * PAGE_SIZE) PAGE_SIZE = (k \<noteq> k1 \<and> k \<noteq> k2)"
    and o1: "page_offset_of I1 = int (k1 * PAGE_SIZE)"
    and o2: "page_offset_of I2 = int (k2 * PAGE_SIZE)"
    by (auto simp: two_dirty_pages_def list_all_iff)
  have P: "0 < PAGE_SIZE" by (simp add: PAGE_SIZE_def)
  have lb1: "lower_bound ?Is (int (k1 * PAGE_SIZE)) = Some I1"
    using page_offset_of_bounds [of I1] o1 by (simp add: lower_bound_def)
  have "I_offset I1 < int (k1 * PAGE_SIZE) + int PAGE_SIZE"
    using page_offset_of_bounds [of I1] o1 by simp
  also have "\<dots> = int (Suc k1 * PAGE_SIZE)" by simp
  also have "\<dots> \<le> int (k2 * PAGE_SIZE)"
  proof -
    have "Suc k1 * PAGE_SIZE \<le> k2 * PAGE_SIZE"
      using k(1) by (intro mult_le_mono1) simp
    then show ?thesis by (simp only: of_nat_le_iff)
  qed
  finally have "I_offset I1 < int (k2 * PAGE_SIZE)" .
  then have lb2: "lower_bound ?Is (int (k2 * PAGE_SIZE)) = Some I2"
    using page_offset_of_bounds [of I2] o2 by (simp add: lower_bound_def)
  have lt1: "k1 * PAGE_SIZE < n * PAGE_SIZE" and lt2: "k2 * PAGE_SIZE < n * PAGE_SIZE"
    using k P by simp_all
  have s1: "?f 0 cr = ?f (0 + k1 * PAGE_SIZE) cr"
  proof (rule find_refactorings_skip)
    show "\<forall>k. 0 \<le> k * PAGE_SIZE \<and> k * PAGE_SIZE < 0 + k1 * PAGE_SIZE
             \<longrightarrow> memcmp_eq original data (k * PAGE_SIZE) PAGE_SIZE"
      using pages k P by auto
    show "PAGE_SIZE dvd 0" by simp
    show "0 + k1 * PAGE_SIZE \<le> n * PAGE_SIZE" using lt1 by simp
  qed
  have d1: "?f (k1 * PAGE_SIZE) cr
      = ?f (k1 * PAGE_SIZE + PAGE_SIZE) (visit_page M (page_addr_of I1) (int (k1 * PAGE_SIZE)) cr)"
    using pages k by (intro find_refactorings_dirty lt1 lb1 o1) auto
  have s2: "?f (k1 * PAGE_SIZE + PAGE_SIZE) cr'
      = ?f (k1 * PAGE_SIZE + PAGE_SIZE + (k2 - Suc k1) * PAGE_SIZE) cr'" for cr'
  proof (rule find_refactorings_skip)
    show "\<forall>k. k1 * PAGE_SIZE + PAGE_SIZE \<le> k * PAGE_SIZE
              \<and> k * PAGE_SIZE < k1 * PAGE_SIZE + PAGE_SIZE + (k2 - Suc k1) * PAGE_SIZE
             \<longrightarrow> memcmp_eq original data (k * PAGE_SIZE) PAGE_SIZE"
    proof (intro allI impI)
      fix j assume a: "k1 * PAGE_SIZE + PAGE_SIZE \<le> j * PAGE_SIZE
              \<and> j * PAGE_SIZE < k1 * PAGE_SIZE + PAGE_SIZE + (k2 - Suc k1) * PAGE_SIZE"
      then have "Suc k1 * PAGE_SIZE \<le> j * PAGE_SIZE" by simp
      then have j1: "Suc k1 \<le> j" using P by (simp del: mult_Suc)
      have "k1 * PAGE_SIZE + PAGE_SIZE + (k2 - Suc k1) * PAGE_SIZE = k2 * PAGE_SIZE"
        using k(1) by (rule pages_split)
      with a have "j * PAGE_SIZE < k2 * PAGE_SIZE" by simp
      then have j2: "j < k2" using P by simp
      from j1 j2 k pages show "memcmp_eq original data (j * PAGE_SIZE) PAGE_SIZE" by auto
    qed
    show "PAGE_SIZE dvd k1 * PAGE_SIZE + PAGE_SIZE" by simp
    have "k1 * PAGE_SIZE + PAGE_SIZE + (k2 - Suc k1) * PAGE_SIZE = k2 * PAGE_SIZE"
      using k(1) by (rule pages_split)
    then show "k1 * PAGE_SIZE + PAGE_SIZE + (k2 - Suc k1) * PAGE_SIZE \<le> n * PAGE_SIZE"
      using lt2 by simp
  qed
  have e2: "k1 * PAGE_SIZE + PAGE_SIZE + (k2 - Suc k1) * PAGE_SIZE = k2 * PAGE_SIZE"
    using k(1) by (rule pages_split)
  have d2: "?f (k2 * PAGE_SIZE) cr'
      = ?f (k2 * PAGE_SIZE + PAGE_SIZE) (visit_page M (page_addr_of I2) (int (k2 * PAGE_SIZE)) cr')" for cr'
    using pages k by (intro find_refactorings_dirty lt2 lb2 o2) auto
  have s3: "?f (k2 * PAGE_SIZE + PAGE_SIZE) cr'
      = ?f (k2 * PAGE_SIZE + PAGE_SIZE + (n - Suc k2) * PAGE_SIZE) cr'" for cr'
  proof (rule find_refactorings_skip)
    have e3: "k2 * PAGE_SIZE + PAGE_SIZE + (n - Suc k2) * PAGE_SIZE = n * PAGE_SIZE"
      using k(2) by (rule pages_split)
    show "\<forall>k. k2 * PAGE_SIZE + PAGE_SIZE \<le> k * PAGE_SIZE
              \<and> k * PAGE_SIZE < k2 * PAGE_SIZE + PAGE_SIZE + (n - Suc k2) * PAGE_SIZE
             \<longrightarrow> memcmp_eq original data (k * PAGE_SIZE) PAGE_SIZE"
    proof (intro allI impI)
      fix j assume a: "k2 * PAGE_SIZE + PAGE_SIZE \<le> j * PAGE_SIZE
              \<and> j * PAGE_SIZE < k2 * PAGE_SIZE + PAGE_SIZE + (n - Suc k2) * PAGE_SIZE"
      then have "Suc k2 * PAGE_SIZE \<le> j * PAGE_SIZE" by simp
      then have j1: "Suc k2 \<le> j" using P by (simp del: mult_Suc)
      from a e3 have "j * PAGE_SIZE < n * PAGE_SIZE" by simp
      then have j2: "j < n" using P by simp
      from j1 j2 k pages show "memcmp_eq original data (j * PAGE_SIZE) PAGE_SIZE" by auto
    qed
    show "PAGE_SIZE dvd k2 * PAGE_SIZE + PAGE_SIZE" by simp
    show "k2 * PAGE_SIZE + PAGE_SIZE + (n - Suc k2) * PAGE_SIZE \<le> n * PAGE_SIZE"
      using e3 by simp
  qed
  have e3: "k2 * PAGE_SIZE + PAGE_SIZE + (n - Suc k2) * PAGE_SIZE = n * PAGE_SIZE"
    using k(2) by (rule pages_split)
  show ?thesis
    using s1 d1 s2 d2 s3 find_refactorings_end [of "n * PAGE_SIZE" "n * PAGE_SIZE"]
    by (simp add: e2 e3)
qed

lemma visit_page_eq:
  assumes "curr_addr c + int (curr_size c) + int M < 9223372036854775808"
  shows "visit_page M pa po (c, rs) =
     (if 0 \<le> curr_addr c \<and> curr_addr c \<le> pa \<and> pa \<le> curr_addr c + int (curr_size c) + int M
      then (c\<lparr>curr_size := nat (pa + int PAGE_SIZE - curr_addr c)\<rparr>, rs)
      else (\<lparr>curr_addr = pa, curr_offset = po, curr_size = PAGE_SIZE\<rparr>,
            if 0 \<le> curr_addr c
            then rs @ [Refactor_new (curr_addr c) (curr_offset c) (curr_size c)] else rs))"
proof (cases "starts_new_cluster c M pa")
  case True
  with starts_new_cluster_iff [OF assms, of pa] show ?thesis
    by (simp add: visit_page_def)
next
  case False
  with starts_new_cluster_iff [OF assms, of pa]
  have m: "0 \<le> curr_addr c" "curr_addr c \<le> pa" "pa \<le> curr_addr c + int (curr_size c) + int M"
    by simp_all
  have "int (curr_size c) + (pa + int PAGE_SIZE - (curr_addr c + int (curr_size c)))
      = pa + int PAGE_SIZE - curr_addr c" by simp
  moreover have "0 \<le> pa + int PAGE_SIZE - curr_addr c"
    and "pa + int PAGE_SIZE - curr_addr c < 18446744073709551616"
    using m assms by (simp_all add: PAGE_SIZE_def)
  ultimately have "u64 (int (curr_size c) + (pa + int PAGE_SIZE - (curr_addr c + int (curr_size c))))
      = nat (pa + int PAGE_SIZE - curr_addr c)"
    by (simp add: u64_def)
  with False m show ?thesis by (simp add: visit_page_def)
qed

lemma two_dirty_pages_plan:
  assumes dyn: "\<not> option_loader_static env"
    and t: "two_dirty_pages original data n k1 k2 I1 I2"
    and a1: "0 \<le> page_addr_of I1" and a2: "0 \<le> page_addr_of I2"
    and ov: "page_addr_of I1 + int PAGE_SIZE + int M < 9223372036854775808"
  shows "planned (emitRefactoredPatch env original data (n * PAGE_SIZE) M
            [(I_offset I1, I1), (I_offset I2, I2)] [])
     = Inr (if page_addr_of I1 \<le> page_addr_of I2
              \<and> page_addr_of I2 \<le> page_addr_of I1 + int PAGE_SIZE + int M
            then (nat (page_addr_of I2 + int PAGE_SIZE - page_addr_of I1),
                  [\<lparr>r_addr = page_addr_of I1,
                    r_size = nat (page_addr_of I2 + int PAGE_SIZE - page_addr_of I1),
                    r_original_offset = int (k1 * PAGE_SIZE),
                    r_patched_offset = int (n * PAGE_SIZE)\<rparr>])
            else (2 * PAGE_SIZE,
                  [\<lparr>r_addr = page_addr_of I1, r_size = PAGE_SIZE,
                    r_original_offset = int (k1 * PAGE_SIZE),
                    r_patched_offset = int (n * PAGE_SIZE)\<rparr>,
                   \<lparr>r_addr = page_addr_of I2, r_size = PAGE_SIZE,
                    r_original_offset = int (k2 * PAGE_SIZE),
                    r_patched_offset = int (n * PAGE_SIZE + PAGE_SIZE)\<rparr>]))"
proof -
  let ?c0 = "\<lparr>curr_addr = INTPTR_MIN, curr_offset = - 1, curr_size = 0\<rparr>"
  let ?c1 = "\<lparr>curr_addr = page_addr_of I1, curr_offset = int (k1 * PAGE_SIZE),
              curr_size = PAGE_SIZE\<rparr>"
  have v1: "visit_page M (page_addr_of I1) (int (k1 * PAGE_SIZE)) (?c0, []) = (?c1, [])"
    by (simp add: visit_page_def starts_new_cluster_def INTPTR_MIN_def)
  have v2: "visit_page M (page_addr_of I2) (int (k2 * PAGE_SIZE)) (?c1, []) =
     (if page_addr_of I1 \<le> page_addr_of I2
              \<and> page_addr_of I2 \<le> page_addr_of I1 + int PAGE_SIZE + int M
      then (?c1\<lparr>curr_size := nat (page_addr_of I2 + int PAGE_SIZE - page_addr_of I1)\<rparr>, [])
      else (\<lparr>curr_addr = page_addr_of I2, curr_offset = int (k2 * PAGE_SIZE),
              curr_size = PAGE_SIZE\<rparr>,
            [Refactor_new (page_addr_of I1) (int (k1 * PAGE_SIZE)) PAGE_SIZE]))"
    using a1 ov by (subst visit_page_eq) simp_all
  have n0: "n * PAGE_SIZE mod PAGE_SIZE = 0" by simp
  show ?thesis
  proof (cases "page_addr_of I1 \<le> page_addr_of I2
              \<and> page_addr_of I2 \<le> page_addr_of I1 + int PAGE_SIZE + int M")
    case True
    have "find_refactorings original data (n * PAGE_SIZE) M
           [(I_offset I1, I1), (I_offset I2, I2)] 0 (?c0, [])
       = Inr (?c1\<lparr>curr_size := nat (page_addr_of I2 + int PAGE_SIZE - page_addr_of I1)\<rparr>, [])"
      using True by (simp only: two_dirty_pages_find [OF t] v1 v2 if_True simp_thms)
    with True dyn a1 n0 show ?thesis
      by (simp add: planned_def emitRefactoredPatch_def Refactor_new_def Let_def del: mod_mult_self2_is_0)
  next
    case False
    have "find_refactorings original data (n * PAGE_SIZE) M
           [(I_offset I1, I1), (I_offset I2, I2)] 0 (?c0, [])
       = Inr (\<lparr>curr_addr = page_addr_of I2, curr_offset = int (k2 * PAGE_SIZE),
              curr_size = PAGE_SIZE\<rparr>,
            [Refactor_new (page_addr_of I1) (int (k1 * PAGE_SIZE)) PAGE_SIZE])"
      using False by (simp only: two_dirty_pages_find [OF t] v1 v2 if_False simp_thms)
    with False dyn a2 n0 show ?thesis
      by (simp add: planned_def emitRefactoredPatch_def Refactor_new_def Let_def del: mod_mult_self2_is_0)
  qed
qed

lemma patch_at_page:
  "memcmp_eq zero_bytes (patch_at xs) (k * PAGE_SIZE) PAGE_SIZE
     \<longleftrightarrow> k \<notin> (\<lambda>x. x div PAGE_SIZE) ` set xs"
proof -
  have P: "0 < PAGE_SIZE" by (simp add: PAGE_SIZE_def)
  have "(\<exists>i<PAGE_SIZE. k * PAGE_SIZE + i \<in> set xs) \<longleftrightarrow> (\<exists>x\<in>set xs. x div PAGE_SIZE = k)"
  proof
    assume "\<exists>i<PAGE_SIZE. k * PAGE_SIZE + i \<in> set xs"
    then obtain i where i: "i < PAGE_SIZE" "k * PAGE_SIZE + i \<in> set xs" by blast
    from i(1) have "(k * PAGE_SIZE + i) div PAGE_SIZE = k" by simp
    with i(2) show "\<exists>x\<in>set xs. x div PAGE_SIZE = k" by blast
  next
    assume "\<exists>x\<in>set xs. x div PAGE_SIZE = k"
    then obtain x where x: "x \<in> set xs" "x div PAGE_SIZE = k" by blast
    have "k * PAGE_SIZE + x mod PAGE_SIZE = x"
      using x(2) div_mult_mod_eq [of x PAGE_SIZE] by simp
    moreover have "x mod PAGE_SIZE < PAGE_SIZE" using P by simp
    ultimately show "\<exists>i<PAGE_SIZE. k * PAGE_SIZE + i \<in> set xs" using x(1) by metis
  qed
  then show ?thesis
    by (auto simp: memcmp_eq_iff zero_bytes_def patch_at_def)
qed

lemma two_dirty_pages_patch_at:
  assumes "x1 div PAGE_SIZE = k1" "x2 div PAGE_SIZE = k2" "k1 < k2" "k2 < n"
    and "page_offset_of I1 = int (k1 * PAGE_SIZE)" "page_offset_of I2 = int (k2 * PAGE_SIZE)"
  shows "two_dirty_pages zero_bytes (patch_at [x1, x2]) n k1 k2 I1 I2"
  using assms by (auto simp: two_dirty_pages_def list_all_iff patch_at_page)

section \<open>C5: when a page joins the current cluster\<close>

text \<open>
  C5 as stated fails in its first consequence. The pages of the two instructions
  below are at \<^verbatim>\<open>A = 0x401000\<close> and at \<^verbatim>\<open>A + mapping_size + PAGE_SIZE\<close> with
  \<^verbatim>\<open>mapping_size = 0x10000\<close>; they are the only pages of the 18-page file that
  differ. The second page is within \<^verbatim>\<open>curr_addr + curr_size + mapping_size\<close> of
  the cluster of the first, so the plan is one refactoring of \<^verbatim>\<open>0x12000\<close> bytes, not
  two.
\<close>

theorem adjacent_budget_pages_merge:
  "page_addr_of \<lparr>I_addr = 0x412040, I_offset = 0x11040\<rparr>
     = page_addr_of \<lparr>I_addr = 0x401040, I_offset = 0x40\<rparr> + 0x10000 + int PAGE_SIZE
   \<and> planned (emitRefactoredPatch example_env zero_bytes (patch_at [0x40, 0x11040])
        (18 * PAGE_SIZE) 0x10000
        [(0x40, \<lparr>I_addr = 0x401040, I_offset = 0x40\<rparr>),
         (0x11040, \<lparr>I_addr = 0x412040, I_offset = 0x11040\<rparr>)] [])
     = Inr (0x12000,
            [\<lparr>r_addr = 0x401000, r_size = 0x12000, r_original_offset = 0,
              r_patched_offset = 0x12000\<rparr>])"
proof -
  let ?I1 = "\<lparr>I_addr = 0x401040, I_offset = 0x40\<rparr>"
  let ?I2 = "\<lparr>I_addr = 0x412040, I_offset = 0x11040\<rparr>"
  have t: "two_dirty_pages zero_bytes (patch_at [0x40, 0x11040]) 18 0 17 ?I1 ?I2"
    by (rule two_dirty_pages_patch_at) (simp_all add: PAGE_SIZE_def page_offset_of_def)
  have "\<not> option_loader_static example_env" by (simp add: example_env_def)
  from two_dirty_pages_plan [OF this t, of "0x10000"] show ?thesis
    by (simp add: page_addr_of_def PAGE_SIZE_def)
qed

text \<open>
  C5, amended. As long as \<^verbatim>\<open>curr_addr + curr_size + mapping_size\<close> does not
  overflow \<^verbatim>\<open>intptr_t\<close>, a dirty page at \<open>pa\<close> joins the current cluster iff a
  cluster is open (\<open>0 \<le> curr_addr\<close>), \<open>curr_addr \<le> pa\<close> and
  \<open>pa \<le> curr_addr + curr_size + mapping_size\<close>; joining sets \<^verbatim>\<open>curr_size\<close> to
  \<open>pa + PAGE_SIZE - curr_addr\<close>; otherwise the open cluster is flushed and a new one
  of one page starts at the page. Consequently, for a file in which exactly two
  pages differ, at page addresses \<open>A\<close> and \<open>A2\<close>: \<open>A2 = A + mapping_size + 2 * PAGE_SIZE\<close>
  gives two refactorings of one page each; \<open>A2 = A + mapping_size + PAGE_SIZE\<close>
  gives one refactoring of size \<open>mapping_size + 2 * PAGE_SIZE\<close>; and
  \<open>A2 = A + mapping_size - PAGE_SIZE\<close> gives one refactoring of size \<open>mapping_size\<close>.
\<close>

theorem refactor_clustering:
  "(curr_addr c + int (curr_size c) + int M < 9223372036854775808 \<longrightarrow>
      (\<not> starts_new_cluster c M pa \<longleftrightarrow>
         0 \<le> curr_addr c \<and> curr_addr c \<le> pa \<and> pa \<le> curr_addr c + int (curr_size c) + int M)
      \<and> visit_page M pa po (c, rs) =
         (if \<not> starts_new_cluster c M pa
          then (c\<lparr>curr_size := nat (pa + int PAGE_SIZE - curr_addr c)\<rparr>, rs)
          else (\<lparr>curr_addr = pa, curr_offset = po, curr_size = PAGE_SIZE\<rparr>,
                if 0 \<le> curr_addr c
                then rs @ [Refactor_new (curr_addr c) (curr_offset c) (curr_size c)] else rs)))
   \<and> (\<not> option_loader_static env \<and> two_dirty_pages original data n k1 k2 I1 I2
       \<and> 0 \<le> page_addr_of I1
       \<and> page_addr_of I1 + int M + 3 * int PAGE_SIZE < 9223372036854775808 \<longrightarrow>
        (page_addr_of I2 = page_addr_of I1 + int M + 2 * int PAGE_SIZE \<longrightarrow>
           planned (emitRefactoredPatch env original data (n * PAGE_SIZE) M
              [(I_offset I1, I1), (I_offset I2, I2)] [])
           = Inr (2 * PAGE_SIZE,
                  [\<lparr>r_addr = page_addr_of I1, r_size = PAGE_SIZE,
                    r_original_offset = int (k1 * PAGE_SIZE),
                    r_patched_offset = int (n * PAGE_SIZE)\<rparr>,
                   \<lparr>r_addr = page_addr_of I2, r_size = PAGE_SIZE,
                    r_original_offset = int (k2 * PAGE_SIZE),
                    r_patched_offset = int (n * PAGE_SIZE + PAGE_SIZE)\<rparr>]))
      \<and> (page_addr_of I2 = page_addr_of I1 + int M + int PAGE_SIZE \<longrightarrow>
           planned (emitRefactoredPatch env original data (n * PAGE_SIZE) M
              [(I_offset I1, I1), (I_offset I2, I2)] [])
           = Inr (M + 2 * PAGE_SIZE,
                  [\<lparr>r_addr = page_addr_of I1, r_size = M + 2 * PAGE_SIZE,
                    r_original_offset = int (k1 * PAGE_SIZE),
                    r_patched_offset = int (n * PAGE_SIZE)\<rparr>]))
      \<and> (PAGE_SIZE \<le> M \<and> page_addr_of I2 = page_addr_of I1 + int M - int PAGE_SIZE \<longrightarrow>
           planned (emitRefactoredPatch env original data (n * PAGE_SIZE) M
              [(I_offset I1, I1), (I_offset I2, I2)] [])
           = Inr (M,
                  [\<lparr>r_addr = page_addr_of I1, r_size = M,
                    r_original_offset = int (k1 * PAGE_SIZE),
                    r_patched_offset = int (n * PAGE_SIZE)\<rparr>])))"
proof (intro conjI impI)
  assume ov: "curr_addr c + int (curr_size c) + int M < 9223372036854775808"
  show iff: "(\<not> starts_new_cluster c M pa) =
     (0 \<le> curr_addr c \<and> curr_addr c \<le> pa \<and> pa \<le> curr_addr c + int (curr_size c) + int M)"
    by (rule starts_new_cluster_iff [OF ov])
  show "visit_page M pa po (c, rs) =
         (if \<not> starts_new_cluster c M pa
          then (c\<lparr>curr_size := nat (pa + int PAGE_SIZE - curr_addr c)\<rparr>, rs)
          else (\<lparr>curr_addr = pa, curr_offset = po, curr_size = PAGE_SIZE\<rparr>,
                if 0 \<le> curr_addr c
                then rs @ [Refactor_new (curr_addr c) (curr_offset c) (curr_size c)] else rs))"
    unfolding iff by (rule visit_page_eq [OF ov])
next
  assume h: "\<not> option_loader_static env \<and> two_dirty_pages original data n k1 k2 I1 I2
       \<and> 0 \<le> page_addr_of I1
       \<and> page_addr_of I1 + int M + 3 * int PAGE_SIZE < 9223372036854775808"
    and e: "page_addr_of I2 = page_addr_of I1 + int M + 2 * int PAGE_SIZE"
  from h have dyn: "\<not> option_loader_static env"
    and t: "two_dirty_pages original data n k1 k2 I1 I2"
    and a1: "0 \<le> page_addr_of I1" by simp_all
  from h e have ov: "page_addr_of I1 + int PAGE_SIZE + int M < 9223372036854775808"
    and a2: "0 \<le> page_addr_of I2" by simp_all
  from two_dirty_pages_plan [OF dyn t a1 a2 ov] e
  show "planned (emitRefactoredPatch env original data (n * PAGE_SIZE) M
              [(I_offset I1, I1), (I_offset I2, I2)] [])
           = Inr (2 * PAGE_SIZE,
                  [\<lparr>r_addr = page_addr_of I1, r_size = PAGE_SIZE,
                    r_original_offset = int (k1 * PAGE_SIZE),
                    r_patched_offset = int (n * PAGE_SIZE)\<rparr>,
                   \<lparr>r_addr = page_addr_of I2, r_size = PAGE_SIZE,
                    r_original_offset = int (k2 * PAGE_SIZE),
                    r_patched_offset = int (n * PAGE_SIZE + PAGE_SIZE)\<rparr>])"
    by (simp add: PAGE_SIZE_def)
next
  assume h: "\<not> option_loader_static env \<and> two_dirty_pages original data n k1 k2 I1 I2
       \<and> 0 \<le> page_addr_of I1
       \<and> page_addr_of I1 + int M + 3 * int PAGE_SIZE < 9223372036854775808"
    and e: "page_addr_of I2 = page_addr_of I1 + int M + int PAGE_SIZE"
  from h have dyn: "\<not> option_loader_static env"
    and t: "two_dirty_pages original data n k1 k2 I1 I2"
    and a1: "0 \<le> page_addr_of I1" by simp_all
  from h e have ov: "page_addr_of I1 + int PAGE_SIZE + int M < 9223372036854775808"
    and a2: "0 \<le> page_addr_of I2" by simp_all
  have sz: "nat (page_addr_of I2 + int PAGE_SIZE - page_addr_of I1) = M + 2 * PAGE_SIZE"
    using e by simp
  from two_dirty_pages_plan [OF dyn t a1 a2 ov] e
  show "planned (emitRefactoredPatch env original data (n * PAGE_SIZE) M
              [(I_offset I1, I1), (I_offset I2, I2)] [])
           = Inr (M + 2 * PAGE_SIZE,
                  [\<lparr>r_addr = page_addr_of I1, r_size = M + 2 * PAGE_SIZE,
                    r_original_offset = int (k1 * PAGE_SIZE),
                    r_patched_offset = int (n * PAGE_SIZE)\<rparr>])"
    unfolding sz by simp
next
  assume h: "\<not> option_loader_static env \<and> two_dirty_pages original data n k1 k2 I1 I2
       \<and> 0 \<le> page_addr_of I1
       \<and> page_addr_of I1 + int M + 3 * int PAGE_SIZE < 9223372036854775808"
    and e: "PAGE_SIZE \<le> M \<and> page_addr_of I2 = page_addr_of I1 + int M - int PAGE_SIZE"
  from h have dyn: "\<not> option_loader_static env"
    and t: "two_dirty_pages original data n k1 k2 I1 I2"
    and a1: "0 \<le> page_addr_of I1" by simp_all
  from h e have ov: "page_addr_of I1 + int PAGE_SIZE + int M < 9223372036854775808"
    and a2: "0 \<le> page_addr_of I2" by simp_all
  have sz: "nat (page_addr_of I2 + int PAGE_SIZE - page_addr_of I1) = M"
    using e by simp
  from two_dirty_pages_plan [OF dyn t a1 a2 ov] e
  show "planned (emitRefactoredPatch env original data (n * PAGE_SIZE) M
              [(I_offset I1, I1), (I_offset I2, I2)] [])
           = Inr (M,
                  [\<lparr>r_addr = page_addr_of I1, r_size = M,
                    r_original_offset = int (k1 * PAGE_SIZE),
                    r_patched_offset = int (n * PAGE_SIZE)\<rparr>])"
    unfolding sz by simp
qed

theorem refactor_clustering_witness:
  "\<not> starts_new_cluster \<lparr>curr_addr = 0x401000, curr_offset = 0, curr_size = 4096\<rparr>
       0x10000 0x412000
   \<and> planned (emitRefactoredPatch example_env zero_bytes (patch_at [0x40, 0x12040])
        (19 * PAGE_SIZE) 0x10000
        [(0x40, \<lparr>I_addr = 0x401040, I_offset = 0x40\<rparr>),
         (0x12040, \<lparr>I_addr = 0x413040, I_offset = 0x12040\<rparr>)] [])
     = Inr (0x2000,
            [\<lparr>r_addr = 0x401000, r_size = 0x1000, r_original_offset = 0,
              r_patched_offset = 0x13000\<rparr>,
             \<lparr>r_addr = 0x413000, r_size = 0x1000, r_original_offset = 0x12000,
              r_patched_offset = 0x14000\<rparr>])
   \<and> planned (emitRefactoredPatch example_env zero_bytes (patch_at [0x40, 0xf040])
        (16 * PAGE_SIZE) 0x10000
        [(0x40, \<lparr>I_addr = 0x401040, I_offset = 0x40\<rparr>),
         (0xf040, \<lparr>I_addr = 0x410040, I_offset = 0xf040\<rparr>)] [])
     = Inr (0x10000,
            [\<lparr>r_addr = 0x401000, r_size = 0x10000, r_original_offset = 0,
              r_patched_offset = 0x10000\<rparr>])"
proof -
  let ?I1 = "\<lparr>I_addr = 0x401040, I_offset = 0x40\<rparr>"
  let ?I2 = "\<lparr>I_addr = 0x413040, I_offset = 0x12040\<rparr>"
  let ?I3 = "\<lparr>I_addr = 0x410040, I_offset = 0xf040\<rparr>"
  have t2: "two_dirty_pages zero_bytes (patch_at [0x40, 0x12040]) 19 0 18 ?I1 ?I2"
    by (rule two_dirty_pages_patch_at) (simp_all add: PAGE_SIZE_def page_offset_of_def)
  have t3: "two_dirty_pages zero_bytes (patch_at [0x40, 0xf040]) 16 0 15 ?I1 ?I3"
    by (rule two_dirty_pages_patch_at) (simp_all add: PAGE_SIZE_def page_offset_of_def)
  have d: "\<not> option_loader_static example_env" by (simp add: example_env_def)
  have w1: "\<not> starts_new_cluster \<lparr>curr_addr = 0x401000, curr_offset = 0, curr_size = 4096\<rparr>
       0x10000 0x412000"
    using refactor_clustering [of "\<lparr>curr_addr = 0x401000, curr_offset = 0, curr_size = 4096\<rparr>"
        "0x10000" "0x412000" 0 "[]" example_env zero_bytes "patch_at [0x40, 0x12040]"
        19 0 18 ?I1 ?I2]
    by simp
  have w2: "planned (emitRefactoredPatch example_env zero_bytes (patch_at [0x40, 0x12040])
        (19 * PAGE_SIZE) 0x10000 [(0x40, ?I1), (0x12040, ?I2)] [])
     = Inr (0x2000,
            [\<lparr>r_addr = 0x401000, r_size = 0x1000, r_original_offset = 0,
              r_patched_offset = 0x13000\<rparr>,
             \<lparr>r_addr = 0x413000, r_size = 0x1000, r_original_offset = 0x12000,
              r_patched_offset = 0x14000\<rparr>])"
    using refactor_clustering [of "\<lparr>curr_addr = 0x401000, curr_offset = 0, curr_size = 4096\<rparr>"
        "0x10000" "0x412000" 0 "[]" example_env zero_bytes "patch_at [0x40, 0x12040]"
        19 0 18 ?I1 ?I2] t2 d
    by (simp add: page_addr_of_def PAGE_SIZE_def)
  have w3: "planned (emitRefactoredPatch example_env zero_bytes (patch_at [0x40, 0xf040])
        (16 * PAGE_SIZE) 0x10000 [(0x40, ?I1), (0xf040, ?I3)] [])
     = Inr (0x10000,
            [\<lparr>r_addr = 0x401000, r_size = 0x10000, r_original_offset = 0,
              r_patched_offset = 0x10000\<rparr>])"
    using refactor_clustering [of "\<lparr>curr_addr = 0x401000, curr_offset = 0, curr_size = 4096\<rparr>"
        "0x10000" "0x412000" 0 "[]" example_env zero_bytes "patch_at [0x40, 0xf040]"
        16 0 15 ?I1 ?I3] t3 d
    by (simp add: page_addr_of_def PAGE_SIZE_def)
  from w1 w2 w3 show ?thesis by blast
qed

section \<open>C4: the patched copies and the restored originals\<close>

subsection \<open>The loop over the refactorings\<close>

lemma write_refactors_shape:
  "write_refactors original data sz rs = (data', sz', rs') \<Longrightarrow>
   sz' = sz + sum_list (map r_size rs) \<and> length rs' = length rs
   \<and> (\<forall>k<length rs. rs' ! k
         = (rs ! k)\<lparr>r_patched_offset := int (sz + sum_list (map r_size (take k rs)))\<rparr>)"
proof (induction rs arbitrary: data sz data' sz' rs')
  case Nil
  then show ?case by simp
next
  case (Cons r rs)
  let ?d = "memcpy (memcpy data sz data (nat (r_original_offset r)) (r_size r))
              (nat (r_original_offset r)) original (nat (r_original_offset r)) (r_size r)"
  obtain d s t where w: "write_refactors original ?d (sz + r_size r) rs = (d, s, t)"
    by (cases "write_refactors original ?d (sz + r_size r) rs") auto
  from Cons.prems w have e: "data' = d" "sz' = s" "rs' = r\<lparr>r_patched_offset := int sz\<rparr> # t"
    by (simp_all add: Let_def)
  from Cons.IH [OF w] have ih: "s = sz + r_size r + sum_list (map r_size rs)"
    "length t = length rs"
    "\<forall>k<length rs. t ! k
       = (rs ! k)\<lparr>r_patched_offset := int (sz + r_size r + sum_list (map r_size (take k rs)))\<rparr>"
    by simp_all
  show ?case
  proof (intro conjI allI impI)
    show "sz' = sz + sum_list (map r_size (r # rs))" using e ih by simp
    show "length rs' = length (r # rs)" using e ih by simp
    fix k assume "k < length (r # rs)"
    then show "rs' ! k = ((r # rs) ! k)
        \<lparr>r_patched_offset := int (sz + sum_list (map r_size (take k (r # rs))))\<rparr>"
      using e ih by (cases k) (simp_all add: add.assoc)
  qed
qed

lemma write_refactors_mem:
  assumes "write_refactors original data sz rs = (data', sz', rs')"
    and "ranges_in_file sz rs"
  shows "(a < sz \<and> (\<forall>r\<in>set rs. \<not> in_range r a) \<longrightarrow> data' a = data a)
       \<and> ((\<exists>r\<in>set rs. in_range r a) \<longrightarrow> data' a = original a)"
  using assms
proof (induction rs arbitrary: data sz data' sz' rs')
  case Nil
  then show ?case by simp
next
  case (Cons r rs)
  let ?o = "nat (r_original_offset r)"
  let ?d1 = "memcpy data sz data ?o (r_size r)"
  let ?d = "memcpy ?d1 ?o original ?o (r_size r)"
  obtain d s t where w: "write_refactors original ?d (sz + r_size r) rs = (d, s, t)"
    by (cases "write_refactors original ?d (sz + r_size r) rs") auto
  from Cons.prems(1) w have e: "data' = d" by (simp add: Let_def)
  from Cons.prems(2) have inr: "?o + r_size r \<le> sz" and inrs: "ranges_in_file sz rs"
    by (simp_all add: ranges_in_file_def)
  from inrs have inrs': "ranges_in_file (sz + r_size r) rs"
    by (auto simp: ranges_in_file_def list_all_iff)
  note ih = Cons.IH [OF w inrs']
  show ?case
  proof (intro conjI impI)
    assume a: "a < sz \<and> (\<forall>r\<in>set (r # rs). \<not> in_range r a)"
    then have "d a = ?d a" using ih by simp
    also have "\<dots> = data a" using a by (auto simp: memcpy_def in_range_def)
    finally show "data' a = data a" using e by simp
  next
    assume a: "\<exists>r\<in>set (r # rs). in_range r a"
    show "data' a = original a"
    proof (cases "\<exists>r\<in>set rs. in_range r a")
      case True
      with ih e show ?thesis by simp
    next
      case False
      with a have ra: "in_range r a" by simp
      then have "a < sz + r_size r" using inr by (simp add: in_range_def)
      with False ih have "d a = ?d a" by simp
      also have "\<dots> = original a" using ra by (simp add: memcpy_def in_range_def)
      finally show ?thesis using e by simp
    qed
  qed
qed

lemma write_refactors_copy:
  assumes "write_refactors original data sz rs = (data', sz', rs')"
    and "ranges_in_file sz0 rs" and "sz0 \<le> sz" and "ranges_disjoint rs"
    and "k < length rs" and "i < r_size (rs ! k)"
  shows "data' (sz + sum_list (map r_size (take k rs)) + i)
           = data (nat (r_original_offset (rs ! k)) + i)"
  using assms
proof (induction rs arbitrary: data sz data' sz' rs' k)
  case Nil
  then show ?case by simp
next
  case (Cons r rs)
  let ?o = "nat (r_original_offset r)"
  let ?d1 = "memcpy data sz data ?o (r_size r)"
  let ?d = "memcpy ?d1 ?o original ?o (r_size r)"
  obtain d s t where w: "write_refactors original ?d (sz + r_size r) rs = (d, s, t)"
    by (cases "write_refactors original ?d (sz + r_size r) rs") auto
  from Cons.prems(1) w have e: "data' = d" by (simp add: Let_def)
  from Cons.prems(2) have inr: "?o + r_size r \<le> sz0" and inrs: "ranges_in_file sz0 rs"
    by (simp_all add: ranges_in_file_def)
  from inrs Cons.prems(3) have inrs': "ranges_in_file (sz + r_size r) rs"
    by (auto simp: ranges_in_file_def list_all_iff)
  from Cons.prems(4) have dis: "ranges_disjoint rs"
    and dr: "\<forall>r'\<in>set rs. ?o + r_size r \<le> nat (r_original_offset r')
                     \<or> nat (r_original_offset r') + r_size r' \<le> ?o"
    by (simp_all add: list_all_iff)
  show ?case
  proof (cases k)
    case 0
    have lt: "sz + i < sz + r_size r" using Cons.prems(6) 0 by simp
    have "\<forall>r'\<in>set rs. \<not> in_range r' (sz + i)"
      using inrs Cons.prems(3) by (auto simp: ranges_in_file_def list_all_iff in_range_def)
    with write_refactors_mem [OF w inrs', of "sz + i"] lt have "d (sz + i) = ?d (sz + i)"
      by simp
    also have "\<dots> = data (?o + i)"
      using inr Cons.prems(3) Cons.prems(6) 0 by (simp add: memcpy_def)
    finally show ?thesis using e 0 by simp
  next
    case (Suc j)
    have j: "j < length rs" "i < r_size (rs ! j)" using Cons.prems(5,6) Suc by simp_all
    have "d (sz + r_size r + sum_list (map r_size (take j rs)) + i)
        = ?d (nat (r_original_offset (rs ! j)) + i)"
      using Cons.IH [OF w inrs _ dis j] Cons.prems(3) by simp
    also have "\<dots> = data (nat (r_original_offset (rs ! j)) + i)"
    proof -
      have m: "rs ! j \<in> set rs" using j(1) by simp
      with inrs have "nat (r_original_offset (rs ! j)) + r_size (rs ! j) \<le> sz0"
        by (auto simp: ranges_in_file_def list_all_iff)
      with j(2) Cons.prems(3) have lt: "nat (r_original_offset (rs ! j)) + i < sz" by simp
      from dr m j(2) have "\<not> (?o \<le> nat (r_original_offset (rs ! j)) + i
                \<and> nat (r_original_offset (rs ! j)) + i < ?o + r_size r)"
        by fastforce
      with lt show ?thesis by (auto simp: memcpy_def)
    qed
    finally show ?thesis using e Suc by (simp add: add.assoc)
  qed
qed

lemma ranges_in_file_cong:
  assumes "length a = length b"
    and "\<forall>k<length a. r_size (a ! k) = r_size (b ! k)
           \<and> r_original_offset (a ! k) = r_original_offset (b ! k)"
  shows "ranges_in_file sz a = ranges_in_file sz b"
  using assms by (simp add: ranges_in_file_def list_all_length)

lemma ranges_disjoint_cong:
  assumes "length a = length b"
    and "\<forall>k<length a. r_size (a ! k) = r_size (b ! k)
           \<and> r_original_offset (a ! k) = r_original_offset (b ! k)"
  shows "ranges_disjoint a = ranges_disjoint b"
  using assms
proof (induction a b rule: list_induct2)
  case Nil
  then show ?case by simp
next
  case (Cons x xs y ys)
  from Cons.prems have h: "r_size x = r_size y" "r_original_offset x = r_original_offset y"
    by auto
  from Cons.prems have t: "\<forall>k<length xs. r_size (xs ! k) = r_size (ys ! k)
           \<and> r_original_offset (xs ! k) = r_original_offset (ys ! k)"
    by fastforce
  with Cons.IH have "ranges_disjoint xs = ranges_disjoint ys" by simp
  with h t Cons.hyps show ?case
    by (simp add: list_all_length)
qed

lemma write_refactors_round_trip:
  assumes w: "write_refactors original data sz rs = (data', sz', rs')"
    and inf: "ranges_in_file sz rs'" and dis: "ranges_disjoint rs'"
  shows "sz' - sz = sum_list (map r_size rs')
    \<and> (\<forall>k<length rs'.
          r_patched_offset (rs' ! k) = int (sz + sum_list (map r_size (take k rs')))
          \<and> (\<forall>i<r_size (rs' ! k).
                data' (nat (r_original_offset (rs' ! k)) + i)
                  = original (nat (r_original_offset (rs' ! k)) + i))
          \<and> (\<forall>i<r_size (rs' ! k).
                data' (nat (r_patched_offset (rs' ! k)) + i)
                  = data (nat (r_original_offset (rs' ! k)) + i)))"
proof -
  from write_refactors_shape [OF w]
  have sz': "sz' = sz + sum_list (map r_size rs)" and len: "length rs' = length rs"
    and nth: "\<forall>k<length rs. rs' ! k
         = (rs ! k)\<lparr>r_patched_offset := int (sz + sum_list (map r_size (take k rs)))\<rparr>"
    by simp_all
  have same: "\<forall>k<length rs'. r_size (rs' ! k) = r_size (rs ! k)
           \<and> r_original_offset (rs' ! k) = r_original_offset (rs ! k)"
    using len nth by simp
  have sizes: "map r_size rs' = map r_size rs"
    using len same by (intro nth_equalityI) simp_all
  have inf0: "ranges_in_file sz rs"
    using ranges_in_file_cong [OF len same] inf by simp
  have dis0: "ranges_disjoint rs"
    using ranges_disjoint_cong [OF len same] dis by simp
  show ?thesis
  proof (intro conjI allI impI)
    show "sz' - sz = sum_list (map r_size rs')" using sz' sizes by simp
  next
    fix k assume k: "k < length rs'"
    have "take k (map r_size rs') = take k (map r_size rs)" using sizes by simp
    then have tk: "map r_size (take k rs') = map r_size (take k rs)" by (simp add: take_map)
    show po: "r_patched_offset (rs' ! k) = int (sz + sum_list (map r_size (take k rs')))"
      using k len nth tk by simp
    {
      fix i assume i: "i < r_size (rs' ! k)"
      have m: "rs ! k \<in> set rs" using k len by simp
      have "in_range (rs ! k) (nat (r_original_offset (rs ! k)) + i)"
        using i same k by (simp add: in_range_def)
      with write_refactors_mem [OF w inf0, of "nat (r_original_offset (rs ! k)) + i"] m
      have "data' (nat (r_original_offset (rs ! k)) + i)
              = original (nat (r_original_offset (rs ! k)) + i)" by blast
      then show "data' (nat (r_original_offset (rs' ! k)) + i)
                  = original (nat (r_original_offset (rs' ! k)) + i)"
        using same k by simp
    next
      fix i assume i: "i < r_size (rs' ! k)"
      have "data' (sz + sum_list (map r_size (take k rs)) + i)
           = data (nat (r_original_offset (rs ! k)) + i)"
        using write_refactors_copy [OF w inf0 _ dis0, of k i] k len i same by simp
      then show "data' (nat (r_patched_offset (rs' ! k)) + i)
                  = data (nat (r_original_offset (rs' ! k)) + i)"
        using po tk same k by (simp add: nat_int_add)
    }
  qed
qed

lemma planned_Inr:
  "planned res = Inr (n, rs) \<Longrightarrow> \<exists>d. res = Inr (n, d, rs) \<and> result_bytes res = d"
  by (auto simp: planned_def result_bytes_def split: sum.splits)

lemma three_dirty_pages_found:
  "find_refactorings zero_bytes (patch_at [0x40, 0x1040, 0x2040]) (3 * PAGE_SIZE) 0x10000
     [(0x40, \<lparr>I_addr = 0x401040, I_offset = 0x40\<rparr>),
      (0x1040, \<lparr>I_addr = 0x403040, I_offset = 0x1040\<rparr>),
      (0x2040, \<lparr>I_addr = 0x3f0040, I_offset = 0x2040\<rparr>)] 0
     (\<lparr>curr_addr = INTPTR_MIN, curr_offset = - 1, curr_size = 0\<rparr>, [])
   = Inr (\<lparr>curr_addr = 0x3f0000, curr_offset = 0x2000, curr_size = 0x1000\<rparr>,
          [\<lparr>r_addr = 0x401000, r_size = 0x3000, r_original_offset = 0,
            r_patched_offset = 0\<rparr>])"
proof -
  let ?I1 = "\<lparr>I_addr = 0x401040, I_offset = 0x40\<rparr>"
  let ?I2 = "\<lparr>I_addr = 0x403040, I_offset = 0x1040\<rparr>"
  let ?I3 = "\<lparr>I_addr = 0x3f0040, I_offset = 0x2040\<rparr>"
  let ?Is = "[(0x40, ?I1), (0x1040, ?I2), (0x2040, ?I3)]"
  let ?f = "find_refactorings zero_bytes (patch_at [0x40, 0x1040, 0x2040]) (3 * PAGE_SIZE)
              0x10000 ?Is"
  let ?c0 = "\<lparr>curr_addr = INTPTR_MIN, curr_offset = - 1, curr_size = 0\<rparr>"
  let ?c1 = "\<lparr>curr_addr = 0x401000, curr_offset = 0, curr_size = 0x1000\<rparr>"
  let ?c2 = "\<lparr>curr_addr = 0x401000, curr_offset = 0, curr_size = 0x3000\<rparr>"
  let ?c3 = "\<lparr>curr_addr = 0x3f0000, curr_offset = 0x2000, curr_size = 0x1000\<rparr>"
  let ?r1 = "\<lparr>r_addr = 0x401000, r_size = 0x3000, r_original_offset = 0,
            r_patched_offset = 0\<rparr>"
  have dirty: "\<not> memcmp_eq zero_bytes (patch_at [0x40, 0x1040, 0x2040]) x PAGE_SIZE"
    if "x = 0 \<or> x = 0 + PAGE_SIZE \<or> x = 0 + PAGE_SIZE + PAGE_SIZE" for x
  proof -
    from that obtain k where k: "x = k * PAGE_SIZE" "k = 0 \<or> k = 1 \<or> k = 2"
      by (auto simp: PAGE_SIZE_def)
    then have "k \<in> (\<lambda>x. x div PAGE_SIZE) ` set [0x40, 0x1040, 0x2040]"
      by (auto simp: PAGE_SIZE_def)
    then show ?thesis unfolding k(1) by (simp only: patch_at_page simp_thms)
  qed
  have d0: "\<not> memcmp_eq zero_bytes (patch_at [0x40, 0x1040, 0x2040]) 0 PAGE_SIZE"
    and d1: "\<not> memcmp_eq zero_bytes (patch_at [0x40, 0x1040, 0x2040]) (0 + PAGE_SIZE) PAGE_SIZE"
    and d2: "\<not> memcmp_eq zero_bytes (patch_at [0x40, 0x1040, 0x2040])
               (0 + PAGE_SIZE + PAGE_SIZE) PAGE_SIZE"
    by (rule dirty, simp)+
  have s0: "?f 0 (?c0, []) = ?f (0 + PAGE_SIZE) (visit_page 0x10000 (page_addr_of ?I1) (int 0) (?c0, []))"
    by (rule find_refactorings_dirty [OF _ d0])
       (simp_all add: PAGE_SIZE_def lower_bound_def page_offset_of_def)
  have v0: "visit_page 0x10000 (page_addr_of ?I1) (int 0) (?c0, []) = (?c1, [])"
    by (simp add: visit_page_def starts_new_cluster_def page_addr_of_def PAGE_SIZE_def
          INTPTR_MIN_def)
  have s1: "?f (0 + PAGE_SIZE) (?c1, []) = ?f (0 + PAGE_SIZE + PAGE_SIZE)
             (visit_page 0x10000 (page_addr_of ?I2) (int (0 + PAGE_SIZE)) (?c1, []))"
    by (rule find_refactorings_dirty [OF _ d1])
       (simp_all add: PAGE_SIZE_def lower_bound_def page_offset_of_def)
  have v1: "visit_page 0x10000 (page_addr_of ?I2) (int (0 + PAGE_SIZE)) (?c1, []) = (?c2, [])"
    by (simp add: visit_page_def starts_new_cluster_def page_addr_of_def PAGE_SIZE_def
          s64_def u64_def)
  have s2: "?f (0 + PAGE_SIZE + PAGE_SIZE) (?c2, []) = ?f (0 + PAGE_SIZE + PAGE_SIZE + PAGE_SIZE)
             (visit_page 0x10000 (page_addr_of ?I3) (int (0 + PAGE_SIZE + PAGE_SIZE)) (?c2, []))"
    by (rule find_refactorings_dirty [OF _ d2])
       (simp_all add: PAGE_SIZE_def lower_bound_def page_offset_of_def)
  have v2: "visit_page 0x10000 (page_addr_of ?I3) (int (0 + PAGE_SIZE + PAGE_SIZE)) (?c2, [])
              = (?c3, [?r1])"
    by (simp add: visit_page_def starts_new_cluster_def page_addr_of_def PAGE_SIZE_def
          s64_def u64_def Refactor_new_def)
  have s3: "?f (0 + PAGE_SIZE + PAGE_SIZE + PAGE_SIZE) (?c3, [?r1]) = Inr (?c3, [?r1])"
    by (rule find_refactorings_end) simp
  show ?thesis
    by (simp only: s0 v0 s1 v1 s2 v2 s3)
qed

text \<open>
  C4 says that after Step #2 the bytes at \<^verbatim>\<open>patched_offset\<close> of every refactoring are
  the patched bytes that were at its \<^verbatim>\<open>original_offset\<close>; the comment of Step #2 says
  the same ("write out a copy of the patched pages"). The source takes the size of a
  cluster from virtual addresses and uses it as a length in the file, so the file
  range of one refactoring can cover the page of a later one. In the file of three
  pages below all pages differ from the original; the instructions of the first two
  pages are at addresses \<^verbatim>\<open>0x401040\<close> and \<^verbatim>\<open>0x403040\<close>, the one of the third page is
  at the lower address \<^verbatim>\<open>0x3f0040\<close>. The plan is a refactoring of \<^verbatim>\<open>0x3000\<close> bytes at
  file offset 0 and one of \<^verbatim>\<open>0x1000\<close> bytes at file offset \<^verbatim>\<open>0x2000\<close>, inside the
  range of the first. When the second is processed its page has already been
  restored, so its copy at \<^verbatim>\<open>patched_offset = 0x6000\<close> holds the original byte 0 at
  \<^verbatim>\<open>+0x40\<close>, not the patched byte \<^verbatim>\<open>0xE9\<close> that was at \<^verbatim>\<open>original_offset + 0x40\<close>:
  the patch of the third page is lost.
\<close>

theorem overlapping_ranges_lose_patch:
  "planned (emitRefactoredPatch example_env zero_bytes (patch_at [0x40, 0x1040, 0x2040])
      (3 * PAGE_SIZE) 0x10000
      [(0x40, \<lparr>I_addr = 0x401040, I_offset = 0x40\<rparr>),
       (0x1040, \<lparr>I_addr = 0x403040, I_offset = 0x1040\<rparr>),
       (0x2040, \<lparr>I_addr = 0x3f0040, I_offset = 0x2040\<rparr>)] [])
     = Inr (0x4000,
            [\<lparr>r_addr = 0x401000, r_size = 0x3000, r_original_offset = 0,
              r_patched_offset = 0x3000\<rparr>,
             \<lparr>r_addr = 0x3f0000, r_size = 0x1000, r_original_offset = 0x2000,
              r_patched_offset = 0x6000\<rparr>])
   \<and> patch_at [0x40, 0x1040, 0x2040] (0x2000 + 0x40) = 0xE9
   \<and> result_bytes (emitRefactoredPatch example_env zero_bytes (patch_at [0x40, 0x1040, 0x2040])
      (3 * PAGE_SIZE) 0x10000
      [(0x40, \<lparr>I_addr = 0x401040, I_offset = 0x40\<rparr>),
       (0x1040, \<lparr>I_addr = 0x403040, I_offset = 0x1040\<rparr>),
       (0x2040, \<lparr>I_addr = 0x3f0040, I_offset = 0x2040\<rparr>)] []) (0x6000 + 0x40) = 0"
  apply (simp add: emitRefactoredPatch_def example_env_def three_dirty_pages_found
        planned_def result_bytes_def Refactor_new_def Let_def)
  apply (simp add: memcpy_def zero_bytes_def patch_at_def PAGE_SIZE_def)
  done

text \<open>
  What Step #2 does for every plan: the file grows by the sum of the sizes of the
  refactorings, and each refactoring gets as \<^verbatim>\<open>patched_offset\<close> the size of the file
  at the moment it is processed. If the file range \<^verbatim>\<open>original_offset..+size\<close> of every
  refactoring lies inside the file as it was before the step, the bytes of every
  such range are the original bytes afterwards. If moreover the ranges of different
  refactorings do not overlap, the bytes at \<^verbatim>\<open>patched_offset..+size\<close> are the bytes
  that were at \<^verbatim>\<open>original_offset..+size\<close> before the step.
\<close>

theorem refactored_patch_round_trip:
  assumes run: "emitRefactoredPatch env original data sz M Is [] = Inr (n, data', rs)"
  shows "n = sum_list (map r_size rs)
    \<and> (\<forall>k<length rs.
          r_patched_offset (rs ! k) = int (sz + sum_list (map r_size (take k rs))))
    \<and> (ranges_in_file sz rs \<longrightarrow>
          (\<forall>k<length rs. \<forall>i<r_size (rs ! k).
                data' (nat (r_original_offset (rs ! k)) + i)
                  = original (nat (r_original_offset (rs ! k)) + i)))
    \<and> (ranges_in_file sz rs \<and> ranges_disjoint rs \<longrightarrow>
          (\<forall>k<length rs. \<forall>i<r_size (rs ! k).
                data' (nat (r_patched_offset (rs ! k)) + i)
                  = data (nat (r_original_offset (rs ! k)) + i)))"
proof (cases "option_loader_static env")
  case True
  with run show ?thesis by (simp add: emitRefactoredPatch_def)
next
  case False
  with run obtain c rs0 where
    f: "find_refactorings original data sz M Is 0
          (\<lparr>curr_addr = INTPTR_MIN, curr_offset = - 1, curr_size = 0\<rparr>, []) = Inr (c, rs0)"
    by (auto simp: emitRefactoredPatch_def split: if_splits sum.splits)
  let ?rs1 = "if 0 \<le> curr_addr c
              then rs0 @ [Refactor_new (curr_addr c) (curr_offset c) (curr_size c)] else rs0"
  obtain d s t where w: "write_refactors original data sz ?rs1 = (d, s, t)"
    by (cases "write_refactors original data sz ?rs1") auto
  from run False f w have e: "n = s - sz" "data' = d" "rs = t"
    by (auto simp: emitRefactoredPatch_def Let_def split: if_splits)
  from write_refactors_shape [OF w]
  have sz': "s = sz + sum_list (map r_size ?rs1)" and len: "length t = length ?rs1"
    and nth: "\<forall>k<length ?rs1. t ! k
         = (?rs1 ! k)\<lparr>r_patched_offset := int (sz + sum_list (map r_size (take k ?rs1)))\<rparr>"
    by simp_all
  have same: "\<forall>k<length t. r_size (t ! k) = r_size (?rs1 ! k)
           \<and> r_original_offset (t ! k) = r_original_offset (?rs1 ! k)"
    using len nth by simp
  have sizes: "map r_size t = map r_size ?rs1"
    using len same by (intro nth_equalityI) simp_all
  have g: "n = sum_list (map r_size rs)"
    using e sz' sizes by simp
  have po: "\<forall>k<length rs.
          r_patched_offset (rs ! k) = int (sz + sum_list (map r_size (take k rs)))"
  proof (intro allI impI)
    fix k assume k: "k < length rs"
    have "take k (map r_size t) = take k (map r_size ?rs1)" using sizes by simp
    then have "map r_size (take k t) = map r_size (take k ?rs1)" by (simp add: take_map)
    with k len nth e(3)
    show "r_patched_offset (rs ! k) = int (sz + sum_list (map r_size (take k rs)))"
      by simp
  qed
  have restore: "\<forall>k<length rs. \<forall>i<r_size (rs ! k).
                data' (nat (r_original_offset (rs ! k)) + i)
                  = original (nat (r_original_offset (rs ! k)) + i)"
    if inf: "ranges_in_file sz rs"
  proof (intro allI impI)
    fix k i assume k: "k < length rs" and i: "i < r_size (rs ! k)"
    have inf0: "ranges_in_file sz ?rs1"
      using ranges_in_file_cong [OF len same] inf e(3) by simp
    have m: "?rs1 ! k \<in> set ?rs1" using k len e(3) by simp
    have "in_range (?rs1 ! k) (nat (r_original_offset (?rs1 ! k)) + i)"
      using i same k e(3) by (simp add: in_range_def)
    with write_refactors_mem [OF w inf0, of "nat (r_original_offset (?rs1 ! k)) + i"] m
    have "d (nat (r_original_offset (?rs1 ! k)) + i)
            = original (nat (r_original_offset (?rs1 ! k)) + i)" by blast
    then show "data' (nat (r_original_offset (rs ! k)) + i)
                  = original (nat (r_original_offset (rs ! k)) + i)"
      using same k e by simp
  qed
  have copies: "\<forall>k<length rs. \<forall>i<r_size (rs ! k).
                data' (nat (r_patched_offset (rs ! k)) + i)
                  = data (nat (r_original_offset (rs ! k)) + i)"
    if inf: "ranges_in_file sz rs" and dis: "ranges_disjoint rs"
    using write_refactors_round_trip [OF w inf [unfolded e(3)] dis [unfolded e(3)]]
    unfolding e by blast
  from g po restore copies show ?thesis by blast
qed

theorem refactored_patch_round_trip_witness:
  "result_bytes (emitRefactoredPatch example_env zero_bytes (patch_at [0x40, 0x12040])
        (19 * PAGE_SIZE) 0x10000
        [(0x40, \<lparr>I_addr = 0x401040, I_offset = 0x40\<rparr>),
         (0x12040, \<lparr>I_addr = 0x413040, I_offset = 0x12040\<rparr>)] []) (0x14000 + 0x40) = 0xE9
   \<and> result_bytes (emitRefactoredPatch example_env zero_bytes (patch_at [0x40, 0x12040])
        (19 * PAGE_SIZE) 0x10000
        [(0x40, \<lparr>I_addr = 0x401040, I_offset = 0x40\<rparr>),
         (0x12040, \<lparr>I_addr = 0x413040, I_offset = 0x12040\<rparr>)] []) (0x12000 + 0x40) = 0"
proof -
  let ?I1 = "\<lparr>I_addr = 0x401040, I_offset = 0x40\<rparr>"
  let ?I2 = "\<lparr>I_addr = 0x413040, I_offset = 0x12040\<rparr>"
  let ?run = "emitRefactoredPatch example_env zero_bytes (patch_at [0x40, 0x12040])
        (19 * PAGE_SIZE) 0x10000 [(0x40, ?I1), (0x12040, ?I2)] []"
  let ?rs = "[\<lparr>r_addr = 0x401000, r_size = 0x1000, r_original_offset = 0,
              r_patched_offset = 0x13000\<rparr>,
             \<lparr>r_addr = 0x413000, r_size = 0x1000, r_original_offset = 0x12000,
              r_patched_offset = 0x14000\<rparr>]"
  have t: "two_dirty_pages zero_bytes (patch_at [0x40, 0x12040]) 19 0 18 ?I1 ?I2"
    by (rule two_dirty_pages_patch_at) (simp_all add: PAGE_SIZE_def page_offset_of_def)
  have d: "\<not> option_loader_static example_env" by (simp add: example_env_def)
  have "planned ?run = Inr (0x2000, ?rs)"
    using two_dirty_pages_plan [OF d t, of "0x10000"]
    by (simp add: page_addr_of_def PAGE_SIZE_def)
  then obtain data' where run: "?run = Inr (0x2000, data', ?rs)" and rb: "result_bytes ?run = data'"
    using planned_Inr by blast
  have "ranges_in_file (19 * PAGE_SIZE) ?rs" and "ranges_disjoint ?rs"
    by (simp_all add: ranges_in_file_def PAGE_SIZE_def)
  from refactored_patch_round_trip [OF run] this
  have "\<forall>k<length ?rs. \<forall>i<r_size (?rs ! k).
                data' (nat (r_original_offset (?rs ! k)) + i)
                  = zero_bytes (nat (r_original_offset (?rs ! k)) + i)"
    and "\<forall>k<length ?rs. \<forall>i<r_size (?rs ! k).
                data' (nat (r_patched_offset (?rs ! k)) + i)
                  = patch_at [0x40, 0x12040] (nat (r_original_offset (?rs ! k)) + i)"
    by blast+
  then have "1 < length ?rs \<longrightarrow> (\<forall>i<r_size (?rs ! 1).
          data' (nat (r_original_offset (?rs ! 1)) + i)
             = zero_bytes (nat (r_original_offset (?rs ! 1)) + i))"
    and "1 < length ?rs \<longrightarrow> (\<forall>i<r_size (?rs ! 1).
          data' (nat (r_patched_offset (?rs ! 1)) + i)
             = patch_at [0x40, 0x12040] (nat (r_original_offset (?rs ! 1)) + i))"
    by blast+
  then have "\<forall>i<r_size (?rs ! 1).
          data' (nat (r_original_offset (?rs ! 1)) + i)
             = zero_bytes (nat (r_original_offset (?rs ! 1)) + i)"
    and "\<forall>i<r_size (?rs ! 1).
          data' (nat (r_patched_offset (?rs ! 1)) + i)
             = patch_at [0x40, 0x12040] (nat (r_original_offset (?rs ! 1)) + i)"
    by simp_all
  then have "0x40 < r_size (?rs ! 1) \<longrightarrow> data' (nat (r_original_offset (?rs ! 1)) + 0x40)
             = zero_bytes (nat (r_original_offset (?rs ! 1)) + 0x40)"
    and "0x40 < r_size (?rs ! 1) \<longrightarrow> data' (nat (r_patched_offset (?rs ! 1)) + 0x40)
             = patch_at [0x40, 0x12040] (nat (r_original_offset (?rs ! 1)) + 0x40)"
    by blast+
  then have "data' (0x12000 + 0x40) = zero_bytes (0x12000 + 0x40)"
    and "data' (0x14000 + 0x40) = patch_at [0x40, 0x12040] (0x12000 + 0x40)"
    by simp_all
  then show ?thesis
    unfolding rb by (simp add: zero_bytes_def patch_at_def)
qed

section \<open>The steps of emitElf\<close>

subsection \<open>The loops that emit map records\<close>

lemma same_frame_refl: "same_frame s s"
  by (simp add: same_frame_def)

lemma same_frame_trans: "same_frame s s' \<Longrightarrow> same_frame s' s'' \<Longrightarrow> same_frame s s''"
  by (simp add: same_frame_def)

lemma emitLoaderMap_Inr:
  assumes "emitLoaderMap env zero_map base len off r w x ub = Inr (n, rec, ub')"
  shows "n = sizeof_e9_map_s"
    and "call_ok env \<lparr>c_base = base, c_len = len, c_offset = off,
                                c_r = r, c_w = w, c_x = x\<rparr>"
    and "rec = written_map env \<lparr>c_base = base, c_len = len, c_offset = off,
                                c_r = r, c_w = w, c_x = x\<rparr>"
    and "ub' = (case ub of None \<Rightarrow> None
                | Some u \<Rightarrow> Some (if IS_ABSOLUTE env base then u else max u base))"
  using assms
  by (auto simp: emitLoaderMap_def written_map_def call_ok_def Let_def
        split: if_splits option.splits)

lemma emit_one_map_Inr:
  assumes "emit_one_map env i base len off r w x track s = Inr s'"
  shows "same_frame s s'"
    and "call_ok env \<lparr>c_base = base, c_len = len, c_offset = off,
                                c_r = r, c_w = w, c_x = x\<rparr>"
    and "st_size s' = st_size s + sizeof_e9_map_s"
    and "map snd (st_maps s') = map snd (st_maps s)
           @ [written_map env \<lparr>c_base = base, c_len = len, c_offset = off,
                                c_r = r, c_w = w, c_x = x\<rparr>]"
    and "st_ub s' = (if track then ub_of env [\<lparr>c_base = base, c_len = len, c_offset = off,
                                c_r = r, c_w = w, c_x = x\<rparr>] (st_ub s) else st_ub s)"
proof -
  from assms obtain n rec ub where
    e: "emitLoaderMap env zero_map base len off r w x (if track then Some (st_ub s) else None)
          = Inr (n, rec, ub)"
    and s': "s' = s\<lparr>st_maps := st_maps s @ [(st_size s, rec)],
                 st_size := st_size s + n,
                 st_ub := (case ub of None \<Rightarrow> st_ub s | Some u \<Rightarrow> u),
                 st_config := (st_config s)\<lparr>cfg_num_maps :=
                     (cfg_num_maps (st_config s))(i := cfg_num_maps (st_config s) i + 1)\<rparr>\<rparr>"
    by (auto simp: emit_one_map_def split: sum.splits)
  note r = emitLoaderMap_Inr [OF e]
  show "same_frame s s'" by (simp add: s' same_frame_def)
  show "call_ok env \<lparr>c_base = base, c_len = len, c_offset = off,
                                c_r = r, c_w = w, c_x = x\<rparr>" by (rule r(2))
  show "st_size s' = st_size s + sizeof_e9_map_s" using r(1) by (simp add: s')
  show "map snd (st_maps s') = map snd (st_maps s)
           @ [written_map env \<lparr>c_base = base, c_len = len, c_offset = off,
                                c_r = r, c_w = w, c_x = x\<rparr>]"
    using r(3) by (simp add: s')
  show "st_ub s' = (if track then ub_of env [\<lparr>c_base = base, c_len = len, c_offset = off,
                                c_r = r, c_w = w, c_x = x\<rparr>] (st_ub s) else st_ub s)"
    using r(4) by (simp add: s' ub_of_def)
qed

lemma emitted_Nil: "emitted env track [] s s"
  by (simp add: emitted_def same_frame_refl ub_of_def)

lemma emitted_append:
  "emitted env track cs s s' \<Longrightarrow> emitted env track ds s' s'' \<Longrightarrow> emitted env track (cs @ ds) s s''"
  by (auto simp: emitted_def ub_of_def algebra_simps intro: same_frame_trans)

lemma emit_one_map_emitted:
  "emit_one_map env i base len off r w x track s = Inr s' \<Longrightarrow>
   emitted env track [\<lparr>c_base = base, c_len = len, c_offset = off, c_r = r, c_w = w, c_x = x\<rparr>] s s'"
  using emit_one_map_Inr [of env i base len off r w x track s s']
  by (simp add: emitted_def)

lemma emit_bounds_emitted:
  "emit_bounds env i node offset_0 bs s = Inr s' \<Longrightarrow> m_offset head = offset_0 \<Longrightarrow>
   emitted env True (map (bound_call head node) bs) s s'"
proof (induction bs arbitrary: s)
  case Nil
  then show ?case by (simp add: emitted_Nil)
next
  case (Cons b bs)
  from Cons.prems(1) obtain s1 where
    one: "emit_one_map env i (s64 (m_base node + b_lb b)) (u64 (b_ub b - b_lb b))
            (s64 (offset_0 + b_lb b)) (m_prot node AND PROT_READ \<noteq> 0)
            (m_prot node AND PROT_WRITE \<noteq> 0) (m_prot node AND PROT_EXEC \<noteq> 0) True s = Inr s1"
    and rest: "emit_bounds env i node offset_0 bs s1 = Inr s'"
    by (auto simp: Let_def split: sum.splits)
  have "emitted env True [bound_call head node b] s s1"
    using emit_one_map_emitted [OF one] Cons.prems(2) by (simp add: bound_call_def)
  from emitted_append [OF this Cons.IH [OF rest Cons.prems(2)]] show ?case by simp
qed

lemma emit_chain_emitted:
  "emit_chain env preload i offset_0 m s = Inr s' \<Longrightarrow> m_offset head = offset_0 \<Longrightarrow>
   emitted env True (chain_calls env preload head (chain_nodes m)) s s'"
proof (induction env preload i offset_0 m s rule: emit_chain.induct)
  case (1 env preload i offset_0 s)
  then show ?case by (simp add: chain_calls_def emitted_Nil)
next
  case (2 env preload i offset_0 base sz offset prot pre merged s)
  let ?node = "Mapping base sz offset prot pre merged"
  show ?case
  proof (cases "m_preload ?node = preload")
    case False
    with "2.prems" have "emit_chain env preload i offset_0 merged s = Inr s'"
      by (simp add: Let_def)
    from "2.IH"(1) [OF refl _ this "2.prems"(2)] False show ?thesis
      by (simp add: chain_calls_def)
  next
    case True
    with "2.prems" obtain s1 where
      b: "emit_bounds env i ?node offset_0 (getVirtualBounds env ?node PAGE_SIZE) s = Inr s1"
      and c: "emit_chain env preload i offset_0 merged s1 = Inr s'"
      by (auto simp: Let_def split: sum.splits)
    have "emitted env True (chain_calls env preload head (chain_nodes merged)) s1 s'"
      using "2.IH"(2) [OF refl _ b c "2.prems"(2)] True by simp
    from emitted_append [OF emit_bounds_emitted [OF b "2.prems"(2)] this] True show ?thesis
      by (simp add: chain_calls_def)
  qed
qed

lemma emit_mappings_emitted:
  "emit_mappings env preload i ms s = Inr s' \<Longrightarrow>
   emitted env True (map_calls env preload ms) s s'"
proof (induction ms arbitrary: s)
  case Nil
  then show ?case by (simp add: map_calls_def emitted_Nil)
next
  case (Cons m ms)
  from Cons.prems obtain s1 where
    c: "emit_chain env preload i (m_offset m) (Some m) s = Inr s1"
    and r: "emit_mappings env preload i ms s1 = Inr s'"
    by (auto simp: Let_def split: sum.splits)
  from emitted_append [OF emit_chain_emitted [OF c refl] Cons.IH [OF r]] show ?case
    by (simp add: map_calls_def)
qed

lemma emit_refactor_maps_emitted:
  "emit_refactor_maps env rs s = Inr s' \<Longrightarrow> emitted env False (map refactor_call rs) s s'"
proof (induction rs arbitrary: s)
  case Nil
  then show ?case by (simp add: emitted_Nil)
next
  case (Cons r rs)
  from Cons.prems obtain s1 where
    one: "emit_one_map env 1 (r_addr r) (r_size r) (r_patched_offset r) True False True False s
            = Inr s1"
    and rest: "emit_refactor_maps env rs s1 = Inr s'"
    by (auto split: sum.splits)
  have "emitted env False [refactor_call r] s s1"
    using emit_one_map_emitted [OF one] by (simp add: refactor_call_def)
  from emitted_append [OF this Cons.IH [OF rest]] show ?case by simp
qed

lemma read_write_bytes: "read_bytes (write_bytes m a bs) a (length bs) = bs"
  by (rule nth_equalityI) (simp_all add: read_bytes_def write_bytes_def)

lemma write_bytes_append:
  "write_bytes (write_bytes m a xs) (a + length xs) ys = write_bytes m a (xs @ ys)"
  by (rule ext) (auto simp: write_bytes_def nth_append)

lemma write_bytes_Nil: "write_bytes m a [] = m"
  by (rule ext) (auto simp: write_bytes_def)

lemma page_round_up_aligned: "page_round_up sz mod PAGE_SIZE = 0"
proof (cases "sz mod PAGE_SIZE = 0")
  case True
  then show ?thesis by (simp add: page_round_up_def)
next
  case False
  have "PAGE_SIZE dvd sz - sz mod PAGE_SIZE" by (rule dvd_minus_mod)
  then obtain k where k: "sz - sz mod PAGE_SIZE = PAGE_SIZE * k" ..
  have "sz + PAGE_SIZE - sz mod PAGE_SIZE = (sz - sz mod PAGE_SIZE) + PAGE_SIZE"
    using mod_less_eq_dividend [of sz PAGE_SIZE] by simp
  also have "\<dots> = PAGE_SIZE * (k + 1)" using k by simp
  finally have "(sz + PAGE_SIZE - sz mod PAGE_SIZE) mod PAGE_SIZE = 0" by simp
  with False show ?thesis by (simp only: page_round_up_def if_False)
qed

lemma page_round_up_ge: "sz \<le> page_round_up sz"
  using mod_less_divisor [of PAGE_SIZE sz]
  by (auto simp: page_round_up_def PAGE_SIZE_def)

lemma emit_inits_facts:
  "st_size (emit_inits inits s) = st_size s + 8 * length inits
   \<and> st_config_offset (emit_inits inits s) = st_config_offset s
   \<and> st_maps (emit_inits inits s) = st_maps s
   \<and> st_ub (emit_inits inits s) = st_ub s
   \<and> st_mappings (emit_inits inits s) = st_mappings s
   \<and> st_refactors (emit_inits inits s) = st_refactors s
   \<and> st_ehdr (emit_inits inits s) = st_ehdr s
   \<and> st_phdrs (emit_inits inits s) = st_phdrs s
   \<and> st_dyn (emit_inits inits s) = st_dyn s"
  by (induction inits arbitrary: s) simp_all

lemma emit_config_facts:
  "st_config_offset (emit_config env B s) = page_round_up (st_size s)
   \<and> st_size (emit_config env B s)
       = page_round_up (st_size s) + sizeof_e9_config_s + sizeof_e9_config_elf_s
         + 8 * length (B_inits B)
   \<and> st_maps (emit_config env B s) = st_maps s
   \<and> st_mappings (emit_config env B s) = st_mappings s
   \<and> st_refactors (emit_config env B s) = st_refactors s
   \<and> st_ehdr (emit_config env B s) = st_ehdr s
   \<and> st_phdrs (emit_config env B s) = st_phdrs s
   \<and> st_dyn (emit_config env B s) = st_dyn s"
  by (simp add: emit_config_def Let_def emit_inits_facts)

lemma emit_map_array_emitted:
  assumes "emit_map_array env i s = Inr s'"
  shows "emitted env True (map_calls env (i = 0) (st_mappings s)) s s'"
proof -
  let ?s = "s\<lparr>st_config := (st_config s)\<lparr>cfg_maps :=
                  (cfg_maps (st_config s))(i := word_of_nat (st_size s - st_config_offset s))\<rparr>\<rparr>"
  from assms have "emit_mappings env (i = 0) i (st_mappings s) ?s = Inr s'"
    by (simp add: emit_map_array_def Let_def)
  from emit_mappings_emitted [OF this] show ?thesis
    by (simp add: emitted_def same_frame_def)
qed

lemma emit_map_arrays_emitted:
  assumes "emit_map_arrays env s = Inr s'"
  shows "emitted env True
           (map_calls env True (st_mappings s) @ map_calls env False (st_mappings s))
           (s\<lparr>st_ub := INTPTR_MIN\<rparr>) s'"
proof -
  from assms obtain s1 where
    a: "emit_map_array env 0 (s\<lparr>st_ub := INTPTR_MIN\<rparr>) = Inr s1"
    and b: "emit_map_array env 1 s1 = Inr s'"
    by (auto simp: emit_map_arrays_def split: sum.splits)
  have m: "st_mappings s1 = st_mappings s"
    using emit_map_array_emitted [OF a] by (simp add: emitted_def same_frame_def)
  from emitted_append [OF emit_map_array_emitted [OF a] emit_map_array_emitted [OF b]]
  show ?thesis by (simp add: m)
qed

lemma write_bytes_append':
  "b = a + length xs \<Longrightarrow> write_bytes (write_bytes m a xs) b ys = write_bytes m a (xs @ ys)"
  by (simp add: write_bytes_append)

lemma length_le32 [simp]: "length (le32 w) = 4"
  by (simp add: le32_def)

lemma emit_entry_shim_Inr:
  assumes "emit_entry_shim env B s = Inr s'"
  shows "\<exists>pro. prologue (B_mode B) = Inr pro
     \<and> st_data s' = write_bytes (st_data s) (st_size s)
                      (entry_shim env pro (st_size s) (st_config_offset s))
     \<and> st_size s' = st_size s + length (entry_shim env pro (st_size s) (st_config_offset s))
     \<and> st_entry s' = s64 (option_loader_base env + int (st_size s - st_config_offset s))
     \<and> st_config_size s' = st_size s' - st_config_offset s
     \<and> cfg_size (st_config s') = word_of_nat (page_round_up (st_config_size s'))
     \<and> st_config_offset s' = st_config_offset s \<and> st_maps s' = st_maps s
     \<and> st_ub s' = st_ub s \<and> st_mappings s' = st_mappings s
     \<and> st_refactors s' = st_refactors s \<and> st_ehdr s' = st_ehdr s
     \<and> st_phdrs s' = st_phdrs s \<and> st_dyn s' = st_dyn s"
proof -
  from assms obtain pro where p: "prologue (B_mode B) = Inr pro"
    by (auto simp: emit_entry_shim_def Let_def split: sum.splits prod.splits)
  show ?thesis
  proof (cases "option_trap_entry env")
    case True
    with assms p show ?thesis
      by (auto simp: emit_entry_shim_def Let_def entry_shim_def write_bytes_append'
            ac_simps)
  next
    case False
    with assms p show ?thesis
      by (auto simp: emit_entry_shim_def Let_def entry_shim_def write_bytes_append'
            ac_simps)
  qed
qed

subsection \<open>Steps (4), (5) and (6)\<close>

lemma emitElf_steps_1_3_Inr:
  assumes "emitElf_steps_1_3 env B mappings mapping_size = Inr s"
  shows "st_maps s = []" and "st_ehdr s = B_ehdr B" and "st_phdrs s = B_phdrs B"
    and "st_dyn s = B_dyn B"
  using assms
  by (auto simp: emitElf_steps_1_3_def Let_def split: sum.splits prod.splits)

lemma emitElf_step_4_Inr:
  assumes "emitElf_step_4 env B s = Inr s'"
  shows "st_config_offset s' = page_round_up (st_size s)
    \<and> map snd (st_maps s') = map snd (st_maps s)
         @ map (written_map env)
             (map_calls env True (st_mappings s) @ map_calls env False (st_mappings s)
              @ map refactor_call (st_refactors s))
    \<and> list_all (call_ok env)
             (map_calls env True (st_mappings s) @ map_calls env False (st_mappings s)
              @ map refactor_call (st_refactors s))
    \<and> ub_of env (map_calls env True (st_mappings s) @ map_calls env False (st_mappings s))
         INTPTR_MIN \<le> option_loader_base env
    \<and> (\<exists>pro d. prologue (B_mode B) = Inr pro
          \<and> st_data s' = write_bytes d
               (st_size s' - length (entry_shim env pro
                    (page_round_up (st_size s) + sizeof_e9_config_s + sizeof_e9_config_elf_s
                       + 8 * length (B_inits B) + sizeof_e9_map_s * length (st_maps s')
                       - sizeof_e9_map_s * length (st_maps s))
                    (page_round_up (st_size s))))
               (entry_shim env pro
                    (page_round_up (st_size s) + sizeof_e9_config_s + sizeof_e9_config_elf_s
                       + 8 * length (B_inits B) + sizeof_e9_map_s * length (st_maps s')
                       - sizeof_e9_map_s * length (st_maps s))
                    (page_round_up (st_size s)))
          \<and> st_size s' = page_round_up (st_size s) + sizeof_e9_config_s + sizeof_e9_config_elf_s
                       + 8 * length (B_inits B) + sizeof_e9_map_s * length (st_maps s')
                       - sizeof_e9_map_s * length (st_maps s)
                       + length (entry_shim env pro
                    (page_round_up (st_size s) + sizeof_e9_config_s + sizeof_e9_config_elf_s
                       + 8 * length (B_inits B) + sizeof_e9_map_s * length (st_maps s')
                       - sizeof_e9_map_s * length (st_maps s))
                    (page_round_up (st_size s)))
          \<and> st_entry s' = s64 (option_loader_base env
                 + int (sizeof_e9_config_s + sizeof_e9_config_elf_s
                       + 8 * length (B_inits B) + sizeof_e9_map_s * length (st_maps s')
                       - sizeof_e9_map_s * length (st_maps s))))
    \<and> st_config_size s' = st_size s' - st_config_offset s'
    \<and> cfg_size (st_config s') = word_of_nat (page_round_up (st_config_size s'))
    \<and> st_mappings s' = st_mappings s \<and> st_refactors s' = st_refactors s
    \<and> st_ehdr s' = st_ehdr s \<and> st_phdrs s' = st_phdrs s \<and> st_dyn s' = st_dyn s"
proof -
  let ?s1 = "emit_config env B s"
  let ?calls = "map_calls env True (st_mappings s) @ map_calls env False (st_mappings s)"
  from assms obtain s2 s3 where
    a: "emit_map_arrays env ?s1 = Inr s2"
    and g: "\<not> st_ub s2 > option_loader_base env"
    and r: "emit_refactor_maps env (st_refactors s2) s2 = Inr s3"
    and e: "emit_entry_shim env B s3 = Inr s'"
    by (auto simp: emitElf_step_4_def split: sum.splits if_splits)
  note c = emit_config_facts [of env B s]
  from emit_map_arrays_emitted [OF a] c
  have ea: "emitted env True ?calls (?s1\<lparr>st_ub := INTPTR_MIN\<rparr>) s2" by simp
  from emit_refactor_maps_emitted [OF r]
  have er: "emitted env False (map refactor_call (st_refactors s2)) s2 s3" .
  have f2: "st_refactors s2 = st_refactors s" "st_mappings s2 = st_mappings s"
    "st_ehdr s2 = st_ehdr s" "st_phdrs s2 = st_phdrs s" "st_dyn s2 = st_dyn s"
    "st_config_offset s2 = page_round_up (st_size s)"
    using ea c by (simp_all add: emitted_def same_frame_def)
  have f3: "st_refactors s3 = st_refactors s" "st_mappings s3 = st_mappings s"
    "st_ehdr s3 = st_ehdr s" "st_phdrs s3 = st_phdrs s" "st_dyn s3 = st_dyn s"
    "st_config_offset s3 = page_round_up (st_size s)"
    using er f2 by (simp_all add: emitted_def same_frame_def)
  have ub: "st_ub s2 = ub_of env ?calls INTPTR_MIN"
    using ea by (simp add: emitted_def)
  have maps3: "map snd (st_maps s3) = map snd (st_maps s)
         @ map (written_map env) (?calls @ map refactor_call (st_refactors s))"
    using ea er c f2 by (simp add: emitted_def)
  then have "length (map snd (st_maps s3)) = length (map snd (st_maps s)
         @ map (written_map env) (?calls @ map refactor_call (st_refactors s)))" by simp
  then have len3: "length (st_maps s3) = length (st_maps s) + length ?calls
       + length (st_refactors s)" by simp
  have size3: "st_size s3 = page_round_up (st_size s) + sizeof_e9_config_s
       + sizeof_e9_config_elf_s + 8 * length (B_inits B)
       + sizeof_e9_map_s * (length ?calls + length (st_refactors s))"
    using ea er c f2 by (simp add: emitted_def algebra_simps)
  from emit_entry_shim_Inr [OF e] obtain pro where
    p: "prologue (B_mode B) = Inr pro"
    and d: "st_data s' = write_bytes (st_data s3) (st_size s3)
                      (entry_shim env pro (st_size s3) (st_config_offset s3))"
    and sz: "st_size s' = st_size s3 + length (entry_shim env pro (st_size s3) (st_config_offset s3))"
    and en: "st_entry s' = s64 (option_loader_base env + int (st_size s3 - st_config_offset s3))"
    and rest: "st_config_size s' = st_size s' - st_config_offset s3"
      "cfg_size (st_config s') = word_of_nat (page_round_up (st_config_size s'))"
      "st_config_offset s' = st_config_offset s3" "st_maps s' = st_maps s3"
      "st_mappings s' = st_mappings s3"
      "st_refactors s' = st_refactors s3" "st_ehdr s' = st_ehdr s3"
      "st_phdrs s' = st_phdrs s3" "st_dyn s' = st_dyn s3"
    by blast
  have off: "page_round_up (st_size s) + sizeof_e9_config_s + sizeof_e9_config_elf_s
                       + 8 * length (B_inits B) + sizeof_e9_map_s * length (st_maps s')
                       - sizeof_e9_map_s * length (st_maps s) = st_size s3"
    using size3 len3 rest(4) by (simp add: algebra_simps)
  have off': "sizeof_e9_config_s + sizeof_e9_config_elf_s
                       + 8 * length (B_inits B) + sizeof_e9_map_s * length (st_maps s')
                       - sizeof_e9_map_s * length (st_maps s) = st_size s3 - st_config_offset s3"
    using size3 len3 rest(4) f3(6) by (simp add: algebra_simps)
  have ok: "list_all (call_ok env) (?calls @ map refactor_call (st_refactors s))"
    using ea er f2 by (simp add: emitted_def)
  show ?thesis
    unfolding off off'
    using p d sz en rest f3 maps3 g ub ok
    by (auto simp: not_less)
qed

lemma replace_init_done:
  "replace_init entry base num i (True, config, dyn) = (True, config, dyn)"
  by (subst replace_init.simps) simp

lemma replace_init_found:
  assumes "i \<le> k" "k < num" "d_tag (dyn (dyn_at base k)) = DT_INIT"
    and "\<forall>j. i \<le> j \<and> j < k \<longrightarrow> d_tag (dyn (dyn_at base j)) \<noteq> DT_NULL
                                  \<and> d_tag (dyn (dyn_at base j)) \<noteq> DT_INIT"
  shows "replace_init entry base num i (False, config, dyn)
     = (True, config\<lparr>cfg_entry := d_ptr (dyn (dyn_at base k))\<rparr>,
        dyn(dyn_at base k := (dyn (dyn_at base k))\<lparr>d_ptr := entry\<rparr>))"
  using assms
proof (induction "k - i" arbitrary: i)
  case 0
  then have "i = k" by simp
  with "0.prems" show ?case
    by (subst replace_init.simps)
       (simp add: Let_def dyn_at_def DT_INIT_def DT_NULL_def replace_init_done)
next
  case (Suc n)
  then have lt: "i < k" by simp
  with Suc.prems have t: "d_tag (dyn (dyn_at base i)) \<noteq> DT_NULL"
    "d_tag (dyn (dyn_at base i)) \<noteq> DT_INIT" by auto
  have "replace_init entry base num (i + 1) (False, config, dyn)
     = (True, config\<lparr>cfg_entry := d_ptr (dyn (dyn_at base k))\<rparr>,
        dyn(dyn_at base k := (dyn (dyn_at base k))\<lparr>d_ptr := entry\<rparr>))"
    using Suc.hyps(2) lt Suc.prems by (intro Suc.hyps(1)) auto
  with t lt Suc.prems(2) show ?case
    by (subst replace_init.simps) (simp add: Let_def dyn_at_def)
qed

lemma replace_init_missing:
  assumes "\<forall>k. i \<le> k \<and> k < num \<and> d_tag (dyn (dyn_at base k)) = DT_INIT \<longrightarrow>
             (\<exists>j. i \<le> j \<and> j < k \<and> (d_tag (dyn (dyn_at base j)) = DT_NULL
                                      \<or> d_tag (dyn (dyn_at base j)) = DT_INIT))"
  shows "replace_init entry base num i (False, config, dyn) = (False, config, dyn)"
  using assms
proof (induction "num - i" arbitrary: i)
  case 0
  then show ?case by (subst replace_init.simps) simp
next
  case (Suc n)
  then have lt: "i < num" by simp
  show ?case
  proof (cases "d_tag (dyn (dyn_at base i)) = DT_NULL")
    case True
    then show ?thesis by (subst replace_init.simps) (simp add: Let_def dyn_at_def)
  next
    case False
    have ni: "d_tag (dyn (dyn_at base i)) \<noteq> DT_INIT"
    proof
      assume "d_tag (dyn (dyn_at base i)) = DT_INIT"
      with Suc.prems lt have "\<exists>j. i \<le> j \<and> j < i \<and> (d_tag (dyn (dyn_at base j)) = DT_NULL
                                      \<or> d_tag (dyn (dyn_at base j)) = DT_INIT)" by blast
      then show False by auto
    qed
    have "replace_init entry base num (i + 1) (False, config, dyn) = (False, config, dyn)"
    proof (rule Suc.hyps(1))
      show "n = num - (i + 1)" using Suc.hyps(2) by simp
      show "\<forall>k. i + 1 \<le> k \<and> k < num \<and> d_tag (dyn (dyn_at base k)) = DT_INIT \<longrightarrow>
             (\<exists>j. i + 1 \<le> j \<and> j < k \<and> (d_tag (dyn (dyn_at base j)) = DT_NULL
                                      \<or> d_tag (dyn (dyn_at base j)) = DT_INIT))"
      proof (intro allI impI)
        fix k assume k: "i + 1 \<le> k \<and> k < num \<and> d_tag (dyn (dyn_at base k)) = DT_INIT"
        with Suc.prems obtain j where j: "i \<le> j" "j < k"
          "d_tag (dyn (dyn_at base j)) = DT_NULL \<or> d_tag (dyn (dyn_at base j)) = DT_INIT"
          by (meson add_leD1)
        with False ni have "j \<noteq> i" by auto
        with j show "\<exists>j. i + 1 \<le> j \<and> j < k \<and> (d_tag (dyn (dyn_at base j)) = DT_NULL
                                      \<or> d_tag (dyn (dyn_at base j)) = DT_INIT)"
          by (intro exI [of _ j]) auto
      qed
    qed
    with False ni lt show ?thesis
      by (subst replace_init.simps) (simp add: Let_def dyn_at_def)
  qed
qed

lemma replace_init_first_init:
  "first_init dyn base num k \<Longrightarrow>
   replace_init entry base num 0 (False, config, dyn)
     = (True, config\<lparr>cfg_entry := d_ptr (dyn (dyn_at base k))\<rparr>,
        dyn(dyn_at base k := (dyn (dyn_at base k))\<lparr>d_ptr := entry\<rparr>))"
  by (rule replace_init_found) (auto simp: first_init_def list_all_iff)

lemma replace_init_no_first_init:
  assumes "\<not> (\<exists>k. first_init dyn base num k)"
  shows "replace_init entry base num 0 (False, config, dyn) = (False, config, dyn)"
proof (rule replace_init_missing, intro allI impI)
  fix k assume k: "0 \<le> k \<and> k < num \<and> d_tag (dyn (dyn_at base k)) = DT_INIT"
  with assms have "\<not> first_init dyn base num k" by blast
  with k obtain j where "j < k" "d_tag (dyn (dyn_at base j)) = DT_NULL
                                      \<or> d_tag (dyn (dyn_at base j)) = DT_INIT"
    by (auto simp: first_init_def list_all_iff)
  then show "\<exists>j. 0 \<le> j \<and> j < k \<and> (d_tag (dyn (dyn_at base j)) = DT_NULL
                                      \<or> d_tag (dyn (dyn_at base j)) = DT_INIT)"
    by auto
qed

lemma emitElf_step_5_DSO_found:
  assumes "B_mode B = MODE_ELF_DSO" and "phdr_dynamic (B_elf B) = Some p"
    and "first_init (st_dyn s) (unat (p_offset (st_phdrs s p)))
           (unat (p_memsz (st_phdrs s p)) div sizeof_Elf64_Dyn) k"
  shows "emitElf_step_5 env B s =
     Inr (s\<lparr>st_config_elf := (st_config_elf s)\<lparr>cfg_elf_dynamic := p_vaddr (st_phdrs s p)\<rparr>,
            st_config := (st_config s)\<lparr>cfg_entry :=
               d_ptr (st_dyn s (dyn_at (unat (p_offset (st_phdrs s p))) k))\<rparr>,
            st_dyn := (st_dyn s)
               (dyn_at (unat (p_offset (st_phdrs s p))) k
                  := (st_dyn s (dyn_at (unat (p_offset (st_phdrs s p))) k))
                        \<lparr>d_ptr := word_of_int (st_entry s)\<rparr>)\<rparr>)"
  using assms(1,2) replace_init_first_init [OF assms(3)]
  by (simp add: emitElf_step_5_def Let_def)

lemma emitElf_step_5_DSO_missing:
  assumes "B_mode B = MODE_ELF_DSO" and "phdr_dynamic (B_elf B) = Some p"
    and "\<not> (\<exists>k. first_init (st_dyn s) (unat (p_offset (st_phdrs s p)))
           (unat (p_memsz (st_phdrs s p)) div sizeof_Elf64_Dyn) k)"
  shows "emitElf_step_5 env B s = Inl MissingInit"
  using assms(1,2) replace_init_no_first_init [OF assms(3)]
  by (simp add: emitElf_step_5_def Let_def)

lemma emitElf_step_5_DSO_no_dynamic:
  assumes "B_mode B = MODE_ELF_DSO" and "phdr_dynamic (B_elf B) = None"
  shows "emitElf_step_5 env B s = Inl MissingDynamic"
  using assms by (simp add: emitElf_step_5_def)


lemma emitElf_step_5_Inr:
  assumes "emitElf_step_5 env B s = Inr s'"
  shows "st_data s' = st_data s \<and> st_size s' = st_size s \<and> st_maps s' = st_maps s
    \<and> st_config_offset s' = st_config_offset s \<and> st_config_size s' = st_config_size s
    \<and> st_entry s' = st_entry s \<and> st_mappings s' = st_mappings s
    \<and> st_refactors s' = st_refactors s \<and> st_phdrs s' = st_phdrs s
    \<and> cfg_size (st_config s') = cfg_size (st_config s)"
proof (cases "B_mode B")
  case MODE_ELF_EXE
  with assms show ?thesis
    by (auto simp: emitElf_step_5_def Let_def split: option.splits)
next
  case MODE_ELF_DSO
  show ?thesis
  proof (cases "phdr_dynamic (B_elf B)")
    case None
    from emitElf_step_5_DSO_no_dynamic [OF MODE_ELF_DSO None] assms show ?thesis by simp
  next
    case (Some p)
    show ?thesis
    proof (cases "\<exists>k. first_init (st_dyn s) (unat (p_offset (st_phdrs s p)))
           (unat (p_memsz (st_phdrs s p)) div sizeof_Elf64_Dyn) k")
      case True
      then obtain k where "first_init (st_dyn s) (unat (p_offset (st_phdrs s p)))
           (unat (p_memsz (st_phdrs s p)) div sizeof_Elf64_Dyn) k" ..
      from emitElf_step_5_DSO_found [OF MODE_ELF_DSO Some this] assms show ?thesis by auto
    next
      case False
      from emitElf_step_5_DSO_missing [OF MODE_ELF_DSO Some False] assms show ?thesis by simp
    qed
  qed
next
  case MODE_OTHER
  with assms show ?thesis by (simp add: emitElf_step_5_def Let_def)
qed

lemma emitElf_step_6_Inr:
  assumes "emitElf_step_6 env B s = Inr s'"
  shows "\<exists>p. select_phdr env B = Some p
    \<and> s' = s\<lparr>st_phdrs := (st_phdrs s)(p := (st_phdrs s p)
                 \<lparr>p_type := PT_LOAD,
                  p_flags := PF_X OR PF_R,
                  p_offset := word_of_nat (st_config_offset s),
                  p_vaddr := word_of_int (option_loader_base env),
                  p_paddr := 0,
                  p_filesz := word_of_nat (st_config_size s),
                  p_memsz := word_of_nat (st_config_size s),
                  p_align := word_of_nat PAGE_SIZE\<rparr>)\<rparr>"
  using assms by (auto simp: emitElf_step_6_def split: option.splits)

lemma emitElf_Inr:
  assumes "emitElf env B mappings mapping_size = Inr out"
  shows "\<exists>s3 s4 s5. emitElf_steps_1_3 env B mappings mapping_size = Inr s3
    \<and> emitElf_step_4 env B s3 = Inr s4 \<and> emitElf_step_5 env B s4 = Inr s5
    \<and> emitElf_step_6 env B s5 = Inr out"
  using assms by (auto simp: emitElf_def split: sum.splits)

lemma ub_of_ge_start: "u \<le> ub_of env cs u"
proof (induction cs arbitrary: u)
  case Nil
  then show ?case by (simp add: ub_of_def)
next
  case (Cons c cs)
  have "ub_of env (c # cs) u
      = ub_of env cs (if IS_ABSOLUTE env (c_base c) then u else max u (c_base c))"
    by (simp add: ub_of_def)
  moreover have "u \<le> (if IS_ABSOLUTE env (c_base c) then u else max u (c_base c))" by simp
  ultimately show ?case using Cons.IH order_trans by metis
qed

lemma ub_of_ge:
  "c \<in> set cs \<Longrightarrow> \<not> IS_ABSOLUTE env (c_base c) \<Longrightarrow> c_base c \<le> ub_of env cs u"
proof (induction cs arbitrary: u)
  case Nil
  then show ?case by simp
next
  case (Cons d cs)
  have e: "ub_of env (d # cs) u
      = ub_of env cs (if IS_ABSOLUTE env (c_base d) then u else max u (c_base d))"
    by (simp add: ub_of_def)
  show ?case
  proof (cases "c = d")
    case True
    with Cons.prems have "c_base c \<le> (if IS_ABSOLUTE env (c_base d) then u else max u (c_base d))"
      by simp
    also have "\<dots> \<le> ub_of env cs (if IS_ABSOLUTE env (c_base d) then u else max u (c_base d))"
      by (rule ub_of_ge_start)
    finally show ?thesis using e by simp
  next
    case False
    with Cons.prems have "c \<in> set cs" by simp
    from Cons.IH [OF this Cons.prems(2)] e show ?thesis by simp
  qed
qed

subsection \<open>Page alignment of the refactoring plan\<close>

lemma sint_neg_of_nat:
  assumes "d < 2147483648"
  shows "sint (- (word_of_nat d :: 32 word)) = - int d"
proof -
  have "- (word_of_nat d :: 32 word) = word_of_int (- int d)" by simp
  then have "sint (- (word_of_nat d :: 32 word)) = signed_take_bit 31 (- int d)"
    by (simp only: sint_sbintrunc') simp
  also have "\<dots> = - int d"
    using assms by (intro signed_take_bit_int_eq_self) simp_all
  finally show ?thesis .
qed

lemma u64_aligned:
  assumes "int PAGE_SIZE dvd x"
  shows "PAGE_SIZE dvd u64 x"
proof -
  have "int PAGE_SIZE dvd (18446744073709551616 :: int)" by (simp add: PAGE_SIZE_def)
  with assms have "int PAGE_SIZE dvd x mod 18446744073709551616" by (rule dvd_mod)
  moreover have "0 \<le> x mod 18446744073709551616" by simp
  ultimately have "int PAGE_SIZE dvd int (nat (x mod 18446744073709551616))" by simp
  then show ?thesis unfolding u64_def by (simp only: int_dvd_int_iff)
qed

lemma visit_page_aligned:
  assumes "aligned_plan cr" and "int PAGE_SIZE dvd pa"
  shows "aligned_plan (visit_page M pa po cr)"
proof (cases "starts_new_cluster (fst cr) M pa")
  case True
  with assms show ?thesis
    by (auto simp: visit_page_def aligned_plan_def Let_def Refactor_new_def)
next
  case False
  have "int PAGE_SIZE dvd int (curr_size (fst cr))
          + (pa + int PAGE_SIZE - (curr_addr (fst cr) + int (curr_size (fst cr))))"
    using assms by (auto simp: aligned_plan_def)
  from u64_aligned [OF this] False assms show ?thesis
    by (auto simp: visit_page_def aligned_plan_def Let_def)
qed

lemma find_refactorings_aligned:
  "find_refactorings original data sz M Is offset cr = Inr cr' \<Longrightarrow> aligned_plan cr \<Longrightarrow>
   aligned_plan cr'"
proof (induction original data sz M Is offset cr rule: find_refactorings.induct)
  case (1 original data sz M Is offset cr)
  show ?case
  proof (cases "offset < sz")
    case False
    with "1.prems" show ?thesis by (subst (asm) find_refactorings.simps) simp
  next
    case lt: True
    show ?thesis
    proof (cases "memcmp_eq original data offset PAGE_SIZE")
      case True
      with lt "1.prems"(1)
      have "find_refactorings original data sz M Is (offset + PAGE_SIZE) cr = Inr cr'"
        by (subst (asm) find_refactorings.simps) simp
      from "1.IH"(1) [OF lt True this "1.prems"(2)] show ?thesis .
    next
      case False
      with lt "1.prems"(1) obtain I where
        I: "lower_bound Is (int offset) = Some I"
        and po: "I_offset I - I_offset I mod int PAGE_SIZE = int offset"
        and f: "find_refactorings original data sz M Is (offset + PAGE_SIZE)
                  (visit_page M (I_addr I - I_addr I mod int PAGE_SIZE)
                     (I_offset I - I_offset I mod int PAGE_SIZE) cr) = Inr cr'"
        by (subst (asm) find_refactorings.simps)
           (auto simp: Let_def split: option.splits if_splits)
      have "int PAGE_SIZE dvd I_addr I - I_addr I mod int PAGE_SIZE"
        by (rule dvd_minus_mod)
      from visit_page_aligned [OF "1.prems"(2) this]
      have "aligned_plan (visit_page M (I_addr I - I_addr I mod int PAGE_SIZE)
                     (I_offset I - I_offset I mod int PAGE_SIZE) cr)" .
      from "1.IH"(2) [OF lt False I refl refl _ f this] po show ?thesis by simp
    qed
  qed
qed

lemma sum_list_aligned:
  "(\<forall>x\<in>set xs. PAGE_SIZE dvd x) \<Longrightarrow> PAGE_SIZE dvd sum_list xs"
  by (induction xs) simp_all

lemma emitRefactoredPatch_growth_aligned:
  assumes "emitRefactoredPatch env original data sz M Is [] = Inr (n, data', rs)"
  shows "n mod PAGE_SIZE = 0"
proof (cases "option_loader_static env")
  case True
  with assms show ?thesis by (simp add: emitRefactoredPatch_def)
next
  case False
  with assms obtain c rs0 where
    f: "find_refactorings original data sz M Is 0
          (\<lparr>curr_addr = INTPTR_MIN, curr_offset = - 1, curr_size = 0\<rparr>, []) = Inr (c, rs0)"
    by (auto simp: emitRefactoredPatch_def split: if_splits sum.splits)
  have "aligned_plan (\<lparr>curr_addr = INTPTR_MIN, curr_offset = - 1, curr_size = 0\<rparr>, [])"
    by (simp add: aligned_plan_def INTPTR_MIN_def PAGE_SIZE_def)
  from find_refactorings_aligned [OF f this]
  have a: "PAGE_SIZE dvd curr_size c" "\<forall>r\<in>set rs0. PAGE_SIZE dvd r_size r"
    by (simp_all add: aligned_plan_def)
  let ?rs1 = "if 0 \<le> curr_addr c
              then rs0 @ [Refactor_new (curr_addr c) (curr_offset c) (curr_size c)] else rs0"
  obtain d s t where w: "write_refactors original data sz ?rs1 = (d, s, t)"
    by (cases "write_refactors original data sz ?rs1") auto
  from assms False f w have e: "n = s - sz"
    by (auto simp: emitRefactoredPatch_def Let_def split: if_splits)
  from write_refactors_shape [OF w] have "s = sz + sum_list (map r_size ?rs1)" by simp
  with e have "n = sum_list (map r_size ?rs1)" by simp
  moreover have "\<forall>x\<in>set (map r_size ?rs1). PAGE_SIZE dvd x"
    using a by (auto simp: Refactor_new_def)
  ultimately have "PAGE_SIZE dvd n" using sum_list_aligned by metis
  then show ?thesis by (simp add: mod_eq_0_iff_dvd)
qed

subsection \<open>The state after a successful emission\<close>

lemma emitElf_out:
  assumes "emitElf env B mappings mapping_size = Inr out"
  shows "\<exists>s3 pro d p.
      emitElf_steps_1_3 env B mappings mapping_size = Inr s3
    \<and> prologue (B_mode B) = Inr pro \<and> select_phdr env B = Some p
    \<and> st_config_offset out = page_round_up (st_size s3)
    \<and> st_size out = st_config_offset out + sizeof_e9_config_s + sizeof_e9_config_elf_s
         + 8 * length (B_inits B) + sizeof_e9_map_s * length (st_maps out)
         + length (entry_shim env pro
             (st_config_offset out + sizeof_e9_config_s + sizeof_e9_config_elf_s
                + 8 * length (B_inits B) + sizeof_e9_map_s * length (st_maps out))
             (st_config_offset out))
    \<and> st_data out = write_bytes d
          (st_config_offset out + sizeof_e9_config_s + sizeof_e9_config_elf_s
             + 8 * length (B_inits B) + sizeof_e9_map_s * length (st_maps out))
          (entry_shim env pro
             (st_config_offset out + sizeof_e9_config_s + sizeof_e9_config_elf_s
                + 8 * length (B_inits B) + sizeof_e9_map_s * length (st_maps out))
             (st_config_offset out))
    \<and> st_entry out = s64 (option_loader_base env
         + int (sizeof_e9_config_s + sizeof_e9_config_elf_s
                + 8 * length (B_inits B) + sizeof_e9_map_s * length (st_maps out)))
    \<and> st_config_size out = st_size out - st_config_offset out
    \<and> cfg_size (st_config out) = word_of_nat (page_round_up (st_config_size out))
    \<and> map snd (st_maps out)
         = map (written_map env)
             (map_calls env True (st_mappings out) @ map_calls env False (st_mappings out)
              @ map refactor_call (st_refactors out))
    \<and> list_all (call_ok env)
             (map_calls env True (st_mappings out) @ map_calls env False (st_mappings out)
              @ map refactor_call (st_refactors out))
    \<and> ub_of env (map_calls env True (st_mappings out) @ map_calls env False (st_mappings out))
         INTPTR_MIN \<le> option_loader_base env
    \<and> st_mappings out = st_mappings s3 \<and> st_refactors out = st_refactors s3
    \<and> st_phdrs out = (B_phdrs B)(p := (B_phdrs B p)
                 \<lparr>p_type := PT_LOAD,
                  p_flags := PF_X OR PF_R,
                  p_offset := word_of_nat (st_config_offset out),
                  p_vaddr := word_of_int (option_loader_base env),
                  p_paddr := 0,
                  p_filesz := word_of_nat (st_config_size out),
                  p_memsz := word_of_nat (st_config_size out),
                  p_align := word_of_nat PAGE_SIZE\<rparr>)"
proof -
  from emitElf_Inr [OF assms] obtain s3 s4 s5 where
    s3: "emitElf_steps_1_3 env B mappings mapping_size = Inr s3"
    and s4: "emitElf_step_4 env B s3 = Inr s4"
    and s5: "emitElf_step_5 env B s4 = Inr s5"
    and s6: "emitElf_step_6 env B s5 = Inr out"
    by blast
  note i3 = emitElf_steps_1_3_Inr [OF s3]
  note i4 = emitElf_step_4_Inr [OF s4, unfolded i3(1)]
  note i5 = emitElf_step_5_Inr [OF s5]
  from emitElf_step_6_Inr [OF s6] obtain p where
    p: "select_phdr env B = Some p"
    and out: "out = s5\<lparr>st_phdrs := (st_phdrs s5)(p := (st_phdrs s5 p)
                 \<lparr>p_type := PT_LOAD,
                  p_flags := PF_X OR PF_R,
                  p_offset := word_of_nat (st_config_offset s5),
                  p_vaddr := word_of_int (option_loader_base env),
                  p_paddr := 0,
                  p_filesz := word_of_nat (st_config_size s5),
                  p_memsz := word_of_nat (st_config_size s5),
                  p_align := word_of_nat PAGE_SIZE\<rparr>)\<rparr>"
    by blast
  from i4 obtain pro d where
    pro: "prologue (B_mode B) = Inr pro"
    and dat: "st_data s4 = write_bytes d
               (st_size s4 - length (entry_shim env pro
                    (page_round_up (st_size s3) + sizeof_e9_config_s + sizeof_e9_config_elf_s
                       + 8 * length (B_inits B) + sizeof_e9_map_s * length (st_maps s4)
                       - sizeof_e9_map_s * length ([] :: (nat \<times> e9_map_s) list))
                    (page_round_up (st_size s3))))
               (entry_shim env pro
                    (page_round_up (st_size s3) + sizeof_e9_config_s + sizeof_e9_config_elf_s
                       + 8 * length (B_inits B) + sizeof_e9_map_s * length (st_maps s4)
                       - sizeof_e9_map_s * length ([] :: (nat \<times> e9_map_s) list))
                    (page_round_up (st_size s3)))"
    and siz: "st_size s4 = page_round_up (st_size s3) + sizeof_e9_config_s + sizeof_e9_config_elf_s
                       + 8 * length (B_inits B) + sizeof_e9_map_s * length (st_maps s4)
                       - sizeof_e9_map_s * length ([] :: (nat \<times> e9_map_s) list)
                       + length (entry_shim env pro
                    (page_round_up (st_size s3) + sizeof_e9_config_s + sizeof_e9_config_elf_s
                       + 8 * length (B_inits B) + sizeof_e9_map_s * length (st_maps s4)
                       - sizeof_e9_map_s * length ([] :: (nat \<times> e9_map_s) list))
                    (page_round_up (st_size s3)))"
    and ent: "st_entry s4 = s64 (option_loader_base env
                 + int (sizeof_e9_config_s + sizeof_e9_config_elf_s
                       + 8 * length (B_inits B) + sizeof_e9_map_s * length (st_maps s4)
                       - sizeof_e9_map_s * length ([] :: (nat \<times> e9_map_s) list)))"
    by blast
  have r4: "st_config_offset s4 = page_round_up (st_size s3)"
    "map snd (st_maps s4) = map (written_map env)
             (map_calls env True (st_mappings s3) @ map_calls env False (st_mappings s3)
              @ map refactor_call (st_refactors s3))"
    "list_all (call_ok env)
             (map_calls env True (st_mappings s3) @ map_calls env False (st_mappings s3)
              @ map refactor_call (st_refactors s3))"
    "ub_of env (map_calls env True (st_mappings s3) @ map_calls env False (st_mappings s3))
         INTPTR_MIN \<le> option_loader_base env"
    "st_config_size s4 = st_size s4 - st_config_offset s4"
    "cfg_size (st_config s4) = word_of_nat (page_round_up (st_config_size s4))"
    "st_mappings s4 = st_mappings s3" "st_refactors s4 = st_refactors s3"
    "st_phdrs s4 = st_phdrs s3"
    using i4 by simp_all
  show ?thesis
    apply (rule exI [of _ s3], rule exI [of _ pro], rule exI [of _ d], rule exI [of _ p])
    using s3 pro p dat siz ent r4 i5 i3
    apply (simp add: out)
    done
qed

subsection \<open>The size after Steps (1) to (3)\<close>

lemma emit_trampolines_size:
  "emit_trampolines env ms data sz = (ms', d', sz') \<Longrightarrow> sz' = sz + sum_list (map m_size ms)"
proof (induction ms arbitrary: data sz ms' d' sz')
  case Nil
  then show ?case by simp
next
  case (Cons m ms)
  obtain ms1 d1 sz1 where
    t: "emit_trampolines env ms
          (write_bytes data sz (flattenMapping env (set_offset m (int sz)) 0xcc))
          (sz + m_size m) = (ms1, d1, sz1)"
    by (metis prod_cases3)
  with Cons.prems have "sz' = sz1" by (simp add: Let_def)
  with Cons.IH [OF t] show ?case by simp
qed

lemma emitElf_steps_1_3_size:
  assumes "emitElf_steps_1_3 env B mappings mapping_size = Inr s3"
  shows "\<exists>n data refactors.
      emitRefactoredPatch env (B_original_bytes B) (B_patched_bytes B)
        (page_round_up (B_patched_size B)) mapping_size (B_Is B) [] = Inr (n, data, refactors)
    \<and> st_size s3 = page_round_up (B_patched_size B) + n + sum_list (map m_size mappings)
    \<and> st_refactors s3 = refactors"
proof -
  from assms obtain n data refactors where
    r: "emitRefactoredPatch env (B_original_bytes B) (B_patched_bytes B)
        (page_round_up (B_patched_size B)) mapping_size (B_Is B) [] = Inr (n, data, refactors)"
    by (auto simp: emitElf_steps_1_3_def Let_def split: sum.splits)
  obtain ms' d' sz' where
    t: "emit_trampolines env mappings data (page_round_up (B_patched_size B) + n) = (ms', d', sz')"
    by (metis prod_cases3)
  from assms r t have "st_size s3 = sz'" "st_refactors s3 = refactors"
    by (auto simp: emitElf_steps_1_3_def Let_def)
  with emit_trampolines_size [OF t] r show ?thesis by simp
qed

section \<open>Runs of emitElf on the concrete inputs\<close>

text \<open>A buffer that equals the original has no page to refactor.\<close>

lemma find_refactorings_same:
  "find_refactorings a a sz M Is offset cr = Inr cr"
proof (induction "sz - offset" arbitrary: offset rule: less_induct)
  case less
  show ?case
  proof (cases "offset < sz")
    case True
    then have "sz - (offset + PAGE_SIZE) < sz - offset" by (simp add: PAGE_SIZE_def)
    from less [OF this] True show ?thesis
      by (subst find_refactorings.simps) (simp add: memcmp_eq_def)
  next
    case False
    then show ?thesis by (rule find_refactorings_end)
  qed
qed

lemma emitRefactoredPatch_same:
  "\<not> option_loader_static env \<Longrightarrow> sz mod PAGE_SIZE = 0 \<Longrightarrow>
   emitRefactoredPatch env a a sz M Is [] = Inr (0, a, [])"
  by (simp add: emitRefactoredPatch_def find_refactorings_same INTPTR_MIN_def)

lemmas run_defs = emitElf_def emitElf_steps_1_3_def parsed_def example_binary_def
  page_round_up_def PAGE_SIZE_def example_env_def Let_def emitElf_step_4_def emit_config_def
  emit_map_arrays_def emit_map_array_def emit_entry_shim_def prologue_def emitElf_step_5_def
  emitElf_step_6_def select_phdr_def example_elf_info_def sizeof_e9_config_s_def
  sizeof_e9_config_elf_s_def INTPTR_MIN_def elf_consts

text \<open>The example executable, with no trampoline mappings.\<close>

lemma runA:
  "\<exists>out. emitElf example_env (parsed (example_binary MODE_ELF_EXE ET_DYN)) [] 0x10000 = Inr out
     \<and> st_size out = 8291 \<and> st_config_offset out = 8192 \<and> st_config_size out = 99
     \<and> st_maps out = [] \<and> st_entry out = 0x20e9e9050"
proof -
  have r: "emitRefactoredPatch example_env (\<lambda>a. 0) (\<lambda>a. 0) 8192 0x10000 [] []
             = Inr (0, (\<lambda>a. 0), [])"
    by (rule emitRefactoredPatch_same) (simp_all add: example_env_def PAGE_SIZE_def)
  show ?thesis
    by (simp add: run_defs r [unfolded example_env_def] s64_def)
qed

section \<open>C7: the program header that loads the loader\<close>



section \<open>C8: the bytes of the entry shim\<close>

subsection \<open>The displacement, and the bytes the file ends with\<close>

lemma sint_neg_of_nat_iff:
  "sint (- (word_of_nat d :: 32 word)) = - int d \<longleftrightarrow> d \<le> 2147483648"
proof
  assume "sint (- (word_of_nat d :: 32 word)) = - int d"
  moreover have "- (2 ^ (LENGTH(32) - 1)) \<le> sint (- (word_of_nat d :: 32 word))"
    by (rule sint_ge)
  ultimately have "- 2147483648 \<le> - int d" by simp
  then show "d \<le> 2147483648" by simp
next
  assume d: "d \<le> 2147483648"
  have "- (word_of_nat d :: 32 word) = word_of_int (- int d)" by simp
  then have "sint (- (word_of_nat d :: 32 word)) = signed_take_bit 31 (- int d)"
    by (simp only: sint_sbintrunc') simp
  also have "\<dots> = - int d"
    using d by (intro signed_take_bit_int_eq_self) simp_all
  finally show "sint (- (word_of_nat d :: 32 word)) = - int d" .
qed

lemma trap_run:
  "\<exists>out. emitElf (example_env\<lparr>option_trap_entry := True\<rparr>)
            (parsed (example_binary MODE_ELF_EXE ET_DYN)) [] 0x10000 = Inr out
     \<and> st_size out = 8292 \<and> st_config_offset out = 8192
     \<and> st_maps out = [] \<and> st_entry out = 0x20e9e9050"
  by (simp add: run_defs emitRefactoredPatch_same s64_def)

lemma le32_minus_96: "le32 (- 96) = [0xA0, 0xFF, 0xFF, 0xFF]"
proof -
  have "(- 96 :: 32 word) = 0xFFFFFFA0" by simp
  then show ?thesis by (simp add: le32_def upt_rec drop_bit_eq_div)
qed

lemma le32_minus_97: "le32 (- 97) = [0x9F, 0xFF, 0xFF, 0xFF]"
proof -
  have "(- 97 :: 32 word) = 0xFFFFFF9F" by simp
  then show ?thesis by (simp add: le32_def upt_rec drop_bit_eq_div)
qed

lemma emitted_shim:
  assumes "emitElf env B mappings mapping_size = Inr out"
  shows "\<exists>pro. prologue (B_mode B) = Inr pro
     \<and> st_entry out = s64 (option_loader_base env
           + int (sizeof_e9_config_s + sizeof_e9_config_elf_s
                  + 8 * length (B_inits B) + sizeof_e9_map_s * length (st_maps out)))
     \<and> st_size out = st_config_offset out + sizeof_e9_config_s + sizeof_e9_config_elf_s
           + 8 * length (B_inits B) + sizeof_e9_map_s * length (st_maps out)
           + length (entry_shim env pro
               (st_config_offset out + sizeof_e9_config_s + sizeof_e9_config_elf_s
                  + 8 * length (B_inits B) + sizeof_e9_map_s * length (st_maps out))
               (st_config_offset out))
     \<and> read_bytes (st_data out)
           (st_config_offset out + sizeof_e9_config_s + sizeof_e9_config_elf_s
              + 8 * length (B_inits B) + sizeof_e9_map_s * length (st_maps out))
           (length (entry_shim env pro
               (st_config_offset out + sizeof_e9_config_s + sizeof_e9_config_elf_s
                  + 8 * length (B_inits B) + sizeof_e9_map_s * length (st_maps out))
               (st_config_offset out)))
         = entry_shim env pro
               (st_config_offset out + sizeof_e9_config_s + sizeof_e9_config_elf_s
                  + 8 * length (B_inits B) + sizeof_e9_map_s * length (st_maps out))
               (st_config_offset out)"
proof -
  from emitElf_out [OF assms] obtain pro d where
    pro: "prologue (B_mode B) = Inr pro"
    and sz: "st_size out = st_config_offset out + sizeof_e9_config_s + sizeof_e9_config_elf_s
         + 8 * length (B_inits B) + sizeof_e9_map_s * length (st_maps out)
         + length (entry_shim env pro
             (st_config_offset out + sizeof_e9_config_s + sizeof_e9_config_elf_s
                + 8 * length (B_inits B) + sizeof_e9_map_s * length (st_maps out))
             (st_config_offset out))"
    and dat: "st_data out = write_bytes d
          (st_config_offset out + sizeof_e9_config_s + sizeof_e9_config_elf_s
             + 8 * length (B_inits B) + sizeof_e9_map_s * length (st_maps out))
          (entry_shim env pro
             (st_config_offset out + sizeof_e9_config_s + sizeof_e9_config_elf_s
                + 8 * length (B_inits B) + sizeof_e9_map_s * length (st_maps out))
             (st_config_offset out))"
    and ent: "st_entry out = s64 (option_loader_base env
         + int (sizeof_e9_config_s + sizeof_e9_config_elf_s
                + 8 * length (B_inits B) + sizeof_e9_map_s * length (st_maps out)))"
    by blast
  have "read_bytes (st_data out)
           (st_config_offset out + sizeof_e9_config_s + sizeof_e9_config_elf_s
              + 8 * length (B_inits B) + sizeof_e9_map_s * length (st_maps out))
           (length (entry_shim env pro
               (st_config_offset out + sizeof_e9_config_s + sizeof_e9_config_elf_s
                  + 8 * length (B_inits B) + sizeof_e9_map_s * length (st_maps out))
               (st_config_offset out)))
         = entry_shim env pro
               (st_config_offset out + sizeof_e9_config_s + sizeof_e9_config_elf_s
                  + 8 * length (B_inits B) + sizeof_e9_map_s * length (st_maps out))
               (st_config_offset out)"
    by (simp only: dat read_write_bytes)
  with pro ent sz show ?thesis by (intro exI [of _ pro] conjI)
qed

subsection \<open>The shim\<close>

text \<open>
  C8 says that the entry shim consists of the prologue of the mode, the \<^verbatim>\<open>lea\<close> and
  the loader. With \<^verbatim>\<open>option_trap_entry\<close> the source stores the byte \<^verbatim>\<open>CC\<close> at the entry
  address before the prologue: the example executable emitted with this option has
  \<^verbatim>\<open>CC\<close> at its entry address \<^verbatim>\<open>loader base + 80\<close> (file offset 8272), and the
  prologue \<^verbatim>\<open>48 8B 3C 24 ...\<close> follows it.
\<close>

theorem trap_byte_precedes_prologue:
  "\<exists>out. emitElf (example_env\<lparr>option_trap_entry := True\<rparr>)
            (parsed (example_binary MODE_ELF_EXE ET_DYN)) [] 0x10000 = Inr out
     \<and> st_config_offset out = 8192 \<and> st_entry out = 0x20e9e9000 + (8272 - 8192)
     \<and> read_bytes (st_data out) 8272 20
          = [0xCC, 0x48, 0x8B, 0x3C, 0x24, 0x48, 0x8D, 0x74, 0x24, 0x08, 0x48, 0x8D, 0x15,
             0x9F, 0xFF, 0xFF, 0xFF, 0xFF, 0x62, 0x18]"
proof -
  let ?env = "example_env\<lparr>option_trap_entry := True\<rparr>"
  let ?B = "parsed (example_binary MODE_ELF_EXE ET_DYN)"
  from trap_run obtain out where
    r: "emitElf ?env ?B [] 0x10000 = Inr out"
    and f: "st_config_offset out = 8192" "st_maps out = []" "st_entry out = 0x20e9e9050"
    by blast
  have m: "B_mode ?B = MODE_ELF_EXE" "B_inits ?B = []"
    by (simp_all add: parsed_def example_binary_def)
  from emitted_shim [OF r] have "read_bytes (st_data out) 8272 20
          = [0xCC, 0x48, 0x8B, 0x3C, 0x24, 0x48, 0x8D, 0x74, 0x24, 0x08, 0x48, 0x8D, 0x15,
             0x9F, 0xFF, 0xFF, 0xFF, 0xFF, 0x62, 0x18]"
    by (auto simp: f m prologue_def entry_shim_def Let_def example_env_def
          sizeof_e9_config_s_def sizeof_e9_config_elf_s_def le32_minus_97)
  with r f show ?thesis by (intro exI [of _ out] conjI) simp_all
qed

text \<open>
  C8, as the source has it: when \<^verbatim>\<open>emitElf\<close> succeeds, the bytes from the entry point
  (the offset after the config record, the init table and the map records) to the
  end of the file are: the byte \<^verbatim>\<open>CC\<close> if \<^verbatim>\<open>option_trap_entry\<close> is set, the prologue of
  the mode (\<^verbatim>\<open>48 8B 3C 24 48 8D 74 24 08\<close> for an executable, \<^verbatim>\<open>31 FF 31 F6\<close> for a
  shared object), \<^verbatim>\<open>48 8D 15\<close>, the four bytes in little endian of \<open>rel32\<close>, which is
  \<open>-((cursor + 4) - config_offset)\<close> in 32 bits, where \<open>cursor\<close> is the offset after the
  three opcode bytes, and the loader blob. The address after the displacement plus
  the signed value of \<open>rel32\<close> is the offset of the config record exactly when the
  distance \<open>(cursor + 4) - config_offset\<close> is at most \<open>2 ^ 31\<close>.
\<close>

theorem entry_shim_bytes:
  assumes "emitElf env B mappings mapping_size = Inr out"
  shows "\<exists>pro. prologue (B_mode B) = Inr pro
     \<and> (B_mode B = MODE_ELF_EXE \<longrightarrow> pro = [0x48, 0x8B, 0x3C, 0x24, 0x48, 0x8D, 0x74, 0x24, 0x08])
     \<and> (B_mode B = MODE_ELF_DSO \<longrightarrow> pro = [0x31, 0xFF, 0x31, 0xF6])
     \<and> (let trap = (if option_trap_entry env then [0xCC] else []);
             off = st_config_offset out + sizeof_e9_config_s + sizeof_e9_config_elf_s
                     + 8 * length (B_inits B) + sizeof_e9_map_s * length (st_maps out);
             cursor = off + length trap + length pro + 3;
             rel32 = - (word_of_nat (cursor + 4 - st_config_offset out) :: 32 word)
         in st_entry out = s64 (option_loader_base env + int (off - st_config_offset out))
            \<and> st_size out = off + length trap + length pro + 3 + 4
                               + length (e9loader_elf_bin env)
            \<and> read_bytes (st_data out) off (st_size out - off)
                 = trap @ pro @ [0x48, 0x8D, 0x15] @ le32 rel32 @ e9loader_elf_bin env
            \<and> (int (cursor + 4) + sint rel32 = int (st_config_offset out)
                 \<longleftrightarrow> cursor + 4 - st_config_offset out \<le> 2147483648))"
proof -
  from emitted_shim [OF assms] obtain pro where
    pro: "prologue (B_mode B) = Inr pro"
    and ent: "st_entry out = s64 (option_loader_base env
         + int (sizeof_e9_config_s + sizeof_e9_config_elf_s
                + 8 * length (B_inits B) + sizeof_e9_map_s * length (st_maps out)))"
    and sz: "st_size out = st_config_offset out + sizeof_e9_config_s + sizeof_e9_config_elf_s
         + 8 * length (B_inits B) + sizeof_e9_map_s * length (st_maps out)
         + length (entry_shim env pro
             (st_config_offset out + sizeof_e9_config_s + sizeof_e9_config_elf_s
                + 8 * length (B_inits B) + sizeof_e9_map_s * length (st_maps out))
             (st_config_offset out))"
    and rd: "read_bytes (st_data out)
           (st_config_offset out + sizeof_e9_config_s + sizeof_e9_config_elf_s
              + 8 * length (B_inits B) + sizeof_e9_map_s * length (st_maps out))
           (length (entry_shim env pro
               (st_config_offset out + sizeof_e9_config_s + sizeof_e9_config_elf_s
                  + 8 * length (B_inits B) + sizeof_e9_map_s * length (st_maps out))
               (st_config_offset out)))
         = entry_shim env pro
               (st_config_offset out + sizeof_e9_config_s + sizeof_e9_config_elf_s
                  + 8 * length (B_inits B) + sizeof_e9_map_s * length (st_maps out))
               (st_config_offset out)"
    by blast
  define trap where "trap = (if option_trap_entry env then [0xCC::byte] else [])"
  define off where "off = st_config_offset out + sizeof_e9_config_s + sizeof_e9_config_elf_s
                     + 8 * length (B_inits B) + sizeof_e9_map_s * length (st_maps out)"
  define cursor where "cursor = off + length trap + length pro + 3"
  define rel32 where "rel32 = - (word_of_nat (cursor + 4 - st_config_offset out) :: 32 word)"
  have shim: "entry_shim env pro off (st_config_offset out)
                = trap @ pro @ [0x48, 0x8D, 0x15] @ le32 rel32 @ e9loader_elf_bin env"
    by (simp only: entry_shim_def Let_def trap_def cursor_def rel32_def)
  have len: "length (entry_shim env pro off (st_config_offset out))
                = length trap + length pro + 3 + 4 + length (e9loader_elf_bin env)"
    by (simp add: shim)
  have sz': "st_size out = off + length (entry_shim env pro off (st_config_offset out))"
    using sz by (simp only: off_def)
  have rd': "read_bytes (st_data out) off (length (entry_shim env pro off (st_config_offset out)))
               = entry_shim env pro off (st_config_offset out)"
    using rd by (simp only: off_def)
  have e: "st_entry out = s64 (option_loader_base env + int (off - st_config_offset out))"
  proof -
    have "off - st_config_offset out = sizeof_e9_config_s + sizeof_e9_config_elf_s
                + 8 * length (B_inits B) + sizeof_e9_map_s * length (st_maps out)"
      by (simp add: off_def)
    then show ?thesis by (simp only: ent)
  qed
  have s: "st_size out = off + length trap + length pro + 3 + 4 + length (e9loader_elf_bin env)"
    using sz' len by simp
  have r: "read_bytes (st_data out) off (st_size out - off)
             = trap @ pro @ [0x48, 0x8D, 0x15] @ le32 rel32 @ e9loader_elf_bin env"
  proof -
    have "st_size out - off = length (entry_shim env pro off (st_config_offset out))"
      using sz' by simp
    then have "read_bytes (st_data out) off (st_size out - off)
                 = entry_shim env pro off (st_config_offset out)"
      by (simp only: rd')
    then show ?thesis by (simp only: shim)
  qed
  have l: "int (cursor + 4) + sint rel32 = int (st_config_offset out)
             \<longleftrightarrow> cursor + 4 - st_config_offset out \<le> 2147483648"
  proof -
    have le: "st_config_offset out \<le> cursor + 4" by (simp add: cursor_def off_def)
    then have d: "int (cursor + 4 - st_config_offset out)
                   = int (cursor + 4) - int (st_config_offset out)" by simp
    have "int (cursor + 4) + sint rel32 = int (st_config_offset out)
            \<longleftrightarrow> sint rel32 = - int (cursor + 4 - st_config_offset out)"
      unfolding d by linarith
    also have "\<dots> \<longleftrightarrow> cursor + 4 - st_config_offset out \<le> 2147483648"
      unfolding rel32_def by (rule sint_neg_of_nat_iff)
    finally show ?thesis .
  qed
  have m1: "B_mode B = MODE_ELF_EXE \<longrightarrow> pro = [0x48, 0x8B, 0x3C, 0x24, 0x48, 0x8D, 0x74, 0x24, 0x08]"
    and m2: "B_mode B = MODE_ELF_DSO \<longrightarrow> pro = [0x31, 0xFF, 0x31, 0xF6]"
    using pro by (auto simp: prologue_def)
  from e s r l have "st_entry out = s64 (option_loader_base env + int (off - st_config_offset out))
            \<and> st_size out = off + length trap + length pro + 3 + 4
                               + length (e9loader_elf_bin env)
            \<and> read_bytes (st_data out) off (st_size out - off)
                 = trap @ pro @ [0x48, 0x8D, 0x15] @ le32 rel32 @ e9loader_elf_bin env
            \<and> (int (cursor + 4) + sint rel32 = int (st_config_offset out)
                 \<longleftrightarrow> cursor + 4 - st_config_offset out \<le> 2147483648)"
    by (intro conjI)
  then have body: "(let trap = (if option_trap_entry env then [0xCC] else []);
             off = st_config_offset out + sizeof_e9_config_s + sizeof_e9_config_elf_s
                     + 8 * length (B_inits B) + sizeof_e9_map_s * length (st_maps out);
             cursor = off + length trap + length pro + 3;
             rel32 = - (word_of_nat (cursor + 4 - st_config_offset out) :: 32 word)
         in st_entry out = s64 (option_loader_base env + int (off - st_config_offset out))
            \<and> st_size out = off + length trap + length pro + 3 + 4
                               + length (e9loader_elf_bin env)
            \<and> read_bytes (st_data out) off (st_size out - off)
                 = trap @ pro @ [0x48, 0x8D, 0x15] @ le32 rel32 @ e9loader_elf_bin env
            \<and> (int (cursor + 4) + sint rel32 = int (st_config_offset out)
                 \<longleftrightarrow> cursor + 4 - st_config_offset out \<le> 2147483648))"
    unfolding Let_def rel32_def cursor_def off_def trap_def .
  from pro m1 m2 body show ?thesis by (intro exI [of _ pro] conjI)
qed

text \<open>
  The example executable: without the option the shim is at offset 8272 (the config
  record is at 8192) and the displacement is \<open>-96\<close>; with the option the byte \<^verbatim>\<open>CC\<close>
  comes first and the displacement is \<open>-97\<close>.
\<close>

theorem entry_shim_bytes_witness:
  "(\<exists>out. emitElf example_env (parsed (example_binary MODE_ELF_EXE ET_DYN)) [] 0x10000 = Inr out
      \<and> st_entry out = 0x20e9e9050
      \<and> read_bytes (st_data out) 8272 19
           = [0x48, 0x8B, 0x3C, 0x24, 0x48, 0x8D, 0x74, 0x24, 0x08, 0x48, 0x8D, 0x15,
              0xA0, 0xFF, 0xFF, 0xFF, 0xFF, 0x62, 0x18]
      \<and> int 8288 + sint (- 96 :: 32 word) = int 8192)
   \<and> (\<exists>out. emitElf (example_env\<lparr>option_trap_entry := True\<rparr>)
            (parsed (example_binary MODE_ELF_EXE ET_DYN)) [] 0x10000 = Inr out
      \<and> st_entry out = 0x20e9e9050
      \<and> read_bytes (st_data out) 8272 20
           = [0xCC, 0x48, 0x8B, 0x3C, 0x24, 0x48, 0x8D, 0x74, 0x24, 0x08, 0x48, 0x8D, 0x15,
              0x9F, 0xFF, 0xFF, 0xFF, 0xFF, 0x62, 0x18]
      \<and> int 8289 + sint (- 97 :: 32 word) = int 8192)"
proof
  let ?B = "parsed (example_binary MODE_ELF_EXE ET_DYN)"
  from runA obtain out where
    r: "emitElf example_env ?B [] 0x10000 = Inr out"
    and f: "st_config_offset out = 8192" "st_maps out = []" "st_size out = 8291" by blast
  have m: "B_mode ?B = MODE_ELF_EXE" "B_inits ?B = []" "option_trap_entry example_env = False"
    "e9loader_elf_bin example_env = [0xFF, 0x62, 0x18]"
    "option_loader_base example_env = 0x20e9e9000"
    by (simp_all add: parsed_def example_binary_def example_env_def)
  from entry_shim_bytes [OF r]
  show "\<exists>out. emitElf example_env ?B [] 0x10000 = Inr out
      \<and> st_entry out = 0x20e9e9050
      \<and> read_bytes (st_data out) 8272 19
           = [0x48, 0x8B, 0x3C, 0x24, 0x48, 0x8D, 0x74, 0x24, 0x08, 0x48, 0x8D, 0x15,
              0xA0, 0xFF, 0xFF, 0xFF, 0xFF, 0x62, 0x18]
      \<and> int 8288 + sint (- 96 :: 32 word) = int 8192"
    by (intro exI [of _ out])
       (simp add: r f m Let_def sizeof_e9_config_s_def sizeof_e9_config_elf_s_def s64_def
          le32_minus_96)
next
  let ?B = "parsed (example_binary MODE_ELF_EXE ET_DYN)"
  let ?env = "example_env\<lparr>option_trap_entry := True\<rparr>"
  from trap_run obtain out where
    r: "emitElf ?env ?B [] 0x10000 = Inr out"
    and f: "st_config_offset out = 8192" "st_maps out = []" "st_size out = 8292" by blast
  have m: "B_mode ?B = MODE_ELF_EXE" "B_inits ?B = []" "option_trap_entry ?env = True"
    "e9loader_elf_bin ?env = [0xFF, 0x62, 0x18]"
    "option_loader_base ?env = 0x20e9e9000"
    by (simp_all add: parsed_def example_binary_def example_env_def)
  from entry_shim_bytes [OF r]
  show "\<exists>out. emitElf ?env ?B [] 0x10000 = Inr out
      \<and> st_entry out = 0x20e9e9050
      \<and> read_bytes (st_data out) 8272 20
           = [0xCC, 0x48, 0x8B, 0x3C, 0x24, 0x48, 0x8D, 0x74, 0x24, 0x08, 0x48, 0x8D, 0x15,
              0x9F, 0xFF, 0xFF, 0xFF, 0xFF, 0x62, 0x18]
      \<and> int 8289 + sint (- 97 :: 32 word) = int 8192"
    by (intro exI [of _ out])
       (simp add: r f m Let_def sizeof_e9_config_s_def sizeof_e9_config_elf_s_def s64_def
          le32_minus_97)
qed

section \<open>C9: the length of the emitted file\<close>

text \<open>
  C9 says that the length of the file is a multiple of the page size at the end of
  each step and when \<^verbatim>\<open>emitElf\<close> returns. The source rounds the length up at Step (1)
  and before the config record, and the refactoring appends whole pages; the value
  returned is the offset of the config record plus the size of the config, loader
  included, which is not rounded: only \<^verbatim>\<open>config->size\<close> holds the rounded size. The
  example executable is emitted with length 8291.
\<close>

theorem returned_size_not_page_multiple:
  "\<exists>out. emitElf example_env (parsed (example_binary MODE_ELF_EXE ET_DYN)) [] 0x10000 = Inr out
     \<and> st_size out = 8291 \<and> st_size out mod PAGE_SIZE = 99"
proof -
  from runA obtain out where
    "emitElf example_env (parsed (example_binary MODE_ELF_EXE ET_DYN)) [] 0x10000 = Inr out"
    and "st_size out = 8291" by blast
  then show ?thesis by (intro exI [of _ out]) (simp add: PAGE_SIZE_def)
qed

text \<open>
  C9, as the source has it: when \<^verbatim>\<open>emitElf\<close> succeeds, the length after Step (1) and
  the growth \<open>n\<close> of Step (2) are multiples of the page size, Step (3) adds the sizes of
  the mappings, the config record starts at the next page boundary, and the length
  returned is that offset plus the size of the config (the records, the init table,
  the map records, the shim and the loader). \<^verbatim>\<open>config->size\<close> is this size rounded up
  to pages. The returned length is a multiple of the page size exactly when the size
  of the config is.
\<close>

theorem emitted_size:
  assumes "emitElf env B mappings mapping_size = Inr out"
  shows "\<exists>s3 n data refactors pro.
      emitRefactoredPatch env (B_original_bytes B) (B_patched_bytes B)
        (page_round_up (B_patched_size B)) mapping_size (B_Is B) [] = Inr (n, data, refactors)
    \<and> emitElf_steps_1_3 env B mappings mapping_size = Inr s3
    \<and> prologue (B_mode B) = Inr pro
    \<and> page_round_up (B_patched_size B) mod PAGE_SIZE = 0
    \<and> n mod PAGE_SIZE = 0
    \<and> st_size s3 = page_round_up (B_patched_size B) + n + sum_list (map m_size mappings)
    \<and> st_config_offset out = page_round_up (st_size s3)
    \<and> st_config_offset out mod PAGE_SIZE = 0
    \<and> st_config_size out = sizeof_e9_config_s + sizeof_e9_config_elf_s
         + 8 * length (B_inits B) + sizeof_e9_map_s * length (st_maps out)
         + (if option_trap_entry env then 1 else 0) + length pro + 3 + 4
         + length (e9loader_elf_bin env)
    \<and> st_size out = st_config_offset out + st_config_size out
    \<and> cfg_size (st_config out) = word_of_nat (page_round_up (st_config_size out))
    \<and> (st_size out mod PAGE_SIZE = 0 \<longleftrightarrow> st_config_size out mod PAGE_SIZE = 0)"
proof -
  from emitElf_out [OF assms] obtain s3 pro where
    s3: "emitElf_steps_1_3 env B mappings mapping_size = Inr s3"
    and pro: "prologue (B_mode B) = Inr pro"
    and co: "st_config_offset out = page_round_up (st_size s3)"
    and sz: "st_size out = st_config_offset out + sizeof_e9_config_s + sizeof_e9_config_elf_s
         + 8 * length (B_inits B) + sizeof_e9_map_s * length (st_maps out)
         + length (entry_shim env pro
             (st_config_offset out + sizeof_e9_config_s + sizeof_e9_config_elf_s
                + 8 * length (B_inits B) + sizeof_e9_map_s * length (st_maps out))
             (st_config_offset out))"
    and cs: "st_config_size out = st_size out - st_config_offset out"
    and cf: "cfg_size (st_config out) = word_of_nat (page_round_up (st_config_size out))"
    by blast
  from emitElf_steps_1_3_size [OF s3] obtain n data refactors where
    r: "emitRefactoredPatch env (B_original_bytes B) (B_patched_bytes B)
        (page_round_up (B_patched_size B)) mapping_size (B_Is B) [] = Inr (n, data, refactors)"
    and z3: "st_size s3 = page_round_up (B_patched_size B) + n + sum_list (map m_size mappings)"
    by blast
  have len: "length (entry_shim env pro off c)
     = (if option_trap_entry env then 1 else 0) + length pro + 3 + 4
         + length (e9loader_elf_bin env)" for off c
    by (simp add: entry_shim_def Let_def)
  have a0: "page_round_up (B_patched_size B) mod PAGE_SIZE = 0"
    by (rule page_round_up_aligned)
  have a1: "n mod PAGE_SIZE = 0"
    by (rule emitRefactoredPatch_growth_aligned [OF r])
  have a2: "st_config_offset out mod PAGE_SIZE = 0"
    unfolding co by (rule page_round_up_aligned)
  have c1: "st_config_size out = sizeof_e9_config_s + sizeof_e9_config_elf_s
         + 8 * length (B_inits B) + sizeof_e9_map_s * length (st_maps out)
         + (if option_trap_entry env then 1 else 0) + length pro + 3 + 4
         + length (e9loader_elf_bin env)"
    using sz unfolding cs len by simp
  have c2: "st_size out = st_config_offset out + st_config_size out"
    unfolding cs using sz by simp
  have c3: "st_size out mod PAGE_SIZE = 0 \<longleftrightarrow> st_config_size out mod PAGE_SIZE = 0"
  proof -
    from a2 have "PAGE_SIZE dvd st_config_offset out" by (simp add: mod_eq_0_iff_dvd)
    then have "PAGE_SIZE dvd st_config_offset out + st_config_size out
                 \<longleftrightarrow> PAGE_SIZE dvd st_config_size out"
      by (rule dvd_add_right_iff)
    then show ?thesis by (simp only: c2 mod_eq_0_iff_dvd)
  qed
  from r s3 pro a0 a1 z3 co a2 c1 c2 cf c3 show ?thesis
    by (intro exI [of _ s3] exI [of _ n] exI [of _ data] exI [of _ refactors] exI [of _ pro]
          conjI)
qed

text \<open>The example executable: the config record is page aligned and 99 bytes long.\<close>

theorem emitted_size_witness:
  "\<exists>out. emitElf example_env (parsed (example_binary MODE_ELF_EXE ET_DYN)) [] 0x10000 = Inr out
     \<and> st_config_offset out mod PAGE_SIZE = 0
     \<and> st_size out = st_config_offset out + 99
     \<and> cfg_size (st_config out) = 4096"
proof -
  from runA obtain out where
    r: "emitElf example_env (parsed (example_binary MODE_ELF_EXE ET_DYN)) [] 0x10000 = Inr out"
    and f: "st_config_size out = 99" by blast
  from emitted_size [OF r] have "st_config_offset out mod PAGE_SIZE = 0"
    and "st_size out = st_config_offset out + st_config_size out"
    and "cfg_size (st_config out) = word_of_nat (page_round_up (st_config_size out))"
    by blast+
  with r f show ?thesis
    by (intro exI [of _ out]) (simp add: page_round_up_def PAGE_SIZE_def)
qed

section \<open>C6: the entry point of a shared object\<close>






section \<open>C10: the file offsets of the map records\<close>

subsection \<open>The mappings after Step (3), and the fields of a record\<close>

lemma emit_trampolines_placed: "fst (emit_trampolines env ms data sz) = placed ms sz"
proof (induction ms arbitrary: data sz)
  case Nil
  then show ?case by simp
next
  case (Cons m ms)
  obtain ms1 d1 sz1 where
    t: "emit_trampolines env ms
          (write_bytes data sz (flattenMapping env (set_offset m (int sz)) 0xcc))
          (sz + m_size m) = (ms1, d1, sz1)"
    by (metis prod_cases3)
  from Cons.IH [of "write_bytes data sz (flattenMapping env (set_offset m (int sz)) 0xcc)"
                   "sz + m_size m"] t
  have "ms1 = placed ms (sz + m_size m)" by simp
  with t show ?case by (simp add: Let_def)
qed

lemma emitElf_steps_1_3_mappings:
  assumes "emitElf_steps_1_3 env B mappings mapping_size = Inr s3"
  shows "\<exists>n data refactors.
      emitRefactoredPatch env (B_original_bytes B) (B_patched_bytes B)
        (page_round_up (B_patched_size B)) mapping_size (B_Is B) [] = Inr (n, data, refactors)
    \<and> st_mappings s3 = placed mappings (page_round_up (B_patched_size B) + n)
    \<and> st_refactors s3 = refactors"
proof -
  from assms obtain n data refactors where
    r: "emitRefactoredPatch env (B_original_bytes B) (B_patched_bytes B)
        (page_round_up (B_patched_size B)) mapping_size (B_Is B) [] = Inr (n, data, refactors)"
    by (auto simp: emitElf_steps_1_3_def Let_def split: sum.splits)
  obtain ms' d' sz' where
    t: "emit_trampolines env mappings data (page_round_up (B_patched_size B) + n) = (ms', d', sz')"
    by (metis prod_cases3)
  from assms r t have "st_mappings s3 = ms'" "st_refactors s3 = refactors"
    by (auto simp: emitElf_steps_1_3_def Let_def)
  moreover from emit_trampolines_placed [of env mappings data "page_round_up (B_patched_size B) + n"] t
  have "ms' = placed mappings (page_round_up (B_patched_size B) + n)" by simp
  ultimately show ?thesis using r by simp
qed

lemma written_map_fields:
  "call_ok env c \<Longrightarrow>
   written_map env c =
     zero_map\<lparr>map_addr := word_of_int (BASE_ADDRESS env (c_base c) sdiv int PAGE_SIZE),
              map_offset := word_of_int (s64 (int (u64 (c_offset c) div PAGE_SIZE))),
              map_size := ucast (word_of_nat (c_len c div PAGE_SIZE) :: 16 word),
              map_r := c_r c, map_w := c_w c, map_x := c_x c,
              map_abs := IS_ABSOLUTE env (c_base c)\<rparr>"
  by (auto simp: call_ok_def written_map_def emitLoaderMap_def Let_def split: if_splits)

subsection \<open>The records of a chain\<close>

text \<open>
  C10: when \<^verbatim>\<open>emitElf\<close> succeeds, the records written are those of the calls of
  \<^verbatim>\<open>emitLoaderMap\<close> for the first array, then the second, then the refactorings,
  and every call passed the range checks. The calls of an array are, for each
  mapping \<open>head\<close> in order, for each node of its chain of merged mappings whose
  \<^verbatim>\<open>preload\<close> is that of the array, for each sub-range \<open>b\<close> of the node, the call with
  offset \<open>m_offset head + b_lb b\<close>, the offset field of the head and not that of the
  node, and with base \<open>m_base node + b_lb b\<close>, the base of the node. The record holds
  the offset and the base divided by the page size. The offset of a head is the
  position of its image in the file, set in Step (3).
\<close>

theorem chain_offsets:
  assumes "emitElf env B mappings mapping_size = Inr out"
  shows "\<exists>n data refactors.
      emitRefactoredPatch env (B_original_bytes B) (B_patched_bytes B)
        (page_round_up (B_patched_size B)) mapping_size (B_Is B) [] = Inr (n, data, refactors)
    \<and> st_mappings out = placed mappings (page_round_up (B_patched_size B) + n)
    \<and> map snd (st_maps out)
         = map (written_map env)
             (map_calls env True (st_mappings out) @ map_calls env False (st_mappings out)
              @ map refactor_call refactors)
    \<and> list_all (call_ok env)
             (map_calls env True (st_mappings out) @ map_calls env False (st_mappings out)
              @ map refactor_call refactors)
    \<and> (\<forall>preload. map_calls env preload (st_mappings out)
          = concat (map (\<lambda>head.
               concat (map (\<lambda>node. map (bound_call head node)
                                       (getVirtualBounds env node PAGE_SIZE))
                           (filter (\<lambda>node. m_preload node = preload)
                                   (chain_nodes (Some head)))))
             (st_mappings out)))
    \<and> (\<forall>head node b.
          c_offset (bound_call head node b) = s64 (m_offset head + b_lb b)
        \<and> c_base (bound_call head node b) = s64 (m_base node + b_lb b)
        \<and> c_len (bound_call head node b) = u64 (b_ub b - b_lb b))
    \<and> (\<forall>c. call_ok env c \<longrightarrow>
          map_offset (written_map env c)
             = word_of_int (s64 (int (u64 (c_offset c) div PAGE_SIZE)))
        \<and> map_addr (written_map env c)
             = word_of_int (BASE_ADDRESS env (c_base c) sdiv int PAGE_SIZE))"
proof -
  from emitElf_out [OF assms] obtain s3 where
    s3: "emitElf_steps_1_3 env B mappings mapping_size = Inr s3"
    and maps: "map snd (st_maps out)
         = map (written_map env)
             (map_calls env True (st_mappings out) @ map_calls env False (st_mappings out)
              @ map refactor_call (st_refactors out))"
    and ok: "list_all (call_ok env)
             (map_calls env True (st_mappings out) @ map_calls env False (st_mappings out)
              @ map refactor_call (st_refactors out))"
    and same: "st_mappings out = st_mappings s3" "st_refactors out = st_refactors s3"
    by blast
  from emitElf_steps_1_3_mappings [OF s3] obtain n data refactors where
    r: "emitRefactoredPatch env (B_original_bytes B) (B_patched_bytes B)
        (page_round_up (B_patched_size B)) mapping_size (B_Is B) [] = Inr (n, data, refactors)"
    and pl: "st_mappings s3 = placed mappings (page_round_up (B_patched_size B) + n)"
    and rf: "st_refactors s3 = refactors"
    by blast
  have a: "st_mappings out = placed mappings (page_round_up (B_patched_size B) + n)"
    using same pl by simp
  have b: "map snd (st_maps out)
         = map (written_map env)
             (map_calls env True (st_mappings out) @ map_calls env False (st_mappings out)
              @ map refactor_call refactors)"
    using maps same rf by simp
  have c: "list_all (call_ok env)
             (map_calls env True (st_mappings out) @ map_calls env False (st_mappings out)
              @ map refactor_call refactors)"
    using ok same rf by simp
  have d: "\<forall>preload. map_calls env preload (st_mappings out)
          = concat (map (\<lambda>head.
               concat (map (\<lambda>node. map (bound_call head node)
                                       (getVirtualBounds env node PAGE_SIZE))
                           (filter (\<lambda>node. m_preload node = preload)
                                   (chain_nodes (Some head)))))
             (st_mappings out))"
    by (simp add: map_calls_def chain_calls_def)
  have e: "\<forall>head node b.
          c_offset (bound_call head node b) = s64 (m_offset head + b_lb b)
        \<and> c_base (bound_call head node b) = s64 (m_base node + b_lb b)
        \<and> c_len (bound_call head node b) = u64 (b_ub b - b_lb b)"
    by (simp add: bound_call_def)
  have f: "\<forall>c. call_ok env c \<longrightarrow>
          map_offset (written_map env c)
             = word_of_int (s64 (int (u64 (c_offset c) div PAGE_SIZE)))
        \<and> map_addr (written_map env c)
             = word_of_int (BASE_ADDRESS env (c_base c) sdiv int PAGE_SIZE)"
    by (simp add: written_map_fields)
  from r a b c d e f show ?thesis
    by (intro exI [of _ n] exI [of _ data] exI [of _ refactors] conjI)
qed

text \<open>
  The example chain: the image of the head is at offset \<^verbatim>\<open>0x2000\<close>, page 2; the
  record of the merged mapping has this offset too and not its own (\<^verbatim>\<open>0x7000\<close>), and
  has its own address.
\<close>

lemmas map_defs = emit_one_map_def emitLoaderMap_def zero_map_def sizeof_e9_map_s_def
  INT32_MIN_def INT32_MAX_def UINT32_MAX_def s64_def u64_def PROT_READ_def PROT_WRITE_def
  PROT_EXEC_def signed_divide_int_def set_offset_def

lemma runM:
  "\<exists>out. emitElf example_env (parsed (example_binary MODE_ELF_EXE ET_DYN)) [example_chain]
            0x10000 = Inr out"
proof -
  have r: "emitRefactoredPatch example_env (\<lambda>a. 0) (\<lambda>a. 0) 8192 0x10000 [] []
             = Inr (0, (\<lambda>a. 0), [])"
    by (rule emitRefactoredPatch_same) (simp_all add: example_env_def PAGE_SIZE_def)
  show ?thesis
    by (simp add: run_defs r [unfolded example_env_def] example_chain_def map_defs)
qed

theorem chain_offsets_witness:
  "\<exists>out. emitElf example_env (parsed (example_binary MODE_ELF_EXE ET_DYN)) [example_chain]
            0x10000 = Inr out
     \<and> st_mappings out
          = [Mapping 0x10000000 0x2000 0x2000 5 True
               (Some (Mapping 0x10004000 0x1000 0x7000 5 False None))]
     \<and> map snd (st_maps out)
          = [zero_map\<lparr>map_addr := 0x10000, map_offset := 2, map_size := 2,
                      map_r := True, map_x := True\<rparr>,
             zero_map\<lparr>map_addr := 0x10004, map_offset := 2, map_size := 1,
                      map_r := True, map_x := True\<rparr>]"
proof -
  let ?B = "parsed (example_binary MODE_ELF_EXE ET_DYN)"
  from runM obtain out where
    r: "emitElf example_env ?B [example_chain] 0x10000 = Inr out" by blast
  have same: "emitRefactoredPatch example_env (B_original_bytes ?B) (B_patched_bytes ?B)
        (page_round_up (B_patched_size ?B)) 0x10000 (B_Is ?B) [] = Inr (0, (\<lambda>a. 0), [])"
    by (simp add: parsed_def example_binary_def page_round_up_def PAGE_SIZE_def
          emitRefactoredPatch_same example_env_def)
  from chain_offsets [OF r] same
  have m: "st_mappings out = placed [example_chain] (page_round_up (B_patched_size ?B) + 0)"
    and s: "map snd (st_maps out)
         = map (written_map example_env)
             (map_calls example_env True (st_mappings out)
              @ map_calls example_env False (st_mappings out) @ map refactor_call [])"
    by auto
  have m': "st_mappings out
          = [Mapping 0x10000000 0x2000 0x2000 5 True
               (Some (Mapping 0x10004000 0x1000 0x7000 5 False None))]"
    using m by (simp add: example_chain_def set_offset_def page_round_up_def PAGE_SIZE_def
                  parsed_def example_binary_def)
  have "map snd (st_maps out)
          = [zero_map\<lparr>map_addr := 0x10000, map_offset := 2, map_size := 2,
                      map_r := True, map_x := True\<rparr>,
             zero_map\<lparr>map_addr := 0x10004, map_offset := 2, map_size := 1,
                      map_r := True, map_x := True\<rparr>]"
    unfolding s m'
    by (simp add: map_calls_def chain_calls_def bound_call_def written_map_def
          emitLoaderMap_def example_env_def PAGE_SIZE_def INT32_MIN_def INT32_MAX_def
          UINT32_MAX_def s64_def u64_def PROT_READ_def PROT_WRITE_def PROT_EXEC_def
          signed_divide_int_def sizeof_e9_map_s_def zero_map_def)
  with r m' show ?thesis by (intro exI [of _ out] conjI)
qed

section \<open>C2: the loader base and the bases of the mappings\<close>

text \<open>
  C2 says that after a successful emission no record with a non-absolute base, those
  of the refactorings included, has a base above the loader base. The source
  compares \<^verbatim>\<open>ub\<close> with the loader base before it emits the records of the
  refactorings, and emits these with \<^verbatim>\<open>ub = nullptr\<close>: the example binary with one
  patched instruction at \<^verbatim>\<open>0x300000040\<close> is emitted with a record for the page
  \<^verbatim>\<open>0x300000000\<close>, above the loader base \<^verbatim>\<open>0x20e9e9000\<close>.
\<close>

lemma patched_plan:
  "\<exists>data. emitRefactoredPatch example_env zero_bytes (patch_at [0x40]) 8192 0x10000
             [(0x40, \<lparr>I_addr = 0x300000040, I_offset = 0x40\<rparr>)] []
     = Inr (4096, data,
            [\<lparr>r_addr = 0x300000000, r_size = 0x1000, r_original_offset = 0,
              r_patched_offset = 0x2000\<rparr>])"
proof -
  let ?I = "\<lparr>I_addr = 0x300000040, I_offset = 0x40\<rparr>"
  let ?f = "find_refactorings zero_bytes (patch_at [0x40]) 8192 0x10000 [(0x40, ?I)]"
  let ?c0 = "\<lparr>curr_addr = INTPTR_MIN, curr_offset = - 1, curr_size = 0\<rparr>"
  let ?c1 = "\<lparr>curr_addr = 0x300000000, curr_offset = 0, curr_size = 0x1000\<rparr>"
  have "0 \<in> (\<lambda>x. x div PAGE_SIZE) ` set [0x40]" by (simp add: PAGE_SIZE_def)
  then have "\<not> memcmp_eq zero_bytes (patch_at [0x40]) (0 * PAGE_SIZE) PAGE_SIZE"
    by (simp only: patch_at_page simp_thms)
  then have d0: "\<not> memcmp_eq zero_bytes (patch_at [0x40]) 0 PAGE_SIZE" by simp
  have "1 \<notin> (\<lambda>x. x div PAGE_SIZE) ` set [0x40]" by (simp add: PAGE_SIZE_def)
  then have "memcmp_eq zero_bytes (patch_at [0x40]) (1 * PAGE_SIZE) PAGE_SIZE"
    by (simp only: patch_at_page simp_thms)
  then have d1: "memcmp_eq zero_bytes (patch_at [0x40]) (0 + PAGE_SIZE) PAGE_SIZE" by simp
  have s0: "?f 0 (?c0, []) = ?f (0 + PAGE_SIZE) (visit_page 0x10000 (page_addr_of ?I) (int 0) (?c0, []))"
    by (rule find_refactorings_dirty [OF _ d0])
       (simp_all add: PAGE_SIZE_def lower_bound_def page_offset_of_def)
  have v0: "visit_page 0x10000 (page_addr_of ?I) (int 0) (?c0, []) = (?c1, [])"
    by (simp add: visit_page_def starts_new_cluster_def page_addr_of_def PAGE_SIZE_def
          INTPTR_MIN_def)
  have s1: "?f (0 + PAGE_SIZE) (?c1, []) = ?f (0 + PAGE_SIZE + PAGE_SIZE) (?c1, [])"
    by (rule find_refactorings_clean [OF _ d1]) (simp add: PAGE_SIZE_def)
  have s2: "?f (0 + PAGE_SIZE + PAGE_SIZE) (?c1, []) = Inr (?c1, [])"
    by (rule find_refactorings_end) (simp add: PAGE_SIZE_def)
  have f: "?f 0 (?c0, []) = Inr (?c1, [])"
    by (simp only: s0 v0 s1 s2)
  show ?thesis
    by (simp add: emitRefactoredPatch_def f example_env_def PAGE_SIZE_def Refactor_new_def
          Let_def)
qed

theorem refactor_map_above_loader_base:
  "\<exists>out. emitElf example_env patched_binary [] 0x10000 = Inr out
     \<and> st_refactors out
          = [\<lparr>r_addr = 0x300000000, r_size = 0x1000, r_original_offset = 0,
              r_patched_offset = 0x2000\<rparr>]
     \<and> map snd (st_maps out)
          = [zero_map\<lparr>map_addr := 0x300000, map_offset := 2, map_size := 1,
                      map_r := True, map_x := True\<rparr>]
     \<and> \<not> IS_ABSOLUTE example_env 0x300000000
     \<and> option_loader_base example_env < 0x300000000"
proof -
  from patched_plan obtain data where
    p: "emitRefactoredPatch example_env zero_bytes (patch_at [0x40]) 8192 0x10000
             [(0x40, \<lparr>I_addr = 0x300000040, I_offset = 0x40\<rparr>)] []
     = Inr (4096, data,
            [\<lparr>r_addr = 0x300000000, r_size = 0x1000, r_original_offset = 0,
              r_patched_offset = 0x2000\<rparr>])" ..
  show ?thesis
    by (simp add: run_defs patched_binary_def p [unfolded example_env_def] map_defs)
qed

text \<open>
  C2, as the source has it: when \<^verbatim>\<open>emitElf\<close> succeeds, every call for a sub-range of
  a mapping has an absolute base or a base that is at most the loader base (the
  records of the refactorings follow them and are not compared). When Steps (1) to
  (3) succeed and the two arrays are emitted without a range error, and the base of
  one of these calls is not absolute and above the loader base, \<^verbatim>\<open>emitElf\<close> fails
  with \<open>LoaderBaseTooLow\<close>.
\<close>

theorem loader_base_guard:
  "(emitElf env B mappings mapping_size = Inr out \<longrightarrow>
      list_all (\<lambda>c. IS_ABSOLUTE env (c_base c) \<or> c_base c \<le> option_loader_base env)
         (map_calls env True (st_mappings out) @ map_calls env False (st_mappings out))
      \<and> map snd (st_maps out)
         = map (written_map env)
             (map_calls env True (st_mappings out) @ map_calls env False (st_mappings out)
              @ map refactor_call (st_refactors out)))
   \<and> (emitElf_steps_1_3 env B mappings mapping_size = Inr s3
      \<and> emit_map_arrays env (emit_config env B s3) = Inr s4
      \<and> list_ex (\<lambda>c. \<not> IS_ABSOLUTE env (c_base c) \<and> option_loader_base env < c_base c)
           (map_calls env True (st_mappings s3) @ map_calls env False (st_mappings s3))
      \<longrightarrow> emitElf env B mappings mapping_size = Inl LoaderBaseTooLow)"
proof (intro conjI impI)
  assume run: "emitElf env B mappings mapping_size = Inr out"
  let ?calls = "map_calls env True (st_mappings out) @ map_calls env False (st_mappings out)"
  from emitElf_out [OF run] have
    ub: "ub_of env ?calls INTPTR_MIN \<le> option_loader_base env"
    and maps: "map snd (st_maps out)
         = map (written_map env) (?calls @ map refactor_call (st_refactors out))"
    by auto
  have "IS_ABSOLUTE env (c_base c) \<or> c_base c \<le> option_loader_base env"
    if "c \<in> set ?calls" for c
  proof (cases "IS_ABSOLUTE env (c_base c)")
    case True
    then show ?thesis by simp
  next
    case False
    from ub_of_ge [OF that False, of INTPTR_MIN] ub show ?thesis by simp
  qed
  then show "list_all (\<lambda>c. IS_ABSOLUTE env (c_base c) \<or> c_base c \<le> option_loader_base env)
         ?calls"
    unfolding list_all_iff by blast
  from maps show "map snd (st_maps out)
         = map (written_map env)
             (map_calls env True (st_mappings out) @ map_calls env False (st_mappings out)
              @ map refactor_call (st_refactors out))"
    by simp
next
  assume a: "emitElf_steps_1_3 env B mappings mapping_size = Inr s3
      \<and> emit_map_arrays env (emit_config env B s3) = Inr s4
      \<and> list_ex (\<lambda>c. \<not> IS_ABSOLUTE env (c_base c) \<and> option_loader_base env < c_base c)
           (map_calls env True (st_mappings s3) @ map_calls env False (st_mappings s3))"
  let ?calls = "map_calls env True (st_mappings s3) @ map_calls env False (st_mappings s3)"
  from a obtain c where c: "c \<in> set ?calls" "\<not> IS_ABSOLUTE env (c_base c)"
    "option_loader_base env < c_base c"
    unfolding list_ex_iff by blast
  from a have m: "emit_map_arrays env (emit_config env B s3) = Inr s4" by simp
  have ms: "st_mappings (emit_config env B s3) = st_mappings s3"
    using emit_config_facts [of env B s3] by simp
  from emit_map_arrays_emitted [OF m]
  have "st_ub s4 = ub_of env ?calls INTPTR_MIN"
    by (simp add: emitted_def ms)
  with ub_of_ge [OF c(1,2), of INTPTR_MIN] c(3)
  have "option_loader_base env < st_ub s4" by simp
  with a m show "emitElf env B mappings mapping_size = Inl LoaderBaseTooLow"
    by (simp add: emitElf_def emitElf_step_4_def)
qed

text \<open>
  The example chain lies below the loader base of the example; with the loader base
  \<^verbatim>\<open>0x10001000\<close>, between the two mappings, the emission is refused.
\<close>

lemma low_steps:
  "\<exists>s3 s4. emitElf_steps_1_3 (example_env\<lparr>option_loader_base := 0x10001000\<rparr>)
               (parsed (example_binary MODE_ELF_EXE ET_DYN)) [example_chain] 0x10000 = Inr s3
     \<and> st_mappings s3
          = [Mapping 0x10000000 0x2000 0x2000 5 True
               (Some (Mapping 0x10004000 0x1000 0x7000 5 False None))]
     \<and> emit_map_arrays (example_env\<lparr>option_loader_base := 0x10001000\<rparr>)
          (emit_config (example_env\<lparr>option_loader_base := 0x10001000\<rparr>)
             (parsed (example_binary MODE_ELF_EXE ET_DYN)) s3) = Inr s4"
  by (simp add: run_defs emitRefactoredPatch_same example_chain_def map_defs)

theorem loader_base_guard_witness:
  "(\<exists>out. emitElf example_env (parsed (example_binary MODE_ELF_EXE ET_DYN)) [example_chain]
            0x10000 = Inr out
      \<and> list_all (\<lambda>c. IS_ABSOLUTE example_env (c_base c)
                       \<or> c_base c \<le> option_loader_base example_env)
           (map_calls example_env True (st_mappings out)
            @ map_calls example_env False (st_mappings out)))
   \<and> emitElf (example_env\<lparr>option_loader_base := 0x10001000\<rparr>)
        (parsed (example_binary MODE_ELF_EXE ET_DYN)) [example_chain] 0x10000
       = Inl LoaderBaseTooLow"
proof
  let ?B = "parsed (example_binary MODE_ELF_EXE ET_DYN)"
  from runM obtain out where
    r: "emitElf example_env ?B [example_chain] 0x10000 = Inr out" by blast
  from loader_base_guard [of example_env ?B "[example_chain]" "0x10000" out, THEN conjunct1] r
  show "\<exists>out. emitElf example_env ?B [example_chain] 0x10000 = Inr out
      \<and> list_all (\<lambda>c. IS_ABSOLUTE example_env (c_base c)
                       \<or> c_base c \<le> option_loader_base example_env)
           (map_calls example_env True (st_mappings out)
            @ map_calls example_env False (st_mappings out))"
    by blast
next
  let ?B = "parsed (example_binary MODE_ELF_EXE ET_DYN)"
  let ?env = "example_env\<lparr>option_loader_base := 0x10001000\<rparr>"
  from low_steps obtain s3 s4 where
    s3: "emitElf_steps_1_3 ?env ?B [example_chain] 0x10000 = Inr s3"
    and m: "st_mappings s3
          = [Mapping 0x10000000 0x2000 0x2000 5 True
               (Some (Mapping 0x10004000 0x1000 0x7000 5 False None))]"
    and s4: "emit_map_arrays ?env (emit_config ?env ?B s3) = Inr s4"
    by blast
  have ex: "list_ex (\<lambda>c. \<not> IS_ABSOLUTE ?env (c_base c) \<and> option_loader_base ?env < c_base c)
           (map_calls ?env True (st_mappings s3) @ map_calls ?env False (st_mappings s3))"
    unfolding m
    by (simp add: map_calls_def chain_calls_def bound_call_def example_env_def s64_def)
  from loader_base_guard [of ?env ?B "[example_chain]" "0x10000" _ s3 s4, THEN conjunct2]
    s3 s4 ex
  show "emitElf ?env ?B [example_chain] 0x10000 = Inl LoaderBaseTooLow" by blast
qed

end
